theory Spec2Isabelle
  imports Complex_Main "HOL-Library.Word" "HOL-Library.Monad_Syntax" "HOL-Library.Sublist"
begin

unbundle bit_operations_syntax

section \<open>Double-precision values\<close>

text \<open>
  A C++ \<open>double\<close> is an IEEE 754 binary64 number: a real number of the form
  \<open>n * 2 ^ e\<close> with \<open>\<bar>n\<bar> < 2 ^ 53\<close> and \<open>- 1074 \<le> e \<le> 971\<close> (\<open>is_double\<close>), or one of the three
  special values. Every arithmetic operation computes the exact real result and rounds it
  to the nearest double, ties to the even significand (\<open>rnd\<close>); a result whose rounding
  reaches \<open>2 ^ 1024\<close> overflows to an infinity, and tiny results round on the subnormal grid
  of spacing \<open>2 ^ - 1074\<close>. NaN is absorbing and every comparison with NaN is false.

  Each operation of the source rounds on its own (no fused multiply-add, no extended
  precision). \<open>exp\<close> and \<open>log\<close> are taken as correctly rounded, as \<open>sqrt\<close> is. The two zeros
  of IEEE 754 are the one value \<open>Fin 0\<close>: they compare equal, and the quotient by a zero takes
  its sign from the numerator alone.
\<close>

datatype dbl = Fin real | PInf | MInf | NaN

text \<open>\<open>pow2 e\<close> is \<open>2 ^ e\<close> for an integer exponent.\<close>

definition pow2 :: "int \<Rightarrow> real" where
  "pow2 e = (if 0 \<le> e then 2 ^ nat e else 1 / 2 ^ nat (- e))"

text \<open>The nearest integer, ties to the even one.\<close>

definition round_half_even :: "real \<Rightarrow> int" where
  "round_half_even q =
     (let f = \<lfloor>q\<rfloor>
      in if q - of_int f < 1 / 2 then f
         else if 1 / 2 < q - of_int f then f + 1
         else if even f then f else f + 1)"

text \<open>
  The exponent of the spacing of the doubles around \<open>x\<close>: 52 below the binade of \<open>x\<close>, and
  \<open>- 1074\<close> throughout the subnormal range.
\<close>

definition ulp_exponent :: "real \<Rightarrow> int" where
  "ulp_exponent x = max \<lfloor>log 2 \<bar>x\<bar>\<rfloor> (- 1022) - 52"

text \<open>Rounding of an exact real result to a double.\<close>

definition rnd :: "real \<Rightarrow> dbl" where
  "rnd x =
     (if x = 0 then Fin 0
      else let e = ulp_exponent x;
               r = of_int (round_half_even (x / pow2 e)) * pow2 e
           in if 2 ^ 1024 \<le> \<bar>r\<bar> then (if 0 < x then PInf else MInf) else Fin r)"

text \<open>The finite doubles among the real numbers.\<close>

definition is_double :: "real \<Rightarrow> bool" where
  "is_double r = (\<exists>n e. \<bar>n\<bar> < 2 ^ 53 \<and> - 1074 \<le> e \<and> e \<le> 971 \<and> r = of_int n * pow2 e)"

fun dsign :: "dbl \<Rightarrow> real" where
  "dsign (Fin a) = sgn a"
| "dsign PInf = 1"
| "dsign MInf = - 1"
| "dsign NaN = 0"

definition inf_of_sign :: "real \<Rightarrow> dbl" where
  "inf_of_sign s = (if 0 < s then PInf else if s < 0 then MInf else NaN)"

fun dadd :: "dbl \<Rightarrow> dbl \<Rightarrow> dbl" where
  "dadd (Fin a) (Fin b) = rnd (a + b)"
| "dadd NaN y = NaN"
| "dadd x NaN = NaN"
| "dadd PInf MInf = NaN"
| "dadd MInf PInf = NaN"
| "dadd PInf y = PInf"
| "dadd MInf y = MInf"
| "dadd x PInf = PInf"
| "dadd x MInf = MInf"

fun dneg :: "dbl \<Rightarrow> dbl" where
  "dneg (Fin a) = Fin (- a)"
| "dneg PInf = MInf"
| "dneg MInf = PInf"
| "dneg NaN = NaN"

fun dmul :: "dbl \<Rightarrow> dbl \<Rightarrow> dbl" where
  "dmul (Fin a) (Fin b) = rnd (a * b)"
| "dmul NaN y = NaN"
| "dmul x NaN = NaN"
| "dmul x y = inf_of_sign (dsign x * dsign y)"

fun ddiv :: "dbl \<Rightarrow> dbl \<Rightarrow> dbl" where
  "ddiv (Fin a) (Fin b) = (if b \<noteq> 0 then rnd (a / b) else inf_of_sign (sgn a))"
| "ddiv NaN y = NaN"
| "ddiv x NaN = NaN"
| "ddiv (Fin a) y = Fin 0"
| "ddiv x (Fin b) = inf_of_sign (dsign x * (if b < 0 then - 1 else 1))"
| "ddiv x y = NaN"

fun dless :: "dbl \<Rightarrow> dbl \<Rightarrow> bool" where
  "dless (Fin a) (Fin b) = (a < b)"
| "dless NaN y = False"
| "dless x NaN = False"
| "dless x MInf = False"
| "dless PInf y = False"
| "dless x y = True"

fun dless_eq :: "dbl \<Rightarrow> dbl \<Rightarrow> bool" where
  "dless_eq (Fin a) (Fin b) = (a \<le> b)"
| "dless_eq NaN y = False"
| "dless_eq x NaN = False"
| "dless_eq MInf y = True"
| "dless_eq x PInf = True"
| "dless_eq x y = False"

instantiation dbl :: "{zero, one, plus, minus, uminus, times, inverse, ord}"
begin
definition zero_dbl :: dbl where "zero_dbl = Fin 0"
definition one_dbl :: dbl where "one_dbl = Fin 1"
definition plus_dbl :: "dbl \<Rightarrow> dbl \<Rightarrow> dbl" where "plus_dbl = dadd"
definition uminus_dbl :: "dbl \<Rightarrow> dbl" where "uminus_dbl = dneg"
definition minus_dbl :: "dbl \<Rightarrow> dbl \<Rightarrow> dbl" where "minus_dbl x y = dadd x (dneg y)"
definition times_dbl :: "dbl \<Rightarrow> dbl \<Rightarrow> dbl" where "times_dbl = dmul"
definition divide_dbl :: "dbl \<Rightarrow> dbl \<Rightarrow> dbl" where "divide_dbl = ddiv"
definition inverse_dbl :: "dbl \<Rightarrow> dbl" where "inverse_dbl x = ddiv (Fin 1) x"
definition less_dbl :: "dbl \<Rightarrow> dbl \<Rightarrow> bool" where "less_dbl = dless"
definition less_eq_dbl :: "dbl \<Rightarrow> dbl \<Rightarrow> bool" where "less_eq_dbl = dless_eq"
instance ..
end

text \<open>\<open>fabs\<close>, \<open>exp\<close>, \<open>log\<close> and \<open>sqrt\<close> of \<open>cmath\<close>.\<close>

fun fabs :: "dbl \<Rightarrow> dbl" where
  "fabs (Fin a) = Fin \<bar>a\<bar>"
| "fabs NaN = NaN"
| "fabs x = PInf"

fun dexp :: "dbl \<Rightarrow> dbl" where
  "dexp (Fin a) = rnd (exp a)"
| "dexp PInf = PInf"
| "dexp MInf = Fin 0"
| "dexp NaN = NaN"

fun dlog :: "dbl \<Rightarrow> dbl" where
  "dlog (Fin a) = (if 0 < a then rnd (ln a) else if a = 0 then MInf else NaN)"
| "dlog PInf = PInf"
| "dlog x = NaN"

fun dsqrt :: "dbl \<Rightarrow> dbl" where
  "dsqrt (Fin a) = (if 0 \<le> a then rnd (sqrt a) else NaN)"
| "dsqrt PInf = PInf"
| "dsqrt x = NaN"

text \<open>The conversion \<open>double(flag)\<close> of a \<open>bool\<close>.\<close>

definition double_of_bool :: "bool \<Rightarrow> dbl" where
  "double_of_bool b = (if b then Fin 1 else Fin 0)"

text \<open>\<open>DBL_MAX\<close> of \<open>cfloat\<close>: the largest finite double.\<close>

definition DBL_MAX :: dbl where
  "DBL_MAX = Fin ((2 - 1 / 2 ^ 52) * 2 ^ 1023)"

section \<open>The generic astrophysical object\<close>

text \<open>
  \<open>state_t\<close> is a vector of doubles (the photon's 8 or 16 coordinates); the object's
  coordinates \<open>double const co[8]\<close> are an array of doubles.
\<close>

type_synonym state_t = "dbl list"

datatype coordkind = GYOTO_COORDKIND_SPHERICAL | GYOTO_COORDKIND_CARTESIAN | GYOTO_COORDKIND_UNSPECIFIED

text \<open>
  The metric is an external collaborator: its scalar product (position, two 4-vectors)
  and its coordinate kind are taken as given.
\<close>

record metric =
  ScalarProd :: "dbl list \<Rightarrow> dbl list \<Rightarrow> dbl list \<Rightarrow> dbl"
  coordKind :: coordkind

text \<open>The data members of \<open>Astrobj::Generic\<close>; \<open>gg\<close> is \<open>None\<close> for a null smart pointer.\<close>

record generic =
  defaultfeatures :: "32 word"
  gg :: "metric option"
  rmax :: dbl
  deltamaxinsidermax :: dbl
  flag_radtransf :: bool
  noredshift :: bool
  shadow :: bool

text \<open>The constructors \<open>Generic()\<close> and \<open>Generic(double radmax)\<close>.\<close>

definition Generic_ctor :: generic where
  "Generic_ctor = \<lparr> defaultfeatures = 0, gg = None, rmax = DBL_MAX,
     deltamaxinsidermax = Fin 1, flag_radtransf = False, noredshift = False, shadow = False \<rparr>"

definition Generic_ctor_radmax :: "dbl \<Rightarrow> generic" where
  "Generic_ctor_radmax radmax = \<lparr> defaultfeatures = 0, gg = None, rmax = radmax,
     deltamaxinsidermax = Fin 1, flag_radtransf = False, noredshift = False, shadow = False \<rparr>"

text \<open>The accessors that write a data member.\<close>

definition set_metric :: "metric option \<Rightarrow> generic \<Rightarrow> generic" where
  "set_metric m g = g\<lparr>gg := m\<rparr>"

definition set_rMax :: "dbl \<Rightarrow> generic \<Rightarrow> generic" where
  "set_rMax val g = g\<lparr>rmax := val\<rparr>"

definition set_deltaMaxInsideRMax :: "dbl \<Rightarrow> generic \<Rightarrow> generic" where
  "set_deltaMaxInsideRMax val g = g\<lparr>deltamaxinsidermax := val\<rparr>"

definition set_opticallyThin :: "bool \<Rightarrow> generic \<Rightarrow> generic" where
  "set_opticallyThin flag g = g\<lparr>flag_radtransf := flag\<rparr>"

definition opticallyThin :: "generic \<Rightarrow> bool" where
  "opticallyThin g = flag_radtransf g"

definition set_showshadow :: "bool \<Rightarrow> generic \<Rightarrow> generic" where
  "set_showshadow flag g = g\<lparr>shadow := flag\<rparr>"

definition set_redshift :: "bool \<Rightarrow> generic \<Rightarrow> generic" where
  "set_redshift flag g = g\<lparr>noredshift := \<not> flag\<rparr>"

definition redshift_enabled :: "generic \<Rightarrow> bool" where
  "redshift_enabled g = (\<not> noredshift g)"

subsection \<open>The capability bits\<close>

definition default_radiativeQ_polar :: "32 word" where "default_radiativeQ_polar = 1"
definition default_radiativeQ :: "32 word" where "default_radiativeQ = 2"
definition default_emission_vector :: "32 word" where "default_emission_vector = 4"

text \<open>\<open>__defaultfeatures & bit\<close> read as a condition, and \<open>__defaultfeatures |= bit\<close>.\<close>

definition has :: "generic \<Rightarrow> 32 word \<Rightarrow> bool" where
  "has g b = (defaultfeatures g AND b \<noteq> 0)"

definition set_feature :: "32 word \<Rightarrow> generic \<Rightarrow> generic" where
  "set_feature b g = g\<lparr>defaultfeatures := defaultfeatures g OR b\<rparr>"

subsection \<open>The five virtual primitives\<close>

text \<open>
  The eleven output arrays of the polarized \<open>radiativeQ\<close>.
\<close>

record polar_out =
  Inu :: "dbl list"
  Qnu :: "dbl list"
  Unu :: "dbl list"
  Vnu :: "dbl list"
  alphaInu :: "dbl list"
  alphaQnu :: "dbl list"
  alphaUnu :: "dbl list"
  alphaVnu :: "dbl list"
  rQnu :: "dbl list"
  rUnu :: "dbl list"
  rVnu :: "dbl list"

text \<open>
  A concrete object type may override any of the five virtual methods. The dynamic type
  of an object is modelled by the overrides it provides (\<open>None\<close>: the method of
  \<open>Generic\<close> runs). An overriding body is taken as a function of the method's
  arguments (frequencies, \<open>dsem\<close>, photon and object coordinates) that returns what
  it writes to its output arrays; it neither calls the primitives of \<open>Generic\<close> nor
  writes \<open>__defaultfeatures\<close>. The array arguments \<open>nuem, nbnu\<close> are one list, and an
  override is expected to fill its output arrays, one entry per frequency: an entry it
  leaves out is read as an unspecified value, as the uninitialised double is in C++.
\<close>

record astrobj_class =
  ov_transmission :: "(dbl \<Rightarrow> dbl \<Rightarrow> state_t \<Rightarrow> dbl list \<Rightarrow> dbl) option"
  ov_emission :: "(dbl \<Rightarrow> dbl \<Rightarrow> state_t \<Rightarrow> dbl list \<Rightarrow> dbl) option"
  ov_emission_vector :: "(dbl list \<Rightarrow> dbl \<Rightarrow> state_t \<Rightarrow> dbl list \<Rightarrow> dbl list) option"
  ov_radiativeQ :: "(dbl list \<Rightarrow> dbl \<Rightarrow> state_t \<Rightarrow> dbl list \<Rightarrow> dbl list \<times> dbl list) option"
  ov_radiativeQ_polar :: "(dbl list \<Rightarrow> dbl \<Rightarrow> state_t \<Rightarrow> dbl list \<Rightarrow> polar_out) option"

text \<open>
  A loop \<open>for (i=0; i<nbnu; ++i) out[i] = f(nuem[i], ...)\<close> whose body calls a
  primitive: the object's state is threaded through the calls.
\<close>

fun loop_st :: "('a \<Rightarrow> 's \<Rightarrow> ('b \<times> 's) option) \<Rightarrow> 'a list \<Rightarrow> 's \<Rightarrow> ('b list \<times> 's) option" where
  "loop_st f [] s = Some ([], s)"
| "loop_st f (x # xs) s =
     (case f x s of None \<Rightarrow> None
      | Some (y, s1) \<Rightarrow>
          (case loop_st f xs s1 of None \<Rightarrow> None
           | Some (ys, s2) \<Rightarrow> Some (y # ys, s2)))"

text \<open>
  The primitives call one another through virtual dispatch. The first argument is the
  number of nested calls still allowed: where it is exhausted the result is \<open>None\<close>, the
  call has not returned within the bound. Each function first dispatches on the override,
  then runs the body of \<open>Generic\<close>. The result is the value returned (or the output
  arrays written) and the object after the call.
\<close>

function (sequential) transmission :: "nat \<Rightarrow> astrobj_class \<Rightarrow> generic \<Rightarrow> dbl \<Rightarrow> dbl \<Rightarrow> state_t \<Rightarrow> dbl list
      \<Rightarrow> (dbl \<times> generic) option"
and emission :: "nat \<Rightarrow> astrobj_class \<Rightarrow> generic \<Rightarrow> dbl \<Rightarrow> dbl \<Rightarrow> state_t \<Rightarrow> dbl list
      \<Rightarrow> (dbl \<times> generic) option"
and emission_vector :: "nat \<Rightarrow> astrobj_class \<Rightarrow> generic \<Rightarrow> dbl list \<Rightarrow> dbl \<Rightarrow> state_t \<Rightarrow> dbl list
      \<Rightarrow> (dbl list \<times> generic) option"
and radiativeQ :: "nat \<Rightarrow> astrobj_class \<Rightarrow> generic \<Rightarrow> dbl list \<Rightarrow> dbl \<Rightarrow> state_t \<Rightarrow> dbl list
      \<Rightarrow> ((dbl list \<times> dbl list) \<times> generic) option"
and radiativeQ_polar :: "nat \<Rightarrow> astrobj_class \<Rightarrow> generic \<Rightarrow> dbl list \<Rightarrow> dbl \<Rightarrow> state_t \<Rightarrow> dbl list
      \<Rightarrow> (polar_out \<times> generic) option"
where
  "transmission 0 cls g nuem dsem cph co = None"
| "transmission (Suc n) cls g nuem dsem cph co =
     (case ov_transmission cls of
        Some f \<Rightarrow> Some (f nuem dsem cph co, g)
      | None \<Rightarrow>
          if \<not> has g default_radiativeQ \<or> \<not> has g default_radiativeQ_polar
          then (case radiativeQ n cls g [nuem] dsem cph co of None \<Rightarrow> None
                | Some ((I, Taunu), g1) \<Rightarrow> Some (hd Taunu, g1))
          else Some (double_of_bool (flag_radtransf g), g))"
| "emission 0 cls g nuem dsem cph co = None"
| "emission (Suc n) cls g nuem dsem cph co =
     (case ov_emission cls of
        Some f \<Rightarrow> Some (f nuem dsem cph co, g)
      | None \<Rightarrow>
          if \<not> has g default_emission_vector
          then (case emission_vector n cls g [nuem] dsem cph co of None \<Rightarrow> None
                | Some (I, g1) \<Rightarrow> Some (hd I, g1))
          else if \<not> has g default_radiativeQ \<or> \<not> has g default_radiativeQ_polar
          then (case radiativeQ n cls g [nuem] dsem cph co of None \<Rightarrow> None
                | Some ((I, Taunu), g1) \<Rightarrow> Some (hd I, g1))
          else if flag_radtransf g then Some (dsem, g) else Some (Fin 1, g))"
| "emission_vector 0 cls g nuem dsem cph co = None"
| "emission_vector (Suc n) cls g nuem dsem cph co =
     (case ov_emission_vector cls of
        Some f \<Rightarrow> Some (f nuem dsem cph co, g)
      | None \<Rightarrow>
          (let g0 = set_feature default_emission_vector g in
           if \<not> has g0 default_radiativeQ
           then (case radiativeQ n cls g0 nuem dsem cph co of None \<Rightarrow> None
                 | Some ((I, Taunu), g1) \<Rightarrow> Some (I, g1))
           else if \<not> has g0 default_radiativeQ_polar
           then (case radiativeQ_polar n cls g0 nuem dsem cph co of None \<Rightarrow> None
                 | Some (out, g1) \<Rightarrow> Some (Inu out, g1))
           else loop_st (\<lambda>nu s. emission n cls s nu dsem cph co) nuem g0))"
| "radiativeQ 0 cls g nuem dsem cph co = None"
| "radiativeQ (Suc n) cls g nuem dsem cph co =
     (case ov_radiativeQ cls of
        Some f \<Rightarrow> Some (f nuem dsem cph co, g)
      | None \<Rightarrow>
          (let g0 = set_feature default_radiativeQ g in
           if \<not> has g0 default_radiativeQ_polar
           then (case radiativeQ_polar n cls g0 nuem dsem cph co of None \<Rightarrow> None
                 | Some (out, g1) \<Rightarrow>
                     if \<not> has g1 default_radiativeQ_polar
                     then Some ((Inu out,
                                 map (\<lambda>i. dexp (- (alphaInu out ! i))) [0..<length nuem]), g1)
                     else (case loop_st (\<lambda>nu s. transmission n cls s nu dsem cph co) nuem g1 of
                             None \<Rightarrow> None
                           | Some (Taunu, g2) \<Rightarrow> Some ((Inu out, Taunu), g2)))
           else (case emission_vector n cls g0 nuem dsem cph co of None \<Rightarrow> None
                 | Some (I, g1) \<Rightarrow>
                     (case loop_st (\<lambda>nu s. transmission n cls s nu dsem cph co) nuem g1 of
                        None \<Rightarrow> None
                      | Some (Taunu, g2) \<Rightarrow> Some ((I, Taunu), g2)))))"
| "radiativeQ_polar 0 cls g nuem dsem cph co = None"
| "radiativeQ_polar (Suc n) cls g nuem dsem cph co =
     (case ov_radiativeQ_polar cls of
        Some f \<Rightarrow> Some (f nuem dsem cph co, g)
      | None \<Rightarrow>
          (let g0 = set_feature default_radiativeQ_polar g in
           case radiativeQ n cls g0 nuem dsem cph co of None \<Rightarrow> None
           | Some ((I, Taunu), g1) \<Rightarrow>
               Some (\<lparr> Inu = I,
                       Qnu = replicate (length nuem) (Fin 0),
                       Unu = replicate (length nuem) (Fin 0),
                       Vnu = replicate (length nuem) (Fin 0),
                       alphaInu = map (\<lambda>i. if Taunu ! i < rnd (1 / 10) then - PInf
                                           else - dlog (Taunu ! i)) [0..<length nuem],
                       alphaQnu = replicate (length nuem) (Fin 0),
                       alphaUnu = replicate (length nuem) (Fin 0),
                       alphaVnu = replicate (length nuem) (Fin 0),
                       rQnu = replicate (length nuem) (Fin 0),
                       rUnu = replicate (length nuem) (Fin 0),
                       rVnu = replicate (length nuem) (Fin 0) \<rparr>, g1)))"

  by pat_completeness auto

termination
  by (relation "measure (\<lambda>x. case x of
        Inl (Inl a) \<Rightarrow> fst a | Inl (Inr a) \<Rightarrow> fst a | Inr (Inl a) \<Rightarrow> fst a
      | Inr (Inr (Inl a)) \<Rightarrow> fst a | Inr (Inr (Inr a)) \<Rightarrow> fst a)") simp_all

subsection \<open>What the primitives resolve to\<close>

text \<open>
  The values that the fallback chain ends in, used to state what a call returns:
  \<open>transmission_leaf\<close> and \<open>emission_leaf\<close> are the scalar primitives once both
  \<open>radiativeQ\<close> bits (and the vector bit) are set; \<open>vector_leaf\<close>,
  \<open>unpolarized_leaf\<close> and \<open>polarized_leaf\<close> are the vector-level primitives called with
  the bits of the levels above them set, and \<open>after_vector\<close>, \<open>after_unpolarized\<close>,
  \<open>after_polarized\<close> the object after such a call.
\<close>

definition transmission_leaf :: "astrobj_class \<Rightarrow> bool \<Rightarrow> dbl \<Rightarrow> dbl \<Rightarrow> state_t \<Rightarrow> dbl list \<Rightarrow> dbl" where
  "transmission_leaf cls thin nuem dsem cph co =
     (case ov_transmission cls of Some f \<Rightarrow> f nuem dsem cph co
      | None \<Rightarrow> double_of_bool thin)"

definition emission_leaf :: "astrobj_class \<Rightarrow> bool \<Rightarrow> dbl \<Rightarrow> dbl \<Rightarrow> state_t \<Rightarrow> dbl list \<Rightarrow> dbl" where
  "emission_leaf cls thin nuem dsem cph co =
     (case ov_emission cls of Some f \<Rightarrow> f nuem dsem cph co
      | None \<Rightarrow> if thin then dsem else Fin 1)"

text \<open>What the vector emission resolves to.\<close>

definition vector_leaf :: "astrobj_class \<Rightarrow> bool \<Rightarrow> dbl list \<Rightarrow> dbl \<Rightarrow> state_t \<Rightarrow> dbl list \<Rightarrow> dbl list" where
  "vector_leaf cls thin nuem dsem cph co =
     (case ov_emission_vector cls of Some f \<Rightarrow> f nuem dsem cph co
      | None \<Rightarrow> map (\<lambda>nu. emission_leaf cls thin nu dsem cph co) nuem)"

definition after_vector :: "astrobj_class \<Rightarrow> generic \<Rightarrow> generic" where
  "after_vector cls g =
     (case ov_emission_vector cls of Some f \<Rightarrow> g
      | None \<Rightarrow> set_feature default_emission_vector g)"

definition unpolarized_leaf :: "astrobj_class \<Rightarrow> bool \<Rightarrow> dbl list \<Rightarrow> dbl \<Rightarrow> state_t \<Rightarrow> dbl list
    \<Rightarrow> dbl list \<times> dbl list" where
  "unpolarized_leaf cls thin nuem dsem cph co =
     (case ov_radiativeQ cls of Some f \<Rightarrow> f nuem dsem cph co
      | None \<Rightarrow> (vector_leaf cls thin nuem dsem cph co,
                 map (\<lambda>nu. transmission_leaf cls thin nu dsem cph co) nuem))"

definition after_unpolarized :: "astrobj_class \<Rightarrow> generic \<Rightarrow> generic" where
  "after_unpolarized cls g =
     (case ov_radiativeQ cls of Some f \<Rightarrow> g
      | None \<Rightarrow> after_vector cls (set_feature default_radiativeQ g))"

text \<open>The output arrays the polarized body of Generic writes from I and Taunu.\<close>

definition unpolarized_as_polar :: "nat \<Rightarrow> dbl list \<times> dbl list \<Rightarrow> polar_out" where
  "unpolarized_as_polar nbnu r =
     \<lparr> Inu = fst r,
       Qnu = replicate nbnu (Fin 0),
       Unu = replicate nbnu (Fin 0),
       Vnu = replicate nbnu (Fin 0),
       alphaInu = map (\<lambda>i. if snd r ! i < rnd (1 / 10) then - PInf else - dlog (snd r ! i)) [0..<nbnu],
       alphaQnu = replicate nbnu (Fin 0),
       alphaUnu = replicate nbnu (Fin 0),
       alphaVnu = replicate nbnu (Fin 0),
       rQnu = replicate nbnu (Fin 0),
       rUnu = replicate nbnu (Fin 0),
       rVnu = replicate nbnu (Fin 0) \<rparr>"

definition polarized_leaf :: "astrobj_class \<Rightarrow> bool \<Rightarrow> dbl list \<Rightarrow> dbl \<Rightarrow> state_t \<Rightarrow> dbl list
    \<Rightarrow> polar_out" where
  "polarized_leaf cls thin nuem dsem cph co =
     (case ov_radiativeQ_polar cls of Some f \<Rightarrow> f nuem dsem cph co
      | None \<Rightarrow> unpolarized_as_polar (length nuem) (unpolarized_leaf cls thin nuem dsem cph co))"

definition after_polarized :: "astrobj_class \<Rightarrow> generic \<Rightarrow> generic" where
  "after_polarized cls g =
     (case ov_radiativeQ_polar cls of Some f \<Rightarrow> g
      | None \<Rightarrow> after_unpolarized cls (set_feature default_radiativeQ_polar g))"

text \<open>Only \<open>__defaultfeatures\<close> changes, and no bit of it is cleared.\<close>

definition grows :: "generic \<Rightarrow> generic \<Rightarrow> bool" where
  "grows g g' = (g' = g\<lparr>defaultfeatures := defaultfeatures g'\<rparr> \<and>
                 defaultfeatures g OR defaultfeatures g' = defaultfeatures g')"

text \<open>
  A capability bit is set only for a primitive that the object type does not override;
  the values below are what each primitive returns for such an object, whatever its bits.
\<close>

definition consistent :: "astrobj_class \<Rightarrow> generic \<Rightarrow> bool" where
  "consistent cls g =
     ((has g default_radiativeQ_polar \<longrightarrow> ov_radiativeQ_polar cls = None) \<and>
      (has g default_radiativeQ \<longrightarrow> ov_radiativeQ cls = None) \<and>
      (has g default_emission_vector \<longrightarrow> ov_emission_vector cls = None))"

definition unpolarized_value :: "astrobj_class \<Rightarrow> bool \<Rightarrow> dbl list \<Rightarrow> dbl \<Rightarrow> state_t \<Rightarrow> dbl list
    \<Rightarrow> dbl list \<times> dbl list" where
  "unpolarized_value cls thin nuem dsem cph co =
     (case ov_radiativeQ cls of Some f \<Rightarrow> f nuem dsem cph co
      | None \<Rightarrow>
         (case ov_radiativeQ_polar cls of
            Some f \<Rightarrow> (Inu (f nuem dsem cph co),
                       map (\<lambda>i. dexp (- (alphaInu (f nuem dsem cph co) ! i))) [0..<length nuem])
          | None \<Rightarrow> (vector_leaf cls thin nuem dsem cph co,
                     map (\<lambda>nu. transmission_leaf cls thin nu dsem cph co) nuem)))"

definition vector_value :: "astrobj_class \<Rightarrow> bool \<Rightarrow> dbl list \<Rightarrow> dbl \<Rightarrow> state_t \<Rightarrow> dbl list \<Rightarrow> dbl list" where
  "vector_value cls thin nuem dsem cph co =
     (case ov_emission_vector cls of Some f \<Rightarrow> f nuem dsem cph co
      | None \<Rightarrow> fst (unpolarized_value cls thin nuem dsem cph co))"

definition emission_value :: "astrobj_class \<Rightarrow> bool \<Rightarrow> dbl \<Rightarrow> dbl \<Rightarrow> state_t \<Rightarrow> dbl list \<Rightarrow> dbl" where
  "emission_value cls thin nuem dsem cph co =
     (case ov_emission cls of Some f \<Rightarrow> f nuem dsem cph co
      | None \<Rightarrow> hd (vector_value cls thin [nuem] dsem cph co))"

definition transmission_value :: "astrobj_class \<Rightarrow> bool \<Rightarrow> dbl \<Rightarrow> dbl \<Rightarrow> state_t \<Rightarrow> dbl list \<Rightarrow> dbl" where
  "transmission_value cls thin nuem dsem cph co =
     (case ov_transmission cls of Some f \<Rightarrow> f nuem dsem cph co
      | None \<Rightarrow> hd (snd (unpolarized_value cls thin [nuem] dsem cph co)))"
subsection \<open>Kinds of object types\<close>

text \<open>An object type that overrides the scalar emission and nothing else.\<close>

definition only_scalar_emission :: "astrobj_class \<Rightarrow> bool" where
  "only_scalar_emission cls =
     (ov_emission cls \<noteq> None \<and> ov_transmission cls = None \<and> ov_emission_vector cls = None \<and>
      ov_radiativeQ cls = None \<and> ov_radiativeQ_polar cls = None)"

text \<open>An object type that overrides none of the five primitives.\<close>

definition overrides_nothing :: "astrobj_class \<Rightarrow> bool" where
  "overrides_nothing cls =
     (ov_emission cls = None \<and> ov_transmission cls = None \<and> ov_emission_vector cls = None \<and>
      ov_radiativeQ cls = None \<and> ov_radiativeQ_polar cls = None)"

text \<open>Two object types used as examples: a cloud whose emission coefficient is the
  frequency itself, and the bare \<open>Generic\<close>.\<close>

definition example_cloud :: astrobj_class where
  "example_cloud = \<lparr> ov_transmission = None, ov_emission = Some (\<lambda>nu dsem cph co. nu),
     ov_emission_vector = None, ov_radiativeQ = None, ov_radiativeQ_polar = None \<rparr>"

definition bare_generic :: astrobj_class where
  "bare_generic = \<lparr> ov_transmission = None, ov_emission = None,
     ov_emission_vector = None, ov_radiativeQ = None, ov_radiativeQ_polar = None \<rparr>"

section \<open>The band quadrature integrator\<close>

text \<open>
  The scalar \<open>integrateEmission\<close>. The inner loop
  \<open>for (nu = nu1 + 0.5*dnux2; nu < nu2; nu += dnux2) Icur += emission(nu, ...) * dnux2\<close>
  and the enclosing \<open>do ... while (fabs(Icur-Iprev) > 1e-2 * Icur)\<close> have no bound on
  the number of iterations in the source: both are partial functions, and \<open>None\<close>
  stands for a call that does not return. The first argument is the depth allowed to each
  call of \<open>emission\<close>.
\<close>

partial_function (option) integrateEmission_for ::
  "nat \<Rightarrow> astrobj_class \<Rightarrow> dbl \<Rightarrow> state_t \<Rightarrow> dbl list \<Rightarrow> dbl \<Rightarrow> dbl \<Rightarrow> dbl \<Rightarrow> dbl \<Rightarrow> generic
     \<Rightarrow> (dbl \<times> generic) option" where
  "integrateEmission_for fuel cls dsem cph co nu2 dnux2 nu Icur g =
     (if nu < nu2
      then Option.bind (emission fuel cls g nu dsem cph co)
             (\<lambda>r. integrateEmission_for fuel cls dsem cph co nu2 dnux2 (nu + dnux2)
                     (Icur + fst r * dnux2) (snd r))
      else Some (Icur, g))"

partial_function (option) integrateEmission_do ::
  "nat \<Rightarrow> astrobj_class \<Rightarrow> dbl \<Rightarrow> state_t \<Rightarrow> dbl list \<Rightarrow> dbl \<Rightarrow> dbl \<Rightarrow> dbl \<Rightarrow> dbl \<Rightarrow> generic
     \<Rightarrow> (dbl \<times> generic) option" where
  "integrateEmission_do fuel cls dsem cph co nu1 nu2 dnux2 Icur g =
     Option.bind
       (integrateEmission_for fuel cls dsem cph co nu2 (dnux2 * Fin (1 / 2))
          (nu1 + Fin (1 / 2) * (dnux2 * Fin (1 / 2))) Icur g)
       (\<lambda>r. if fabs (fst r * Fin (1 / 2) - Icur) > rnd (1 / 100) * (fst r * Fin (1 / 2))
             then integrateEmission_do fuel cls dsem cph co nu1 nu2 (dnux2 * Fin (1 / 2))
                    (fst r * Fin (1 / 2)) (snd r)
             else Some (fst r * Fin (1 / 2), snd r))"

definition integrateEmission ::
  "nat \<Rightarrow> astrobj_class \<Rightarrow> generic \<Rightarrow> dbl \<Rightarrow> dbl \<Rightarrow> dbl \<Rightarrow> state_t \<Rightarrow> dbl list
     \<Rightarrow> (dbl \<times> generic) option" where
  "integrateEmission fuel cls g nu1 nu2 dsem cph co =
     (let lo = (if nu1 > nu2 then nu2 else nu1);
          hi = (if nu1 > nu2 then nu1 else nu2)
      in Option.bind (emission fuel cls g lo dsem cph co) (\<lambda>(Inu1, g1).
         Option.bind (emission fuel cls g1 hi dsem cph co) (\<lambda>(Inu2, g2).
           let dnux2 = (hi - lo) * Fin 2;
               Icur = (Inu2 + Inu1) * dnux2 * Fin (1 / 4)
           in integrateEmission_do fuel cls dsem cph co lo hi dnux2 Icur g2)))"

text \<open>An object type whose emission coefficient is the constant \<open>c\<close>.\<close>

definition constant_emitter :: "dbl \<Rightarrow> astrobj_class" where
  "constant_emitter c = \<lparr> ov_transmission = None, ov_emission = Some (\<lambda>nu dsem cph co. c),
     ov_emission_vector = None, ov_radiativeQ = None, ov_radiativeQ_polar = None \<rparr>"

section \<open>Errors\<close>

text \<open>
  \<open>GYOTO_ERROR(msg)\<close> raises an exception carrying the message. Dereferencing a null
  pointer and reading outside an array are undefined behaviour in C++ (a null
  \<open>SmartPointer\<close> raises); the model reports them as errors too.
\<close>

datatype error = GyotoError string | NullPointer | OutOfBounds

section \<open>The step-size policy\<close>

definition rMax :: "generic \<Rightarrow> dbl" where
  "rMax g = rmax g"

definition deltaMax :: "generic \<Rightarrow> dbl list \<Rightarrow> error + dbl" where
  "deltaMax g coord =
     (case gg g of
        None \<Rightarrow> Inl (GyotoError ''Please set metric before calling Astrobj::Generic::deltaMax()'')
      | Some m \<Rightarrow>
          (case (case coordKind m of
                   GYOTO_COORDKIND_SPHERICAL \<Rightarrow>
                     if length coord \<le> 1 then Inl OutOfBounds else Inr (coord ! 1)
                 | GYOTO_COORDKIND_CARTESIAN \<Rightarrow>
                     if length coord \<le> 3 then Inl OutOfBounds
                     else Inr (dsqrt (coord ! 1 * coord ! 1 + coord ! 2 * coord ! 2
                                       + coord ! 3 * coord ! 3))
                 | GYOTO_COORDKIND_UNSPECIFIED \<Rightarrow>
                     Inl (GyotoError ''Incompatible coordinate kind in Astrobj.C''))
           of Inl e \<Rightarrow> Inl e
            | Inr rr \<Rightarrow> Inr (if rr < rMax g then deltamaxinsidermax g else rr * Fin (1 / 2))))"

text \<open>A flat metric in spherical coordinates, used as an example.\<close>

definition example_spherical_metric :: metric where
  "example_spherical_metric =
     \<lparr> ScalarProd = (\<lambda>pos u1 u2. - (u1 ! 0 * u2 ! 0) + u1 ! 1 * u2 ! 1),
       coordKind = GYOTO_COORDKIND_SPHERICAL \<rparr>"

text \<open>A flat metric in Cartesian coordinates, used as an example.\<close>

definition example_cartesian_metric :: metric where
  "example_cartesian_metric =
     \<lparr> ScalarProd = (\<lambda>pos u1 u2. - (u1 ! 0 * u2 ! 0) + u1 ! 1 * u2 ! 1 + u1 ! 2 * u2 ! 2
                        + u1 ! 3 * u2 ! 3),
       coordKind = GYOTO_COORDKIND_CARTESIAN \<rparr>"

section \<open>The output record\<close>

text \<open>
  The slots of \<open>Astrobj::Properties\<close> are pointers to doubles in the caller's buffers.
  A pointer is the index of a double in memory (\<open>None\<close>: the null pointer); pointer
  arithmetic counts doubles. The three converters exist when Gyoto is built with udunits;
  \<open>None\<close> stands for a null converter or a build without it.
\<close>

type_synonym addr = int
type_synonym memory = "addr \<Rightarrow> dbl"

record properties =
  intensity :: "addr option"
  time :: "addr option"
  distance :: "addr option"
  first_dmin :: "addr option"
  first_dmin_found :: bool
  redshift :: "addr option"
  nbcrosseqplane :: "addr option"
  spectrum :: "addr option"
  stokesQ :: "addr option"
  stokesU :: "addr option"
  stokesV :: "addr option"
  binspectrum :: "addr option"
  offset :: int
  impactcoords :: "addr option"
  user1 :: "addr option"
  user2 :: "addr option"
  user3 :: "addr option"
  user4 :: "addr option"
  user5 :: "addr option"
  intensity_converter :: "(dbl \<Rightarrow> dbl) option"
  spectrum_converter :: "(dbl \<Rightarrow> dbl) option"
  binspectrum_converter :: "(dbl \<Rightarrow> dbl) option"
  alloc :: bool

text \<open>The constructor \<open>Properties()\<close>.\<close>

definition Properties_ctor :: properties where
  "Properties_ctor =
     \<lparr> intensity = None, time = None, distance = None, first_dmin = None,
       first_dmin_found = False, redshift = None, nbcrosseqplane = None, spectrum = None,
       stokesQ = None, stokesU = None, stokesV = None, binspectrum = None, offset = 1,
       impactcoords = None, user1 = None, user2 = None, user3 = None, user4 = None,
       user5 = None, intensity_converter = None, spectrum_converter = None,
       binspectrum_converter = None, alloc = False \<rparr>"

text \<open>\<open>if (p) p += k\<close> on one slot.\<close>

definition advance :: "int \<Rightarrow> addr option \<Rightarrow> addr option" where
  "advance k p = (case p of None \<Rightarrow> None | Some a \<Rightarrow> Some (a + k))"

text \<open>\<open>Properties::operator+=(ptrdiff_t ofset)\<close> and \<open>Properties::operator++()\<close>.\<close>

definition operator_plus_eq :: "properties \<Rightarrow> int \<Rightarrow> properties" where
  "operator_plus_eq p ofset =
     p\<lparr> intensity := advance ofset (intensity p),
        time := advance ofset (time p),
        distance := advance ofset (distance p),
        first_dmin := advance ofset (first_dmin p),
        redshift := advance ofset (redshift p),
        nbcrosseqplane := advance ofset (nbcrosseqplane p),
        spectrum := advance ofset (spectrum p),
        stokesQ := advance ofset (stokesQ p),
        stokesU := advance ofset (stokesU p),
        stokesV := advance ofset (stokesV p),
        binspectrum := advance ofset (binspectrum p),
        impactcoords := advance (16 * ofset) (impactcoords p),
        user1 := advance ofset (user1 p),
        user2 := advance ofset (user2 p),
        user3 := advance ofset (user3 p),
        user4 := advance ofset (user4 p),
        user5 := advance ofset (user5 p) \<rparr>"

definition operator_incr :: "properties \<Rightarrow> properties" where
  "operator_incr p = operator_plus_eq p 1"

text \<open>Writes through a slot: \<open>if (p) *p = v\<close>, and
  \<open>if (p) for (ii = 0; ii < n; ++ii) p[ii*stride] = v\<close>.\<close>

definition store_opt :: "addr option \<Rightarrow> dbl \<Rightarrow> memory \<Rightarrow> memory" where
  "store_opt p v mem = (case p of None \<Rightarrow> mem | Some a \<Rightarrow> mem(a := v))"

definition fill_opt :: "addr option \<Rightarrow> nat \<Rightarrow> int \<Rightarrow> dbl \<Rightarrow> memory \<Rightarrow> memory" where
  "fill_opt p n stride v mem =
     (case p of None \<Rightarrow> mem
      | Some a \<Rightarrow> fold (\<lambda>ii m. m(a + int ii * stride := v)) [0..<n] mem)"

text \<open>\<open>Properties::init(size_t nbnuobs)\<close>.\<close>

definition init :: "properties \<Rightarrow> nat \<Rightarrow> memory \<Rightarrow> properties \<times> memory" where
  "init p nbnuobs mem =
     (let m1 = store_opt (intensity p) (Fin 0) mem;
          m2 = store_opt (time p) DBL_MAX m1;
          m3 = store_opt (distance p) DBL_MAX m2;
          m4 = store_opt (first_dmin p) DBL_MAX m3;
          p1 = (if first_dmin p \<noteq> None then p\<lparr>first_dmin_found := False\<rparr> else p);
          m5 = store_opt (redshift p) (Fin 0) m4;
          m6 = store_opt (nbcrosseqplane p) (Fin 0) m5;
          m7 = fill_opt (spectrum p) nbnuobs (offset p) (Fin 0) m6;
          m8 = fill_opt (stokesQ p) nbnuobs (offset p) (Fin 0) m7;
          m9 = fill_opt (stokesU p) nbnuobs (offset p) (Fin 0) m8;
          m10 = fill_opt (stokesV p) nbnuobs (offset p) (Fin 0) m9;
          m11 = fill_opt (binspectrum p) nbnuobs (offset p) (Fin 0) m10;
          m12 = fill_opt (impactcoords p) 16 1 DBL_MAX m11;
          m13 = store_opt (user1 p) (Fin 0) m12;
          m14 = store_opt (user2 p) (Fin 0) m13;
          m15 = store_opt (user3 p) (Fin 0) m14;
          m16 = store_opt (user4 p) (Fin 0) m15;
          m17 = store_opt (user5 p) (Fin 0) m16
      in (p1, m17))"

section \<open>The photon and the spectrometer\<close>

text \<open>
  The classes \<open>Photon\<close> and \<open>Spectrometer\<close> are collaborators whose code is not part of
  these sources. The spectrometer is its list of midpoints (\<open>nSamples\<close> of them), its
  channel boundaries and the pairs of boundary indices of the channels. The photon is
  modelled by what the accumulator reads from it (\<open>freqObs\<close>, \<open>spectrometer\<close>,
  \<open>parallelTransport\<close>) and by the list of the calls of \<open>transmit\<close> and \<open>transfer\<close> it has
  received, in order. The channel argument \<open>None\<close> is \<open>size_t(-1)\<close>, the transmission of
  the whole ray. How \<open>getTransmission\<close> answers from the calls received is a parameter.
\<close>

datatype photon_call = Transmit "nat option" dbl | Transfer polar_out

record spectrometer =
  midpoints :: "dbl list"
  channelBoundaries :: "dbl list"
  channelIndices :: "nat list"

definition nSamples :: "spectrometer \<Rightarrow> nat" where
  "nSamples s = length (midpoints s)"

definition getNBoundaries :: "spectrometer \<Rightarrow> nat" where
  "getNBoundaries s = length (channelBoundaries s)"

record photon =
  freqObs :: dbl
  spectro :: "spectrometer option"
  parallelTransport :: bool
  transmission_of :: "photon_call list \<Rightarrow> nat option \<Rightarrow> dbl"
  calls :: "photon_call list"

definition getTransmission :: "photon \<Rightarrow> nat option \<Rightarrow> dbl" where
  "getTransmission p i = transmission_of p (calls p) i"

definition transmit :: "nat option \<Rightarrow> dbl \<Rightarrow> photon \<Rightarrow> photon" where
  "transmit i t p = p\<lparr>calls := calls p @ [Transmit i t]\<rparr>"

definition transfer :: "polar_out \<Rightarrow> photon \<Rightarrow> photon" where
  "transfer out p = p\<lparr>calls := calls p @ [Transfer out]\<rparr>"

section \<open>The hit-quantity accumulator\<close>

text \<open>
  What \<open>processHitQuantities\<close> changes: the photon, the caller's buffers and the
  capability bits of the object. A call returns \<open>None\<close> when it does not return,
  \<open>Some (Inl e)\<close> when it raises \<open>e\<close>, \<open>Some (Inr s)\<close> when it returns normally.
\<close>

record hit_state =
  hs_photon :: photon
  hs_memory :: memory
  hs_object :: generic

type_synonym 'a res = "(error + 'a) option"

definition ok :: "'a \<Rightarrow> 'a res" where
  "ok x = Some (Inr x)"

definition fail :: "error \<Rightarrow> 'a res" where
  "fail e = Some (Inl e)"

definition rbind :: "'a res \<Rightarrow> ('a \<Rightarrow> 'b res) \<Rightarrow> 'b res" where
  "rbind m f = (case m of None \<Rightarrow> None | Some (Inl e) \<Rightarrow> Some (Inl e) | Some (Inr x) \<Rightarrow> f x)"

definition lift :: "'a option \<Rightarrow> 'a res" where
  "lift m = (case m of None \<Rightarrow> None | Some x \<Rightarrow> Some (Inr x))"

text \<open>\<open>p[k] += inc\<close> and \<open>memcpy(dst, src, n * sizeof(double))\<close>.\<close>

definition add_at :: "addr \<Rightarrow> dbl \<Rightarrow> memory \<Rightarrow> memory" where
  "add_at a inc m = m(a := m a + inc)"

definition memcpy :: "addr \<Rightarrow> dbl list \<Rightarrow> nat \<Rightarrow> memory \<Rightarrow> memory" where
  "memcpy dst src n m = fold (\<lambda>i m'. m'(dst + int i := src ! i)) [0..<n] m"

definition convert_with :: "(dbl \<Rightarrow> dbl) option \<Rightarrow> dbl \<Rightarrow> dbl" where
  "convert_with conv inc = (case conv of None \<Rightarrow> inc | Some f \<Rightarrow> f inc)"

text \<open>
  The vector \<open>integrateEmission\<close> of \<open>Generic\<close>:
  \<open>I[i] = integrateEmission(boundaries[chaninds[2*i]], boundaries[chaninds[2*i+1]], ...)\<close>,
  with the scalar integrator of \<open>Generic\<close>.
\<close>

fun integrateEmission_channels ::
  "nat \<Rightarrow> astrobj_class \<Rightarrow> dbl list \<Rightarrow> nat list \<Rightarrow> dbl \<Rightarrow> state_t \<Rightarrow> dbl list \<Rightarrow> nat list
     \<Rightarrow> generic \<Rightarrow> (dbl list \<times> generic) res" where
  "integrateEmission_channels fuel cls boundaries chaninds dsem cph co [] g = ok ([], g)"
| "integrateEmission_channels fuel cls boundaries chaninds dsem cph co (i # is) g =
     (if length chaninds \<le> 2 * i + 1 \<or> length boundaries \<le> chaninds ! (2 * i)
         \<or> length boundaries \<le> chaninds ! (2 * i + 1)
      then fail OutOfBounds
      else rbind (lift (integrateEmission fuel cls g (boundaries ! (chaninds ! (2 * i)))
                          (boundaries ! (chaninds ! (2 * i + 1))) dsem cph co))
             (\<lambda>(v, g1).
                rbind (integrateEmission_channels fuel cls boundaries chaninds dsem cph co is g1)
                  (\<lambda>(vs, g2). ok (v # vs, g2))))"

definition integrateEmission_vector ::
  "nat \<Rightarrow> astrobj_class \<Rightarrow> generic \<Rightarrow> dbl list \<Rightarrow> nat list \<Rightarrow> nat \<Rightarrow> dbl \<Rightarrow> state_t \<Rightarrow> dbl list
     \<Rightarrow> (dbl list \<times> generic) res" where
  "integrateEmission_vector fuel cls g boundaries chaninds nbnu dsem cph co =
     integrateEmission_channels fuel cls boundaries chaninds dsem cph co [0..<nbnu] g"

text \<open>The redshift factor \<open>ggredm1\<close> and the proper length \<open>dsem\<close> of a hit.\<close>

definition hit_ggredm1 :: "generic \<Rightarrow> metric \<Rightarrow> state_t \<Rightarrow> dbl list \<Rightarrow> dbl" where
  "hit_ggredm1 g m coord_ph_hit coord_obj_hit =
     (if noredshift g then Fin 1
      else - ScalarProd m (take 4 coord_ph_hit) (take 4 (drop 4 coord_obj_hit))
               (take 4 (drop 4 coord_ph_hit)))"

definition hit_dsem :: "generic \<Rightarrow> metric \<Rightarrow> state_t \<Rightarrow> dbl list \<Rightarrow> dbl \<Rightarrow> dbl" where
  "hit_dsem g m coord_ph_hit coord_obj_hit dt =
     dt / coord_ph_hit ! 4 * hit_ggredm1 g m coord_ph_hit coord_obj_hit"

text \<open>The blocks of \<open>processHitQuantities\<close>, in the order of the source.\<close>

definition phq_redshift_time :: "properties \<Rightarrow> dbl \<Rightarrow> state_t \<Rightarrow> hit_state \<Rightarrow> hit_state" where
  "phq_redshift_time d ggred coord_ph_hit s =
     s\<lparr>hs_memory := store_opt (time d) (coord_ph_hit ! 0)
                      (store_opt (redshift d) ggred (hs_memory s))\<rparr>"

definition phq_impactcoords :: "properties \<Rightarrow> state_t \<Rightarrow> dbl list \<Rightarrow> hit_state \<Rightarrow> hit_state res" where
  "phq_impactcoords d coord_ph_hit coord_obj_hit s =
     (case impactcoords d of
        None \<Rightarrow> ok s
      | Some a \<Rightarrow>
          if hs_memory s a = DBL_MAX
          then if length coord_ph_hit > 8
               then fail (GyotoError ''ImpactCoords is incompatible with parallel transport'')
               else ok (s\<lparr>hs_memory := memcpy (a + 8) coord_ph_hit 8
                                           (memcpy a coord_obj_hit 8 (hs_memory s))\<rparr>)
          else ok s)"

definition phq_intensity ::
  "nat \<Rightarrow> astrobj_class \<Rightarrow> properties \<Rightarrow> dbl \<Rightarrow> dbl \<Rightarrow> dbl \<Rightarrow> state_t \<Rightarrow> dbl list \<Rightarrow> hit_state
     \<Rightarrow> hit_state res" where
  "phq_intensity fuel cls d ggredm1 ggred dsem coord_ph_hit coord_obj_hit s =
     (case intensity d of
        None \<Rightarrow> ok s
      | Some a \<Rightarrow>
          rbind (lift (emission fuel cls (hs_object s) (freqObs (hs_photon s) * ggredm1) dsem
                         coord_ph_hit coord_obj_hit))
            (\<lambda>(e, g1).
               let inc = convert_with (intensity_converter d)
                           (e * getTransmission (hs_photon s) None * ggred * ggred * ggred)
               in ok (s\<lparr>hs_memory := add_at a inc (hs_memory s), hs_object := g1\<rparr>)))"

fun phq_binspectrum_loop ::
  "nat \<Rightarrow> astrobj_class \<Rightarrow> properties \<Rightarrow> addr \<Rightarrow> dbl list \<Rightarrow> dbl list \<Rightarrow> dbl \<Rightarrow> dbl \<Rightarrow> dbl
     \<Rightarrow> state_t \<Rightarrow> dbl list \<Rightarrow> nat list \<Rightarrow> hit_state \<Rightarrow> hit_state res" where
  "phq_binspectrum_loop fuel cls d a I nuobs ggredm1 ggred dsem cph co [] s = ok s"
| "phq_binspectrum_loop fuel cls d a I nuobs ggredm1 ggred dsem cph co (ii # is) s =
     (let inc = convert_with (binspectrum_converter d)
                  (I ! ii * getTransmission (hs_photon s) (Some ii) * ggred * ggred * ggred * ggred);
          s1 = s\<lparr>hs_memory := add_at (a + int ii * offset d) inc (hs_memory s)\<rparr>
      in if spectrum d = None
         then rbind (lift (transmission fuel cls (hs_object s1) (nuobs ! ii * ggredm1) dsem cph co))
                (\<lambda>(t, g1).
                   phq_binspectrum_loop fuel cls d a I nuobs ggredm1 ggred dsem cph co is
                     (s1\<lparr>hs_photon := transmit (Some ii) t (hs_photon s1), hs_object := g1\<rparr>))
         else phq_binspectrum_loop fuel cls d a I nuobs ggredm1 ggred dsem cph co is s1)"

definition phq_binspectrum ::
  "nat \<Rightarrow> astrobj_class \<Rightarrow> properties \<Rightarrow> dbl \<Rightarrow> dbl \<Rightarrow> dbl \<Rightarrow> state_t \<Rightarrow> dbl list \<Rightarrow> hit_state
     \<Rightarrow> hit_state res" where
  "phq_binspectrum fuel cls d ggredm1 ggred dsem coord_ph_hit coord_obj_hit s =
     (case binspectrum d of
        None \<Rightarrow> ok s
      | Some a \<Rightarrow>
          (case spectro (hs_photon s) of
             None \<Rightarrow> fail NullPointer
           | Some spr \<Rightarrow>
               (let boundaries = map (\<lambda>c. c * ggredm1) (channelBoundaries spr)
                in rbind (integrateEmission_vector fuel cls (hs_object s) boundaries
                            (channelIndices spr) (nSamples spr) dsem coord_ph_hit coord_obj_hit)
                     (\<lambda>(I, g1).
                        phq_binspectrum_loop fuel cls d a I (midpoints spr) ggredm1 ggred dsem
                          coord_ph_hit coord_obj_hit [0..<nSamples spr]
                          (s\<lparr>hs_object := g1\<rparr>)))))"

text \<open>The loops over the channels after the polarized and the unpolarized \<open>radiativeQ\<close>.\<close>

definition phq_polarized_write :: "properties \<Rightarrow> polar_out \<Rightarrow> dbl \<Rightarrow> nat \<Rightarrow> memory \<Rightarrow> memory" where
  "phq_polarized_write d out ggred3 ii m =
     (let m1 = (case spectrum d of None \<Rightarrow> m
                | Some a \<Rightarrow> add_at (a + int ii * offset d)
                              (convert_with (spectrum_converter d) (Inu out ! ii * ggred3)) m);
          m2 = (case stokesQ d of None \<Rightarrow> m1
                | Some a \<Rightarrow> add_at (a + int ii * offset d)
                              (convert_with (spectrum_converter d) (Qnu out ! ii * ggred3)) m1);
          m3 = (case stokesU d of None \<Rightarrow> m2
                | Some a \<Rightarrow> add_at (a + int ii * offset d)
                              (convert_with (spectrum_converter d) (Unu out ! ii * ggred3)) m2)
      in (case stokesV d of None \<Rightarrow> m3
          | Some a \<Rightarrow> add_at (a + int ii * offset d)
                        (convert_with (spectrum_converter d) (Vnu out ! ii * ggred3)) m3))"

definition phq_unpolarized_step ::
  "properties \<Rightarrow> addr \<Rightarrow> dbl list \<Rightarrow> dbl list \<Rightarrow> dbl \<Rightarrow> nat \<Rightarrow> hit_state \<Rightarrow> hit_state" where
  "phq_unpolarized_step d a I Taunu ggred ii s =
     (let inc = convert_with (spectrum_converter d)
                  (I ! ii * getTransmission (hs_photon s) (Some ii) * ggred * ggred * ggred)
      in s\<lparr>hs_memory := add_at (a + int ii * offset d) inc (hs_memory s),
           hs_photon := transmit (Some ii) (Taunu ! ii) (hs_photon s)\<rparr>)"

definition phq_spectrum ::
  "nat \<Rightarrow> astrobj_class \<Rightarrow> properties \<Rightarrow> dbl \<Rightarrow> dbl \<Rightarrow> dbl \<Rightarrow> state_t \<Rightarrow> dbl list \<Rightarrow> hit_state
     \<Rightarrow> hit_state res" where
  "phq_spectrum fuel cls d ggredm1 ggred dsem coord_ph_hit coord_obj_hit s =
     (if spectrum d \<noteq> None \<or> stokesQ d \<noteq> None \<or> stokesU d \<noteq> None \<or> stokesV d \<noteq> None
      then
        (let nuobs = (case spectro (hs_photon s) of None \<Rightarrow> [] | Some spr \<Rightarrow> midpoints spr);
             nbnuobs = length nuobs;
             nuem = map (\<lambda>nu. nu * ggredm1) nuobs
         in if parallelTransport (hs_photon s)
            then rbind (lift (radiativeQ_polar fuel cls (hs_object s) nuem dsem
                                coord_ph_hit coord_obj_hit))
                   (\<lambda>(out, g1).
                      ok (s\<lparr>hs_photon := transfer out (hs_photon s),
                            hs_memory := fold (phq_polarized_write d out (ggred * ggred * ggred))
                                           [0..<nbnuobs] (hs_memory s),
                            hs_object := g1\<rparr>))
            else rbind (lift (radiativeQ fuel cls (hs_object s) nuem dsem
                                coord_ph_hit coord_obj_hit))
                   (\<lambda>((I, Taunu), g1).
                      if nbnuobs = 0 then ok (s\<lparr>hs_object := g1\<rparr>)
                      else (case spectrum d of
                              None \<Rightarrow> fail NullPointer
                            | Some a \<Rightarrow>
                                ok (fold (phq_unpolarized_step d a I Taunu ggred) [0..<nbnuobs]
                                      (s\<lparr>hs_object := g1\<rparr>)))))
      else ok s)"

definition phq_transmit ::
  "nat \<Rightarrow> astrobj_class \<Rightarrow> dbl \<Rightarrow> dbl \<Rightarrow> state_t \<Rightarrow> dbl list \<Rightarrow> hit_state \<Rightarrow> hit_state res" where
  "phq_transmit fuel cls ggredm1 dsem coord_ph_hit coord_obj_hit s =
     rbind (lift (transmission fuel cls (hs_object s) (freqObs (hs_photon s) * ggredm1) dsem
                    coord_ph_hit coord_obj_hit))
       (\<lambda>(t, g1). ok (s\<lparr>hs_photon := transmit None t (hs_photon s), hs_object := g1\<rparr>))"

text \<open>
  \<open>Generic::processHitQuantities(ph, coord_ph_hit, coord_obj_hit, dt, data)\<close>; \<open>data\<close> is
  \<open>None\<close> for a null pointer. The first argument is the depth allowed to each call of a
  primitive.
\<close>

definition processHitQuantities ::
  "nat \<Rightarrow> astrobj_class \<Rightarrow> generic \<Rightarrow> photon \<Rightarrow> state_t \<Rightarrow> dbl list \<Rightarrow> dbl \<Rightarrow> properties option
     \<Rightarrow> memory \<Rightarrow> hit_state res" where
  "processHitQuantities fuel cls g p coord_ph_hit coord_obj_hit dt data m =
     (if length coord_ph_hit < 8 \<or> length coord_obj_hit < 8 then fail OutOfBounds
      else case gg g of
        None \<Rightarrow> fail NullPointer
      | Some metr \<Rightarrow>
          (let ggredm1 = hit_ggredm1 g metr coord_ph_hit coord_obj_hit;
               ggred = Fin 1 / ggredm1;
               dsem = hit_dsem g metr coord_ph_hit coord_obj_hit dt;
               s = \<lparr> hs_photon = p, hs_memory = m, hs_object = g \<rparr>
           in case data of
                None \<Rightarrow> ok s
              | Some d \<Rightarrow>
                  rbind (phq_impactcoords d coord_ph_hit coord_obj_hit
                           (phq_redshift_time d ggred coord_ph_hit s)) (\<lambda>s1.
                  rbind (phq_intensity fuel cls d ggredm1 ggred dsem coord_ph_hit coord_obj_hit s1) (\<lambda>s2.
                  rbind (phq_binspectrum fuel cls d ggredm1 ggred dsem coord_ph_hit coord_obj_hit s2) (\<lambda>s3.
                  rbind (phq_spectrum fuel cls d ggredm1 ggred dsem coord_ph_hit coord_obj_hit s3) (\<lambda>s4.
                  phq_transmit fuel cls ggredm1 dsem coord_ph_hit coord_obj_hit s4))))))"

text \<open>The photon \<open>p'\<close> is \<open>p\<close> after some more calls of \<open>transmit\<close> and \<open>transfer\<close>.\<close>

definition photon_extends :: "photon \<Rightarrow> photon \<Rightarrow> bool" where
  "photon_extends p p' = (p' = p\<lparr>calls := calls p'\<rparr> \<and> prefix (calls p) (calls p'))"

text \<open>An example hit: a photon without spectrometer, an optically thick bare \<open>Generic\<close> in
  the example metric, and the same 8 coordinates for the photon and the object.\<close>

definition example_photon :: photon where
  "example_photon = \<lparr> freqObs = Fin 1, spectro = None, parallelTransport = False,
     transmission_of = (\<lambda>cs i. Fin 1), calls = [] \<rparr>"

definition example_object :: generic where
  "example_object = set_metric (Some example_spherical_metric) Generic_ctor"

definition example_coord :: "dbl list" where
  "example_coord = [Fin 0, Fin 5, Fin 0, Fin 0, Fin 1, Fin 0, Fin 0, Fin 0]"

section \<open>Closed forms of the five primitives\<close>

declare transmission.simps [simp del] emission.simps [simp del] emission_vector.simps [simp del]
  radiativeQ.simps [simp del] radiativeQ_polar.simps [simp del]

lemma has_iff_bit:
  "has g default_radiativeQ_polar = bit (defaultfeatures g) 0"
  "has g default_radiativeQ = bit (defaultfeatures g) 1"
  "has g default_emission_vector = bit (defaultfeatures g) 2"
  using and_exp_eq_0_iff_not_bit [of "defaultfeatures g" 0]
        and_exp_eq_0_iff_not_bit [of "defaultfeatures g" 1]
        and_exp_eq_0_iff_not_bit [of "defaultfeatures g" 2]
  by (simp_all add: has_def default_radiativeQ_polar_def default_radiativeQ_def
        default_emission_vector_def)

lemma bit_set_feature:
  "bit (defaultfeatures (set_feature default_radiativeQ_polar g)) n = (bit (defaultfeatures g) n \<or> n = 0)"
  "bit (defaultfeatures (set_feature default_radiativeQ g)) n = (bit (defaultfeatures g) n \<or> n = 1)"
  "bit (defaultfeatures (set_feature default_emission_vector g)) n = (bit (defaultfeatures g) n \<or> n = 2)"
  using bit_exp_iff [where ?'a = "32 word", of 0 n] bit_exp_iff [where ?'a = "32 word", of 1 n]
     bit_exp_iff [where ?'a = "32 word", of 2 n]
  by (auto simp add: set_feature_def default_radiativeQ_polar_def default_radiativeQ_def
        default_emission_vector_def bit_or_iff bit_1_iff)

lemma set_feature_fields [simp]:
  "flag_radtransf (set_feature b g) = flag_radtransf g"
  "gg (set_feature b g) = gg g"
  "rmax (set_feature b g) = rmax g"
  "deltamaxinsidermax (set_feature b g) = deltamaxinsidermax g"
  "noredshift (set_feature b g) = noredshift g"
  "shadow (set_feature b g) = shadow g"
  by (simp_all add: set_feature_def)

lemma loop_st_stable:
  "(\<And>x. x \<in> set xs \<Longrightarrow> f x s = Some (h x, s)) \<Longrightarrow> loop_st f xs s = Some (map h xs, s)"
  by (induction xs) simp_all

lemma transmission_stable:
  "bit (defaultfeatures g) 0 \<Longrightarrow> bit (defaultfeatures g) 1 \<Longrightarrow>
   transmission (Suc n) cls g nuem dsem cph co
     = Some (transmission_leaf cls (flag_radtransf g) nuem dsem cph co, g)"
  by (simp add: transmission.simps has_iff_bit transmission_leaf_def split: option.split)

lemma emission_stable:
  "bit (defaultfeatures g) 0 \<Longrightarrow> bit (defaultfeatures g) 1 \<Longrightarrow> bit (defaultfeatures g) 2 \<Longrightarrow>
   emission (Suc n) cls g nuem dsem cph co
     = Some (emission_leaf cls (flag_radtransf g) nuem dsem cph co, g)"
  by (simp add: emission.simps has_iff_bit emission_leaf_def split: option.split)

lemma loop_transmission_stable:
  "bit (defaultfeatures g) 0 \<Longrightarrow> bit (defaultfeatures g) 1 \<Longrightarrow>
   loop_st (\<lambda>nu s. transmission (Suc n) cls s nu dsem cph co) xs g
     = Some (map (\<lambda>nu. transmission_leaf cls (flag_radtransf g) nu dsem cph co) xs, g)"
  by (rule loop_st_stable) (rule transmission_stable)

lemma loop_emission_stable:
  "bit (defaultfeatures g) 0 \<Longrightarrow> bit (defaultfeatures g) 1 \<Longrightarrow> bit (defaultfeatures g) 2 \<Longrightarrow>
   loop_st (\<lambda>nu s. emission (Suc n) cls s nu dsem cph co) xs g
     = Some (map (\<lambda>nu. emission_leaf cls (flag_radtransf g) nu dsem cph co) xs, g)"
  by (rule loop_st_stable) (rule emission_stable)

lemma emission_vector_resolved:
  "bit (defaultfeatures g) 0 \<Longrightarrow> bit (defaultfeatures g) 1 \<Longrightarrow>
   emission_vector (Suc (Suc n)) cls g nuem dsem cph co
     = Some (vector_leaf cls (flag_radtransf g) nuem dsem cph co, after_vector cls g)"
  by (simp add: emission_vector.simps has_iff_bit bit_set_feature loop_emission_stable
        vector_leaf_def after_vector_def split: option.split)

lemma bit_after_vector: "bit (defaultfeatures g) n \<Longrightarrow> bit (defaultfeatures (after_vector cls g)) n"
  by (simp add: after_vector_def bit_set_feature split: option.split)

lemma after_vector_fields [simp]:
  "flag_radtransf (after_vector cls g) = flag_radtransf g"
  by (simp add: after_vector_def split: option.split)

lemma radiativeQ_resolved:
  "bit (defaultfeatures g) 0 \<Longrightarrow>
   radiativeQ (Suc (Suc (Suc n))) cls g nuem dsem cph co
     = Some (unpolarized_leaf cls (flag_radtransf g) nuem dsem cph co, after_unpolarized cls g)"
  by (simp add: radiativeQ.simps has_iff_bit bit_set_feature emission_vector_resolved
        loop_transmission_stable bit_after_vector
        unpolarized_leaf_def after_unpolarized_def split: option.split)

lemma radiativeQ_polar_resolved:
  "radiativeQ_polar (Suc (Suc (Suc (Suc n)))) cls g nuem dsem cph co
     = Some (polarized_leaf cls (flag_radtransf g) nuem dsem cph co, after_polarized cls g)"
  by (simp add: radiativeQ_polar.simps bit_set_feature radiativeQ_resolved
        polarized_leaf_def after_polarized_def unpolarized_as_polar_def split: option.split prod.split)

lemma grows_refl [simp]: "grows g g"
  by (simp add: grows_def)

lemma grows_trans: "grows a b \<Longrightarrow> grows b c \<Longrightarrow> grows a c"
  unfolding grows_def
  by (metis (no_types, lifting) generic.update_convs(1) or.assoc generic.surjective)

lemma grows_set_feature [simp]: "grows g (set_feature b g)"
  by (simp add: grows_def set_feature_def or.assoc [symmetric])

lemma grows_bit: "grows g g' \<Longrightarrow> bit (defaultfeatures g) n \<Longrightarrow> bit (defaultfeatures g') n"
  unfolding grows_def by (metis bit_or_iff)

lemma grows_flag: "grows g g' \<Longrightarrow> flag_radtransf g' = flag_radtransf g"
  unfolding grows_def by (metis generic.select_convs(5) generic.surjective generic.update_convs(1))

lemmas after_defs = after_vector_def after_unpolarized_def after_polarized_def

lemma grows_set_feature2 [simp]: "grows g g' \<Longrightarrow> grows g (set_feature b g')"
  by (erule grows_trans) simp

lemma grows_set_feature3: "grows (set_feature b g) g' \<Longrightarrow> grows g g'"
  by (rule grows_trans [OF grows_set_feature])

lemma grows_after [simp]:
  "grows g (after_vector cls g)" "grows g (after_unpolarized cls g)" "grows g (after_polarized cls g)"
  by (simp_all add: after_defs split: option.split)

lemma consistent_after:
  assumes "consistent cls g"
  shows "consistent cls (after_vector cls g)" "consistent cls (after_unpolarized cls g)"
    "consistent cls (after_polarized cls g)"
  using assms
  by (auto simp add: consistent_def after_defs has_iff_bit bit_set_feature split: option.split)

lemma radiativeQ_general:
  assumes "consistent cls g"
  shows "\<exists>g'. radiativeQ (Suc (Suc (Suc (Suc (Suc n))))) cls g nuem dsem cph co
             = Some (unpolarized_value cls (flag_radtransf g) nuem dsem cph co, g')
           \<and> grows g g' \<and> consistent cls g' \<and> (ov_radiativeQ cls = None \<longrightarrow> bit (defaultfeatures g') 1)"
proof (cases "bit (defaultfeatures g) 0")
  case True
  with assms have np: "ov_radiativeQ_polar cls = None"
    by (simp add: consistent_def has_iff_bit)
  have "bit (defaultfeatures (after_unpolarized cls g)) 1" if "ov_radiativeQ cls = None"
    using that by (simp add: after_defs bit_set_feature split: option.split)
  with True np assms show ?thesis
    by (simp add: radiativeQ_resolved unpolarized_value_def unpolarized_leaf_def consistent_after
          split: option.split)
next
  case False
  show ?thesis
  proof (cases "ov_radiativeQ cls")
    case (Some f)
    with assms show ?thesis
      by (simp add: radiativeQ.simps unpolarized_value_def consistent_def has_iff_bit)
  next
    case None
    let ?g0 = "set_feature default_radiativeQ g"
    have c0: "consistent cls ?g0"
      using assms None by (simp add: consistent_def has_iff_bit bit_set_feature)
    show ?thesis
    proof (cases "ov_radiativeQ_polar cls")
      case (Some f)
      with None False c0 show ?thesis
        by (simp add: radiativeQ.simps radiativeQ_polar_resolved has_iff_bit bit_set_feature
              after_defs polarized_leaf_def unpolarized_value_def)
    next
      case np: None
      let ?g1 = "after_polarized cls ?g0"
      have b: "bit (defaultfeatures ?g1) 0" "bit (defaultfeatures ?g1) 1"
        using np None by (simp_all add: after_defs bit_set_feature split: option.split)
      have c1: "consistent cls ?g1" using c0 by (rule consistent_after)
      have g1: "grows g ?g1" by (rule grows_trans [OF grows_set_feature grows_after(3)])
      have fl: "flag_radtransf ?g1 = flag_radtransf g" using g1 by (rule grows_flag)
      from None np False b c1 g1 fl show ?thesis
        by (simp add: radiativeQ.simps radiativeQ_polar_resolved has_iff_bit bit_set_feature
              loop_transmission_stable polarized_leaf_def unpolarized_value_def
              unpolarized_leaf_def unpolarized_as_polar_def)
    qed
  qed
qed

lemma emission_vector_general:
  assumes "consistent cls g"
  shows "\<exists>g'. emission_vector (Suc (Suc (Suc (Suc (Suc (Suc n)))))) cls g nuem dsem cph co
             = Some (vector_value cls (flag_radtransf g) nuem dsem cph co, g')
           \<and> grows g g' \<and> consistent cls g'
           \<and> (ov_emission_vector cls = None \<longrightarrow> bit (defaultfeatures g') 2)"
proof (cases "ov_emission_vector cls")
  case (Some f)
  with assms show ?thesis
    by (simp add: emission_vector.simps vector_value_def consistent_def has_iff_bit)
next
  case None
  let ?g0 = "set_feature default_emission_vector g"
  have c0: "consistent cls ?g0"
    using assms None by (simp add: consistent_def has_iff_bit bit_set_feature)
  have b2: "bit (defaultfeatures ?g0) 2" by (simp add: bit_set_feature)
  show ?thesis
  proof (cases "bit (defaultfeatures g) 1")
    case False
    from radiativeQ_general [OF c0, of n nuem dsem cph co]
    obtain g' where r: "radiativeQ (Suc (Suc (Suc (Suc (Suc n))))) cls ?g0 nuem dsem cph co
        = Some (unpolarized_value cls (flag_radtransf g) nuem dsem cph co, g')"
      and g: "grows ?g0 g'" and c: "consistent cls g'"
      by auto
    from g b2 have "bit (defaultfeatures g') 2" by (rule grows_bit)
    moreover from g have "grows g g'" by (rule grows_set_feature3)
    ultimately show ?thesis using None False r c
      by (simp add: emission_vector.simps has_iff_bit bit_set_feature vector_value_def
            split: prod.split)
  next
    case b1: True
    with assms have nr: "ov_radiativeQ cls = None"
      by (simp add: consistent_def has_iff_bit)
    show ?thesis
    proof (cases "bit (defaultfeatures g) 0")
      case False
      let ?g1 = "after_polarized cls ?g0"
      have "consistent cls ?g1" using c0 by (rule consistent_after)
      moreover have g1: "grows ?g0 ?g1" by simp
      moreover from g1 b2 have "bit (defaultfeatures ?g1) 2" by (rule grows_bit)
      moreover from g1 have "grows g ?g1" by (rule grows_set_feature3)
      ultimately show ?thesis using None b1 nr False
        by (simp add: emission_vector.simps has_iff_bit bit_set_feature vector_value_def
              radiativeQ_polar_resolved polarized_leaf_def unpolarized_value_def
              unpolarized_as_polar_def unpolarized_leaf_def split: option.split)
    next
      case True
      with assms have np: "ov_radiativeQ_polar cls = None"
        by (simp add: consistent_def has_iff_bit)
      from None b1 nr True np c0 b2 show ?thesis
        by (simp add: emission_vector.simps has_iff_bit bit_set_feature vector_value_def
              loop_emission_stable unpolarized_value_def vector_leaf_def)
    qed
  qed
qed

lemma emission_general:
  assumes "consistent cls g"
  shows "\<exists>g'. emission (Suc (Suc (Suc (Suc (Suc (Suc (Suc n))))))) cls g nuem dsem cph co
             = Some (emission_value cls (flag_radtransf g) nuem dsem cph co, g')
           \<and> grows g g' \<and> consistent cls g'"
proof (cases "ov_emission cls")
  case (Some f)
  with assms show ?thesis
    by (simp add: emission.simps emission_value_def)
next
  case None
  show ?thesis
  proof (cases "bit (defaultfeatures g) 2")
    case False
    from emission_vector_general [OF assms, of n "[nuem]" dsem cph co]
    obtain g' where "emission_vector (Suc (Suc (Suc (Suc (Suc (Suc n)))))) cls g [nuem] dsem cph co
             = Some (vector_value cls (flag_radtransf g) [nuem] dsem cph co, g')"
      "grows g g'" "consistent cls g'"
      by auto
    with None False show ?thesis
      by (simp add: emission.simps has_iff_bit emission_value_def)
  next
    case b2: True
    with assms have nv: "ov_emission_vector cls = None"
      by (simp add: consistent_def has_iff_bit)
    show ?thesis
    proof (cases "bit (defaultfeatures g) 0 \<and> bit (defaultfeatures g) 1")
      case True
      with assms have "ov_radiativeQ_polar cls = None" "ov_radiativeQ cls = None"
        by (simp_all add: consistent_def has_iff_bit)
      with None b2 nv True assms show ?thesis
        by (simp add: emission.simps has_iff_bit emission_value_def vector_value_def
            unpolarized_value_def vector_leaf_def emission_leaf_def)
    next
      case False
      from radiativeQ_general [OF assms, of "Suc n" "[nuem]" dsem cph co]
      obtain g' where "radiativeQ (Suc (Suc (Suc (Suc (Suc (Suc n)))))) cls g [nuem] dsem cph co
        = Some (unpolarized_value cls (flag_radtransf g) [nuem] dsem cph co, g')"
        "grows g g'" "consistent cls g'"
        by auto
      with None b2 nv False show ?thesis
        by (auto simp add: emission.simps has_iff_bit emission_value_def vector_value_def
              split: prod.split)
    qed
  qed
qed

lemma transmission_general:
  assumes "consistent cls g"
  shows "\<exists>g'. transmission (Suc (Suc (Suc (Suc (Suc (Suc n)))))) cls g nuem dsem cph co
             = Some (transmission_value cls (flag_radtransf g) nuem dsem cph co, g')
           \<and> grows g g' \<and> consistent cls g'"
proof (cases "ov_transmission cls")
  case (Some f)
  with assms show ?thesis
    by (simp add: transmission.simps transmission_value_def)
next
  case None
  show ?thesis
  proof (cases "bit (defaultfeatures g) 0 \<and> bit (defaultfeatures g) 1")
    case True
    with assms have "ov_radiativeQ_polar cls = None" "ov_radiativeQ cls = None"
      by (simp_all add: consistent_def has_iff_bit)
    with None True assms show ?thesis
      by (simp add: transmission.simps has_iff_bit transmission_value_def
            unpolarized_value_def transmission_leaf_def)
  next
    case False
    from radiativeQ_general [OF assms, of n "[nuem]" dsem cph co]
    obtain g' where "radiativeQ (Suc (Suc (Suc (Suc (Suc n))))) cls g [nuem] dsem cph co
        = Some (unpolarized_value cls (flag_radtransf g) [nuem] dsem cph co, g')"
        "grows g g'" "consistent cls g'"
      by auto
    with None False show ?thesis
      by (auto simp add: transmission.simps has_iff_bit transmission_value_def split: prod.split)
  qed
qed

lemma radiativeQ_polar_general:
  assumes "consistent cls g"
  shows "\<exists>g'. radiativeQ_polar (Suc (Suc (Suc (Suc n)))) cls g nuem dsem cph co
             = Some (polarized_leaf cls (flag_radtransf g) nuem dsem cph co, g')
           \<and> grows g g' \<and> consistent cls g'"
  using assms by (simp add: radiativeQ_polar_resolved consistent_after)

section \<open>The fallback chain of the dispatcher\<close>

lemma fuel_ge4: "4 \<le> fuel \<Longrightarrow> \<exists>n. fuel = Suc (Suc (Suc (Suc n)))"
  by (intro exI [of _ "fuel - 4"]) simp

lemma fuel_ge7: "7 \<le> fuel \<Longrightarrow> \<exists>n. fuel = Suc (Suc (Suc (Suc (Suc (Suc (Suc n))))))"
  by (intro exI [of _ "fuel - 7"]) simp

lemma bits_after_polarized:
  assumes "ov_radiativeQ_polar cls = None" "ov_radiativeQ cls = None" "ov_emission_vector cls = None"
  shows "has (after_polarized cls g) default_radiativeQ_polar"
    "has (after_polarized cls g) default_radiativeQ"
    "has (after_polarized cls g) default_emission_vector"
  using assms by (simp_all add: after_defs has_iff_bit bit_set_feature)

text \<open>
  C1. For an object type that overrides only the scalar emission, a call of the polarized
  \<open>radiativeQ\<close> returns, whatever the capability bits and the arguments are, as soon as
  four nested calls are allowed (polarized, unpolarized, vector emission, scalar emission):
  each body of \<open>Generic\<close> sets its bit before it delegates, and the three bits are set
  when the call returns.
\<close>

theorem polarized_radiativeQ_terminates:
  assumes "only_scalar_emission cls" and "4 \<le> fuel"
  shows "\<exists>out g'. radiativeQ_polar fuel cls g nuem dsem cph co = Some (out, g') \<and>
           has g' default_radiativeQ_polar \<and> has g' default_radiativeQ \<and>
           has g' default_emission_vector"
proof -
  from assms(2) obtain n where n: "fuel = Suc (Suc (Suc (Suc n)))"
    using fuel_ge4 by blast
  from assms(1) have "ov_radiativeQ_polar cls = None" "ov_radiativeQ cls = None"
    "ov_emission_vector cls = None"
    by (simp_all add: only_scalar_emission_def)
  then show ?thesis
    unfolding n by (simp add: radiativeQ_polar_resolved bits_after_polarized)
qed

theorem polarized_radiativeQ_terminates_witness:
  "only_scalar_emission example_cloud \<and> (4::nat) \<le> 4 \<and>
   (\<exists>out g'. radiativeQ_polar 4 example_cloud Generic_ctor [Fin 1, Fin 2] (Fin 3) [] [] = Some (out, g') \<and>
      has g' default_radiativeQ_polar \<and> has g' default_radiativeQ \<and>
      has g' default_emission_vector)"
proof -
  have h: "only_scalar_emission example_cloud"
    by (simp add: only_scalar_emission_def example_cloud_def)
  show ?thesis
    using h polarized_radiativeQ_terminates [OF h, of 4 Generic_ctor "[Fin 1, Fin 2]" "Fin 3" "[]" "[]"]
    by simp
qed

text \<open>
  C2. For an object type that overrides only the scalar emission, the polarized
  \<open>radiativeQ\<close> returns, for every frequency index \<open>i\<close>, \<open>Qnu[i] = Unu[i] = Vnu[i] = 0\<close>
  and \<open>Inu[i]\<close> equal to the overridden \<open>emission(nuem[i], dsem, coord_ph, coord_obj)\<close>.
\<close>

theorem polarized_radiativeQ_scalar_only:
  assumes "only_scalar_emission cls" and "ov_emission cls = Some f" and "4 \<le> fuel"
  shows "\<exists>out g'. radiativeQ_polar fuel cls g nuem dsem cph co = Some (out, g') \<and>
           (\<forall>i < length nuem.
              Qnu out ! i = Fin 0 \<and> Unu out ! i = Fin 0 \<and> Vnu out ! i = Fin 0 \<and>
              Inu out ! i = f (nuem ! i) dsem cph co)"
proof -
  from assms(3) obtain n where n: "fuel = Suc (Suc (Suc (Suc n)))"
    using fuel_ge4 by blast
  from assms(1) have "ov_radiativeQ_polar cls = None" "ov_radiativeQ cls = None"
    "ov_emission_vector cls = None"
    by (simp_all add: only_scalar_emission_def)
  with assms(2) show ?thesis
    unfolding n
    by (simp add: radiativeQ_polar_resolved polarized_leaf_def unpolarized_as_polar_def
          unpolarized_leaf_def vector_leaf_def emission_leaf_def)
qed

theorem polarized_radiativeQ_scalar_only_witness:
  "only_scalar_emission example_cloud \<and>
   ov_emission example_cloud = Some (\<lambda>nu dsem cph co. nu) \<and> (4::nat) \<le> 4 \<and>
   (\<exists>out g'. radiativeQ_polar 4 example_cloud Generic_ctor [Fin 1, Fin 2] (Fin 3) [] [] = Some (out, g') \<and>
      (\<forall>i < length [Fin 1, Fin 2].
              Qnu out ! i = Fin 0 \<and> Unu out ! i = Fin 0 \<and> Vnu out ! i = Fin 0 \<and>
              Inu out ! i = [Fin 1, Fin 2] ! i))"
proof -
  have h: "only_scalar_emission example_cloud"
    by (simp add: only_scalar_emission_def example_cloud_def)
  have e: "ov_emission example_cloud = Some (\<lambda>nu dsem cph co. nu)"
    by (simp add: example_cloud_def)
  show ?thesis
    using h e polarized_radiativeQ_scalar_only [OF h e, of 4 Generic_ctor "[Fin 1, Fin 2]" "Fin 3" "[]" "[]"]
    by simp
qed

lemma consistent_overrides_nothing: "overrides_nothing cls \<Longrightarrow> consistent cls g"
  by (simp add: overrides_nothing_def consistent_def)

text \<open>
  C3. For an object type that overrides no primitive, the scalar emission returns
  \<open>dsem\<close> when the object is optically thin and 1 when it is not, and the scalar
  transmission returns 1 when the object is optically thin and 0 when it is not.
\<close>

theorem default_emission_transmission:
  assumes "overrides_nothing cls" and "7 \<le> fuel"
  shows "(\<exists>g'. emission fuel cls g nuem dsem cph co
                 = Some (if opticallyThin g then dsem else Fin 1, g')) \<and>
         (\<exists>g'. transmission fuel cls g nuem dsem cph co
                 = Some (if opticallyThin g then Fin 1 else Fin 0, g'))"
proof -
  from assms(2) obtain n where n: "fuel = Suc (Suc (Suc (Suc (Suc (Suc (Suc n))))))"
    using fuel_ge7 by blast
  have c: "consistent cls g" using assms(1) by (rule consistent_overrides_nothing)
  have e: "emission_value cls (flag_radtransf g) nuem dsem cph co
      = (if opticallyThin g then dsem else Fin 1)"
    using assms(1)
    by (simp add: overrides_nothing_def emission_value_def vector_value_def unpolarized_value_def
          vector_leaf_def emission_leaf_def opticallyThin_def)
  have t: "transmission_value cls (flag_radtransf g) nuem dsem cph co
      = (if opticallyThin g then Fin 1 else Fin 0)"
    using assms(1)
    by (simp add: overrides_nothing_def transmission_value_def unpolarized_value_def
          transmission_leaf_def double_of_bool_def opticallyThin_def)
  from emission_general [OF c, of n nuem dsem cph co] e
  have "\<exists>g'. emission fuel cls g nuem dsem cph co = Some (if opticallyThin g then dsem else Fin 1, g')"
    unfolding n by auto
  moreover from transmission_general [OF c, of "Suc n" nuem dsem cph co] t
  have "\<exists>g'. transmission fuel cls g nuem dsem cph co
      = Some (if opticallyThin g then Fin 1 else Fin 0, g')"
    unfolding n by auto
  ultimately show ?thesis by blast
qed

theorem default_emission_transmission_witness:
  "overrides_nothing bare_generic \<and> (7::nat) \<le> 7 \<and>
   (\<exists>g'. emission 7 bare_generic (set_opticallyThin True Generic_ctor) (Fin 1) (Fin 2) [] []
            = Some (Fin 2, g')) \<and>
   (\<exists>g'. transmission 7 bare_generic (set_opticallyThin True Generic_ctor) (Fin 1) (Fin 2) [] []
            = Some (Fin 1, g')) \<and>
   (\<exists>g'. emission 7 bare_generic Generic_ctor (Fin 1) (Fin 2) [] [] = Some (Fin 1, g')) \<and>
   (\<exists>g'. transmission 7 bare_generic Generic_ctor (Fin 1) (Fin 2) [] [] = Some (Fin 0, g'))"
proof -
  have h: "overrides_nothing bare_generic"
    by (simp add: overrides_nothing_def bare_generic_def)
  have a: "opticallyThin (set_opticallyThin True Generic_ctor)" "\<not> opticallyThin Generic_ctor"
    by (simp_all add: opticallyThin_def set_opticallyThin_def Generic_ctor_def)
  show ?thesis
    using h a
      default_emission_transmission [OF h, of 7 "set_opticallyThin True Generic_ctor" "Fin 1" "Fin 2" "[]" "[]"]
      default_emission_transmission [OF h, of 7 Generic_ctor "Fin 1" "Fin 2" "[]" "[]"]
    by simp
qed

lemma loop_st_grows:
  assumes "\<And>x s y s'. f x s = Some (y, s') \<Longrightarrow> grows s s'"
  shows "loop_st f xs s = Some (ys, s') \<Longrightarrow> grows s s'"
proof (induction xs arbitrary: s ys)
  case Nil
  then show ?case by simp
next
  case (Cons x xs)
  from Cons.prems obtain y s1 zs where 1: "f x s = Some (y, s1)" and 2: "loop_st f xs s1 = Some (zs, s')"
    by (auto split: option.splits)
  from 1 have "grows s s1" by (rule assms)
  moreover from 2 have "grows s1 s'" by (rule Cons.IH)
  ultimately show ?case by (rule grows_trans)
qed

lemma primitives_grow:
  "(\<forall>g nu dsem cph co r g'. transmission n cls g nu dsem cph co = Some (r, g') \<longrightarrow> grows g g') \<and>
   (\<forall>g nu dsem cph co r g'. emission n cls g nu dsem cph co = Some (r, g') \<longrightarrow> grows g g') \<and>
   (\<forall>g nuem dsem cph co r g'. emission_vector n cls g nuem dsem cph co = Some (r, g') \<longrightarrow> grows g g') \<and>
   (\<forall>g nuem dsem cph co r g'. radiativeQ n cls g nuem dsem cph co = Some (r, g') \<longrightarrow> grows g g') \<and>
   (\<forall>g nuem dsem cph co r g'. radiativeQ_polar n cls g nuem dsem cph co = Some (r, g') \<longrightarrow> grows g g')"
proof (induction n)
  case 0
  show ?case
    by (simp add: transmission.simps emission.simps emission_vector.simps
          radiativeQ.simps radiativeQ_polar.simps)
next
  case (Suc n)
  then have T: "\<And>g nu dsem cph co r g'. transmission n cls g nu dsem cph co = Some (r, g') \<Longrightarrow> grows g g'"
    and E: "\<And>g nu dsem cph co r g'. emission n cls g nu dsem cph co = Some (r, g') \<Longrightarrow> grows g g'"
    and V: "\<And>g nuem dsem cph co r g'. emission_vector n cls g nuem dsem cph co = Some (r, g') \<Longrightarrow> grows g g'"
    and R: "\<And>g nuem dsem cph co r g'. radiativeQ n cls g nuem dsem cph co = Some (r, g') \<Longrightarrow> grows g g'"
    and P: "\<And>g nuem dsem cph co r g'. radiativeQ_polar n cls g nuem dsem cph co = Some (r, g') \<Longrightarrow> grows g g'"
    by (fast, fast, fast, fast, fast)
  have LT: "\<And>xs s ys s' dsem cph co.
      loop_st (\<lambda>nu s. transmission n cls s nu dsem cph co) xs s = Some (ys, s') \<Longrightarrow> grows s s'"
    by (erule loop_st_grows [rotated]) (erule T)
  have LE: "\<And>xs s ys s' dsem cph co.
      loop_st (\<lambda>nu s. emission n cls s nu dsem cph co) xs s = Some (ys, s') \<Longrightarrow> grows s s'"
    by (erule loop_st_grows [rotated]) (erule E)
  have 1: "grows g g'" if "transmission (Suc n) cls g nu dsem cph co = Some (r, g')"
    for g nu dsem cph co r g'
    using that by (auto simp add: transmission.simps split: option.splits if_splits dest: R)
  have 2: "grows g g'" if "emission (Suc n) cls g nu dsem cph co = Some (r, g')"
    for g nu dsem cph co r g'
    using that by (auto simp add: emission.simps split: option.splits if_splits dest: R V)
  have 3: "grows g g'" if "emission_vector (Suc n) cls g nuem dsem cph co = Some (r, g')"
    for g nuem dsem cph co r g'
    using that
    by (auto simp add: emission_vector.simps Let_def split: option.splits if_splits
          dest: R [THEN grows_set_feature3] P [THEN grows_set_feature3] LE [THEN grows_set_feature3])
  have 4: "grows g g'" if "radiativeQ (Suc n) cls g nuem dsem cph co = Some (r, g')"
    for g nuem dsem cph co r g'
    using that
    by (auto simp add: radiativeQ.simps Let_def split: option.splits if_splits)
       (blast intro: grows_trans grows_set_feature3 dest: P V LT)+
  have 5: "grows g g'" if "radiativeQ_polar (Suc n) cls g nuem dsem cph co = Some (r, g')"
    for g nuem dsem cph co r g'
    using that
    by (auto simp add: radiativeQ_polar.simps Let_def split: option.splits
          dest: R [THEN grows_set_feature3])
  show ?case
    using 1 2 3 4 5 by blast
qed

lemma transmission_grows:
  "transmission n cls g nu dsem cph co = Some (r, g') \<Longrightarrow> grows g g'"
  by (rule primitives_grow [THEN conjunct1, rule_format])

lemma emission_grows:
  "emission n cls g nu dsem cph co = Some (r, g') \<Longrightarrow> grows g g'"
  by (rule primitives_grow [THEN conjunct2, THEN conjunct1, rule_format])

lemma emission_vector_grows:
  "emission_vector n cls g nuem dsem cph co = Some (r, g') \<Longrightarrow> grows g g'"
  by (rule primitives_grow [THEN conjunct2, THEN conjunct2, THEN conjunct1, rule_format])

lemma radiativeQ_grows:
  "radiativeQ n cls g nuem dsem cph co = Some (r, g') \<Longrightarrow> grows g g'"
  by (rule primitives_grow [THEN conjunct2, THEN conjunct2, THEN conjunct2, THEN conjunct1,
        rule_format])

lemma radiativeQ_polar_grows:
  "radiativeQ_polar n cls g nuem dsem cph co = Some (r, g') \<Longrightarrow> grows g g'"
  by (rule primitives_grow [THEN conjunct2, THEN conjunct2, THEN conjunct2, THEN conjunct2,
        rule_format])

text \<open>
  C8. The capability bits only grow: a call of any of the five primitives that returns
  leaves every other data member as it was and clears no bit of \<open>__defaultfeatures\<close>
  (the bodies of \<open>Generic\<close> write it by bitwise-or only); a constructed object starts
  with no bit set and the accessors do not touch the bits.
\<close>

theorem defaultfeatures_only_grows:
  "(transmission fuel cls g nu dsem cph co = Some (r1, g1) \<longrightarrow> grows g g1) \<and>
   (emission fuel cls g nu dsem cph co = Some (r2, g2) \<longrightarrow> grows g g2) \<and>
   (emission_vector fuel cls g nuem dsem cph co = Some (r3, g3) \<longrightarrow> grows g g3) \<and>
   (radiativeQ fuel cls g nuem dsem cph co = Some (r4, g4) \<longrightarrow> grows g g4) \<and>
   (radiativeQ_polar fuel cls g nuem dsem cph co = Some (r5, g5) \<longrightarrow> grows g g5) \<and>
   defaultfeatures Generic_ctor = 0 \<and>
   defaultfeatures (Generic_ctor_radmax radmax) = 0 \<and>
   defaultfeatures (set_metric m g) = defaultfeatures g \<and>
   defaultfeatures (set_rMax val g) = defaultfeatures g \<and>
   defaultfeatures (set_deltaMaxInsideRMax val g) = defaultfeatures g \<and>
   defaultfeatures (set_opticallyThin flag g) = defaultfeatures g \<and>
   defaultfeatures (set_showshadow flag g) = defaultfeatures g \<and>
   defaultfeatures (set_redshift flag g) = defaultfeatures g"
  using transmission_grows [of fuel cls g nu dsem cph co r1 g1]
    emission_grows [of fuel cls g nu dsem cph co r2 g2]
    emission_vector_grows [of fuel cls g nuem dsem cph co r3 g3]
    radiativeQ_grows [of fuel cls g nuem dsem cph co r4 g4]
    radiativeQ_polar_grows [of fuel cls g nuem dsem cph co r5 g5]
  by (simp add: Generic_ctor_def Generic_ctor_radmax_def set_metric_def set_rMax_def
        set_deltaMaxInsideRMax_def set_opticallyThin_def set_showshadow_def set_redshift_def)

theorem defaultfeatures_only_grows_witness:
  "transmission 4 example_cloud (Generic_ctor\<lparr>defaultfeatures := 3\<rparr>) (Fin 1) (Fin 2) [] []
     = Some (Fin 0, Generic_ctor\<lparr>defaultfeatures := 3\<rparr>) \<and>
   grows (Generic_ctor\<lparr>defaultfeatures := 3\<rparr>) (Generic_ctor\<lparr>defaultfeatures := 3\<rparr>) \<and>
   emission 4 example_cloud (Generic_ctor\<lparr>defaultfeatures := 3\<rparr>) (Fin 1) (Fin 2) [] []
     = Some (Fin 1, Generic_ctor\<lparr>defaultfeatures := 3\<rparr>) \<and>
   emission_vector 4 example_cloud (Generic_ctor\<lparr>defaultfeatures := 3\<rparr>) [Fin 1] (Fin 2) [] []
     = Some ([Fin 1], Generic_ctor\<lparr>defaultfeatures := 7\<rparr>) \<and>
   grows (Generic_ctor\<lparr>defaultfeatures := 3\<rparr>) (Generic_ctor\<lparr>defaultfeatures := 7\<rparr>) \<and>
   radiativeQ 4 example_cloud (Generic_ctor\<lparr>defaultfeatures := 3\<rparr>) [Fin 1] (Fin 2) [] []
     = Some (([Fin 1], [Fin 0]), Generic_ctor\<lparr>defaultfeatures := 7\<rparr>) \<and>
   radiativeQ_polar 4 example_cloud (Generic_ctor\<lparr>defaultfeatures := 3\<rparr>) [Fin 1] (Fin 2) [] []
     = Some (unpolarized_as_polar 1 ([Fin 1], [Fin 0]), Generic_ctor\<lparr>defaultfeatures := 7\<rparr>)"
proof -
  let ?g = "Generic_ctor\<lparr>defaultfeatures := 3\<rparr>"
  let ?g' = "Generic_ctor\<lparr>defaultfeatures := 7\<rparr>"
  have b: "bit (defaultfeatures ?g) 0" "bit (defaultfeatures ?g) 1"
    by (simp_all add: bit_numeral_simps)
  have f: "\<not> flag_radtransf ?g" by (simp add: Generic_ctor_def)
  have s: "set_feature default_emission_vector (set_feature default_radiativeQ ?g) = ?g'"
    "set_feature default_emission_vector ?g = ?g'"
    "set_feature default_emission_vector (set_feature default_radiativeQ
       (set_feature default_radiativeQ_polar ?g)) = ?g'"
    by (simp_all add: set_feature_def default_emission_vector_def default_radiativeQ_def
          default_radiativeQ_polar_def)
  have 4: "(4::nat) = Suc (Suc (Suc (Suc 0)))" by simp
  have 1: "transmission 4 example_cloud ?g (Fin 1) (Fin 2) [] [] = Some (Fin 0, ?g)"
    unfolding 4 using b f
    by (simp add: transmission_stable transmission_leaf_def example_cloud_def double_of_bool_def)
  have 2: "emission 4 example_cloud ?g (Fin 1) (Fin 2) [] [] = Some (Fin 1, ?g)"
    unfolding 4 by (simp add: emission.simps example_cloud_def)
  have 3: "emission_vector 4 example_cloud ?g [Fin 1] (Fin 2) [] [] = Some ([Fin 1], ?g')"
    unfolding 4 using b f s
    by (simp add: emission_vector_resolved vector_leaf_def emission_leaf_def after_defs
          example_cloud_def)
  have 5: "radiativeQ 4 example_cloud ?g [Fin 1] (Fin 2) [] [] = Some (([Fin 1], [Fin 0]), ?g')"
    unfolding 4 using b f s
    by (simp add: radiativeQ_resolved unpolarized_leaf_def vector_leaf_def emission_leaf_def
          transmission_leaf_def double_of_bool_def after_defs example_cloud_def)
  have 6: "radiativeQ_polar 4 example_cloud ?g [Fin 1] (Fin 2) [] []
      = Some (unpolarized_as_polar 1 ([Fin 1], [Fin 0]), ?g')"
    unfolding 4 using b f s
    by (simp add: radiativeQ_polar_resolved polarized_leaf_def unpolarized_leaf_def
          vector_leaf_def emission_leaf_def
          transmission_leaf_def double_of_bool_def after_defs example_cloud_def)
  from 1 2 3 5 6
    defaultfeatures_only_grows [of 4 example_cloud ?g "Fin 1" "Fin 2" "[]" "[]" "Fin 0" ?g
      "Fin 1" ?g "[Fin 1]" "[Fin 1]" ?g' "([Fin 1], [Fin 0])" ?g'
      "unpolarized_as_polar 1 ([Fin 1], [Fin 0])" ?g']
  show ?thesis by simp
qed

lemma consistent_Generic_ctor: "consistent cls Generic_ctor"
  by (simp add: consistent_def has_def Generic_ctor_def)

text \<open>
  C9. The capability bits of an object are those that its own calls have set: a bit is set
  only for a primitive that the object's type does not override (\<open>consistent\<close>; it holds
  for a constructed object and every primitive keeps it). For such an object, whatever
  its type overrides (in particular when it overrides exactly one primitive), a second
  call of a primitive with the same arguments returns the same value as the first: the
  calls change nothing but the capability bits, and the bits do not change the answer.
\<close>

theorem repeated_calls_identical:
  assumes "consistent cls g" and "7 \<le> fuel"
  shows "(\<exists>r g1 g2. transmission fuel cls g nu dsem cph co = Some (r, g1) \<and>
            transmission fuel cls g1 nu dsem cph co = Some (r, g2) \<and>
            grows g g1 \<and> grows g1 g2 \<and> consistent cls g1) \<and>
         (\<exists>r g1 g2. emission fuel cls g nu dsem cph co = Some (r, g1) \<and>
            emission fuel cls g1 nu dsem cph co = Some (r, g2) \<and>
            grows g g1 \<and> grows g1 g2 \<and> consistent cls g1) \<and>
         (\<exists>r g1 g2. emission_vector fuel cls g nuem dsem cph co = Some (r, g1) \<and>
            emission_vector fuel cls g1 nuem dsem cph co = Some (r, g2) \<and>
            grows g g1 \<and> grows g1 g2 \<and> consistent cls g1) \<and>
         (\<exists>r g1 g2. radiativeQ fuel cls g nuem dsem cph co = Some (r, g1) \<and>
            radiativeQ fuel cls g1 nuem dsem cph co = Some (r, g2) \<and>
            grows g g1 \<and> grows g1 g2 \<and> consistent cls g1) \<and>
         (\<exists>r g1 g2. radiativeQ_polar fuel cls g nuem dsem cph co = Some (r, g1) \<and>
            radiativeQ_polar fuel cls g1 nuem dsem cph co = Some (r, g2) \<and>
            grows g g1 \<and> grows g1 g2 \<and> consistent cls g1)"
proof -
  from assms(2) obtain n where n: "fuel = Suc (Suc (Suc (Suc (Suc (Suc (Suc n))))))"
    using fuel_ge7 by blast
  have T: "\<exists>r g1 g2. transmission fuel cls g nu dsem cph co = Some (r, g1) \<and>
            transmission fuel cls g1 nu dsem cph co = Some (r, g2) \<and>
            grows g g1 \<and> grows g1 g2 \<and> consistent cls g1"
  proof -
    from transmission_general [OF assms(1), of "Suc n" nu dsem cph co]
    obtain g1 where 1: "transmission fuel cls g nu dsem cph co
          = Some (transmission_value cls (flag_radtransf g) nu dsem cph co, g1)"
      and g1: "grows g g1" and c1: "consistent cls g1"
      unfolding n by blast
    from transmission_general [OF c1, of "Suc n" nu dsem cph co]
    obtain g2 where 2: "transmission fuel cls g1 nu dsem cph co
          = Some (transmission_value cls (flag_radtransf g1) nu dsem cph co, g2)"
      and g2: "grows g1 g2"
      unfolding n by blast
    from 1 2 g1 g2 c1 grows_flag [OF g1] show ?thesis by auto
  qed
  have E: "\<exists>r g1 g2. emission fuel cls g nu dsem cph co = Some (r, g1) \<and>
            emission fuel cls g1 nu dsem cph co = Some (r, g2) \<and>
            grows g g1 \<and> grows g1 g2 \<and> consistent cls g1"
  proof -
    from emission_general [OF assms(1), of n nu dsem cph co]
    obtain g1 where 1: "emission fuel cls g nu dsem cph co
          = Some (emission_value cls (flag_radtransf g) nu dsem cph co, g1)"
      and g1: "grows g g1" and c1: "consistent cls g1"
      unfolding n by blast
    from emission_general [OF c1, of n nu dsem cph co]
    obtain g2 where 2: "emission fuel cls g1 nu dsem cph co
          = Some (emission_value cls (flag_radtransf g1) nu dsem cph co, g2)"
      and g2: "grows g1 g2"
      unfolding n by blast
    from 1 2 g1 g2 c1 grows_flag [OF g1] show ?thesis by auto
  qed
  have V: "\<exists>r g1 g2. emission_vector fuel cls g nuem dsem cph co = Some (r, g1) \<and>
            emission_vector fuel cls g1 nuem dsem cph co = Some (r, g2) \<and>
            grows g g1 \<and> grows g1 g2 \<and> consistent cls g1"
  proof -
    from emission_vector_general [OF assms(1), of "Suc n" nuem dsem cph co]
    obtain g1 where 1: "emission_vector fuel cls g nuem dsem cph co
          = Some (vector_value cls (flag_radtransf g) nuem dsem cph co, g1)"
      and g1: "grows g g1" and c1: "consistent cls g1"
      unfolding n by blast
    from emission_vector_general [OF c1, of "Suc n" nuem dsem cph co]
    obtain g2 where 2: "emission_vector fuel cls g1 nuem dsem cph co
          = Some (vector_value cls (flag_radtransf g1) nuem dsem cph co, g2)"
      and g2: "grows g1 g2"
      unfolding n by blast
    from 1 2 g1 g2 c1 grows_flag [OF g1] show ?thesis by auto
  qed
  have R: "\<exists>r g1 g2. radiativeQ fuel cls g nuem dsem cph co = Some (r, g1) \<and>
            radiativeQ fuel cls g1 nuem dsem cph co = Some (r, g2) \<and>
            grows g g1 \<and> grows g1 g2 \<and> consistent cls g1"
  proof -
    from radiativeQ_general [OF assms(1), of "Suc (Suc n)" nuem dsem cph co]
    obtain g1 where 1: "radiativeQ fuel cls g nuem dsem cph co
          = Some (unpolarized_value cls (flag_radtransf g) nuem dsem cph co, g1)"
      and g1: "grows g g1" and c1: "consistent cls g1"
      unfolding n by blast
    from radiativeQ_general [OF c1, of "Suc (Suc n)" nuem dsem cph co]
    obtain g2 where 2: "radiativeQ fuel cls g1 nuem dsem cph co
          = Some (unpolarized_value cls (flag_radtransf g1) nuem dsem cph co, g2)"
      and g2: "grows g1 g2"
      unfolding n by blast
    from 1 2 g1 g2 c1 grows_flag [OF g1] show ?thesis by auto
  qed
  have P: "\<exists>r g1 g2. radiativeQ_polar fuel cls g nuem dsem cph co = Some (r, g1) \<and>
            radiativeQ_polar fuel cls g1 nuem dsem cph co = Some (r, g2) \<and>
            grows g g1 \<and> grows g1 g2 \<and> consistent cls g1"
  proof -
    from radiativeQ_polar_general [OF assms(1), of "Suc (Suc (Suc n))" nuem dsem cph co]
    obtain g1 where 1: "radiativeQ_polar fuel cls g nuem dsem cph co
          = Some (polarized_leaf cls (flag_radtransf g) nuem dsem cph co, g1)"
      and g1: "grows g g1" and c1: "consistent cls g1"
      unfolding n by blast
    from radiativeQ_polar_general [OF c1, of "Suc (Suc (Suc n))" nuem dsem cph co]
    obtain g2 where 2: "radiativeQ_polar fuel cls g1 nuem dsem cph co
          = Some (polarized_leaf cls (flag_radtransf g1) nuem dsem cph co, g2)"
      and g2: "grows g1 g2"
      unfolding n by blast
    from 1 2 g1 g2 c1 grows_flag [OF g1] show ?thesis by auto
  qed
  from T E V R P show ?thesis by blast
qed

theorem repeated_calls_identical_witness:
  "consistent example_cloud Generic_ctor \<and> (7::nat) \<le> 7 \<and>
   (\<exists>r g1 g2. emission_vector 7 example_cloud Generic_ctor [Fin 1, Fin 2] (Fin 3) [] [] = Some (r, g1) \<and>
      emission_vector 7 example_cloud g1 [Fin 1, Fin 2] (Fin 3) [] [] = Some (r, g2) \<and>
      grows Generic_ctor g1 \<and> grows g1 g2 \<and> consistent example_cloud g1)"
proof -
  have c: "consistent example_cloud Generic_ctor" by (rule consistent_Generic_ctor)
  show ?thesis
    using c repeated_calls_identical [OF c, of 7 "Fin 1" "Fin 3" "[]" "[]" "[Fin 1, Fin 2]"]
    by simp
qed

section \<open>Rounding to double precision\<close>

lemma pow2_powr: "pow2 e = 2 powr (of_int e)"
  by (simp add: pow2_def powr_real_of_int inverse_eq_divide)

lemma pow2_pos [simp]: "0 < pow2 e"
  by (simp add: pow2_powr)

lemma pow2_add: "pow2 (a + b) = pow2 a * pow2 b"
  by (simp add: pow2_powr powr_add)

lemma pow2_nat: "0 \<le> e \<Longrightarrow> pow2 e = 2 ^ nat e"
  by (simp add: pow2_def)

lemma pow2_mono: "a \<le> b \<Longrightarrow> pow2 a \<le> pow2 b"
  by (simp add: pow2_powr)

text \<open>The binade of a real number fixes the exponent of the spacing.\<close>

lemma floor_log2: "x \<noteq> 0 \<Longrightarrow> pow2 E \<le> \<bar>x\<bar> \<Longrightarrow> \<bar>x\<bar> < pow2 (E + 1) \<Longrightarrow> \<lfloor>log 2 \<bar>x\<bar>\<rfloor> = E"
  using floor_log_eq_powr_iff [of "\<bar>x\<bar>" 2 E] by (simp add: pow2_powr)

lemma rnd_binade:
  assumes "pow2 E \<le> \<bar>x\<bar>" "\<bar>x\<bar> < pow2 (E + 1)"
  shows "rnd x = (let e = max E (- 1022) - 52;
                     r = of_int (round_half_even (x / pow2 e)) * pow2 e
                  in if 2 ^ 1024 \<le> \<bar>r\<bar> then (if 0 < x then PInf else MInf) else Fin r)"
proof -
  have "x \<noteq> 0" using assms(1) pow2_pos [of E] by (auto simp del: pow2_pos)
  then show ?thesis using floor_log2 [OF _ assms] by (simp add: rnd_def ulp_exponent_def)
qed

lemma round_half_even_of_int [simp]: "round_half_even (of_int k) = k"
  by (simp add: round_half_even_def)

text \<open>A real number that is a double is its own rounding.\<close>

lemma rnd_exact:
  assumes n: "\<bar>n\<bar> < 2 ^ 53" and e: "- 1074 \<le> e" "e \<le> 971"
  shows "rnd (of_int n * pow2 e) = Fin (of_int n * pow2 e)"
proof (cases "n = 0")
  case True then show ?thesis by (simp add: rnd_def)
next
  case False
  define x where "x = real_of_int n * pow2 e"
  have x0: "x \<noteq> 0" using False pow2_pos [of e] by (simp add: x_def del: pow2_pos)
  have ax: "\<bar>x\<bar> = of_int \<bar>n\<bar> * pow2 e"
    using pow2_pos [of e] by (simp add: x_def abs_mult del: pow2_pos)
  have "real_of_int \<bar>n\<bar> < 2 ^ 53" using n by (metis of_int_less_numeral_power_cancel_iff)
  then have "real_of_int \<bar>n\<bar> * pow2 e < 2 ^ 53 * pow2 e"
    by (intro mult_strict_right_mono pow2_pos)
  moreover have "pow2 53 = 2 ^ 53" by (simp add: pow2_def)
  ultimately have lt: "\<bar>x\<bar> < pow2 (53 + e)"
    unfolding ax pow2_add by simp
  define L where "L = \<lfloor>log 2 \<bar>x\<bar>\<rfloor>"
  have "2 powr (of_int L) \<le> \<bar>x\<bar>"
    using floor_log_eq_powr_iff [of "\<bar>x\<bar>" 2 L] x0 by (simp add: L_def)
  then have "(2::real) powr (of_int L) < 2 powr (of_int (53 + e))"
    using lt unfolding pow2_powr by (rule le_less_trans)
  then have "real_of_int L < of_int (53 + e)" using powr_less_cancel_iff [of 2 "of_int L" "of_int (53 + e)"] by (simp del: of_int_add)
  then have "L < 53 + e" by linarith
  then have le: "ulp_exponent x \<le> e" using e by (simp add: ulp_exponent_def L_def)
  define u where "u = ulp_exponent x"
  define d where "d = e - u"
  have d0: "0 \<le> d" using le by (simp add: d_def u_def)
  have "pow2 e = pow2 (d + u)" by (simp add: d_def)
  then have pe: "pow2 e = 2 ^ nat d * pow2 u" using d0 by (simp add: pow2_add pow2_nat)
  have u0: "pow2 u \<noteq> 0" using pow2_pos [of u] by (simp del: pow2_pos)
  have q: "x / pow2 u = of_int (n * 2 ^ nat d)"
    using u0 by (simp add: x_def pe)
  have r: "of_int (round_half_even (x / pow2 (ulp_exponent x))) * pow2 (ulp_exponent x) = x"
    unfolding u_def [symmetric] q round_half_even_of_int by (simp add: x_def pe)
  have "pow2 (53 + e) \<le> pow2 1024" using e by (intro pow2_mono) simp
  then have "\<bar>x\<bar> < 2 ^ 1024" using lt by (simp add: pow2_def)
  then show ?thesis using x0 r unfolding x_def [symmetric] by (simp add: rnd_def Let_def)
qed

lemma rnd_0 [simp]: "rnd 0 = Fin 0" by (simp add: rnd_def)

lemma rnd_of_int: "\<bar>n\<bar> < 2 ^ 53 \<Longrightarrow> rnd (of_int n) = Fin (of_int n)"
  using rnd_exact [of n 0] by (simp add: pow2_def)

lemma rnd_numeral [simp]: "(numeral k :: int) < 2 ^ 53 \<Longrightarrow> rnd (numeral k) = Fin (numeral k)"
  using rnd_of_int [of "numeral k"] by simp

lemma rnd_neg_numeral [simp]: "(numeral k :: int) < 2 ^ 53 \<Longrightarrow> rnd (- numeral k) = Fin (- numeral k)"
  using rnd_of_int [of "- numeral k"] by simp

lemma rnd_1 [simp]: "rnd 1 = Fin 1"
  using rnd_of_int [of 1] by simp

lemma rnd_neg_1 [simp]: "rnd (- 1) = Fin (- 1)"
  using rnd_of_int [of "- 1"] by simp

lemma rnd_half [simp]: "rnd (1 / 2) = Fin (1 / 2)"
  using rnd_exact [of 1 "- 1"] by (simp add: pow2_def)

lemma rnd_double: "is_double r \<Longrightarrow> rnd r = Fin r"
  by (auto simp add: is_double_def rnd_exact)

text \<open>A finite rounding is within half a spacing of the exact result.\<close>

lemma round_half_even_error: "\<bar>of_int (round_half_even q) - q\<bar> \<le> 1 / 2"
proof -
  have "of_int \<lfloor>q\<rfloor> \<le> q" "q < of_int \<lfloor>q\<rfloor> + 1" by linarith+
  then show ?thesis unfolding round_half_even_def Let_def by (auto simp add: abs_le_iff)
qed

lemma rnd_error:
  assumes "rnd x = Fin r"
  shows "\<bar>r - x\<bar> \<le> pow2 (ulp_exponent x) / 2"
proof (cases "x = 0")
  case True
  then show ?thesis using assms by (simp add: le_less)
next
  case False
  define e where "e = ulp_exponent x"
  define k where "k = round_half_even (x / pow2 e)"
  have r: "r = of_int k * pow2 e"
    using assms False unfolding rnd_def Let_def e_def [symmetric] k_def [symmetric]
    by (simp split: if_splits)
  have p: "0 < pow2 e" by simp
  then have p0: "0 \<le> pow2 e" by (rule less_imp_le)
  have "\<bar>of_int k - x / pow2 e\<bar> \<le> 1 / 2" unfolding k_def by (rule round_half_even_error)
  then have "\<bar>of_int k - x / pow2 e\<bar> * pow2 e \<le> 1 / 2 * pow2 e"
    using p0 by (rule mult_right_mono)
  moreover have "\<bar>of_int k - x / pow2 e\<bar> * pow2 e = \<bar>of_int k * pow2 e - x\<bar>"
  proof -
    have "\<bar>of_int k - x / pow2 e\<bar> * pow2 e = \<bar>(of_int k - x / pow2 e) * pow2 e\<bar>"
      using p by (simp add: abs_mult del: pow2_pos)
    also have "(of_int k - x / pow2 e) * pow2 e = of_int k * pow2 e - x"
      using p by (simp add: field_simps del: pow2_pos)
    finally show ?thesis .
  qed
  ultimately show ?thesis unfolding r e_def by simp
qed

text \<open>A finite rounding is a double.\<close>

lemma pow2_less_cancel: "pow2 a < pow2 b \<Longrightarrow> a < b"
  by (simp add: pow2_powr)

lemma pow2_numeral: "pow2 53 = 2 ^ 53" "pow2 52 = 2 ^ 52" "pow2 1024 = 2 ^ 1024"
  by (simp_all add: pow2_def)

lemma rnd_is_double:
  assumes "rnd x = Fin r"
  shows "is_double r"
proof (cases "r = 0")
  case True
  have "r = of_int 0 * pow2 0" using True by simp
  then show ?thesis unfolding is_double_def by (intro exI [of _ 0] exI [of _ "0::int"]) simp
next
  case False
  then have x0: "x \<noteq> 0" using assms by (auto simp add: rnd_def)
  define e where "e = ulp_exponent x"
  define k where "k = round_half_even (x / pow2 e)"
  define L where "L = \<lfloor>log 2 \<bar>x\<bar>\<rfloor>"
  have r: "r = of_int k * pow2 e" and fin: "\<bar>of_int k * pow2 e\<bar> < 2 ^ 1024"
    using assms x0 unfolding rnd_def Let_def e_def [symmetric] k_def [symmetric]
    by (simp_all split: if_splits)
  have p: "0 < pow2 e" by simp
  have absr: "\<bar>of_int k * pow2 e\<bar> = \<bar>real_of_int k\<bar> * pow2 e"
    using p by (simp add: abs_mult del: pow2_pos)
  have Lb: "pow2 L \<le> \<bar>x\<bar>" "\<bar>x\<bar> < pow2 (L + 1)"
    using floor_log_eq_powr_iff [of "\<bar>x\<bar>" 2 L] x0 by (simp_all add: L_def pow2_powr)
  have e: "e = max L (- 1022) - 52" by (simp add: e_def ulp_exponent_def L_def)
  then have e_lo: "- 1074 \<le> e" and eL: "L + 1 \<le> e + 53" by simp_all
  have "\<bar>x\<bar> < pow2 (e + 53)" using Lb(2) pow2_mono [OF eL] by linarith
  then have "\<bar>x\<bar> < 2 ^ 53 * pow2 e" by (simp add: pow2_add pow2_numeral mult.commute)
  then have "\<bar>x\<bar> / pow2 e < 2 ^ 53" using p by (simp add: pos_divide_less_eq del: pow2_pos)
  then have q: "\<bar>x / pow2 e\<bar> < 2 ^ 53" using p by (simp del: pow2_pos)
  have err: "\<bar>of_int k - x / pow2 e\<bar> \<le> 1 / 2" unfolding k_def by (rule round_half_even_error)
  have "\<bar>real_of_int k\<bar> < 2 ^ 53 + 1" using q err by linarith
  then have "real_of_int \<bar>k\<bar> < real_of_int (2 ^ 53 + 1)" by simp
  then have "\<bar>k\<bar> < 2 ^ 53 + 1" by (simp only: of_int_less_iff)
  then have kle: "\<bar>k\<bar> \<le> 2 ^ 53" by simp
  have k0: "k \<noteq> 0" using False r by auto
  show ?thesis
  proof (cases "\<bar>k\<bar> = 2 ^ 53")
    case True
    then have "\<bar>real_of_int k\<bar> = 2 ^ 53" by (metis of_int_abs of_int_numeral of_int_power)
    then have "pow2 53 * pow2 e < pow2 1024" using fin unfolding absr by (simp add: pow2_numeral)
    then have "53 + e < 1024" unfolding pow2_add [symmetric] by (rule pow2_less_cancel)
    then have e1: "e + 1 \<le> 971" by simp
    define n where "n = k div 2"
    have "k = 2 ^ 53 \<or> k = - (2 ^ 53)" using True by (simp add: abs_if split: if_splits)
    then have k2: "k = 2 * n" unfolding n_def by auto
    have n: "\<bar>n\<bar> < 2 ^ 53" using True unfolding k2 by (simp add: abs_mult)
    have "r = of_int n * pow2 (e + 1)" unfolding r k2 pow2_add by (simp add: pow2_def)
    then show ?thesis unfolding is_double_def using n e_lo e1
      by (intro exI [of _ n] exI [of _ "e + 1"]) simp
  next
    case False
    then have n: "\<bar>k\<bar> < 2 ^ 53" using kle by simp
    have "e \<le> 971"
    proof (rule ccontr)
      assume "\<not> e \<le> 971"
      then have big: "972 \<le> e" by simp
      then have eq: "L = e + 52" using e by (simp add: max_def split: if_splits)
      have "pow2 52 * pow2 e \<le> \<bar>x\<bar>" using Lb(1) unfolding eq pow2_add by (simp add: mult.commute)
      then have "2 ^ 52 \<le> \<bar>x\<bar> / pow2 e" using p by (simp add: pos_le_divide_eq pow2_numeral del: pow2_pos)
      then have "2 ^ 52 \<le> \<bar>x / pow2 e\<bar>" using p by (simp del: pow2_pos)
      then have "2 ^ 52 - 1 / 2 \<le> \<bar>real_of_int k\<bar>" using err by linarith
      then have "real_of_int (2 ^ 52 - 1) < real_of_int \<bar>k\<bar>" by simp
      then have "2 ^ 52 - 1 < \<bar>k\<bar>" by (simp only: of_int_less_iff)
      then have "2 ^ 52 \<le> \<bar>k\<bar>" by simp
      then have "real_of_int (2 ^ 52) \<le> real_of_int \<bar>k\<bar>" by (simp only: of_int_le_iff)
      then have k52: "pow2 52 \<le> \<bar>real_of_int k\<bar>" by (simp add: pow2_numeral)
      have "pow2 972 \<le> pow2 e" using big by (rule pow2_mono)
      then have "pow2 52 * pow2 972 \<le> \<bar>real_of_int k\<bar> * pow2 e"
        using k52 by (intro mult_mono) (simp_all add: less_imp_le)
      moreover have "pow2 52 * pow2 972 = 2 ^ 1024" unfolding pow2_add [symmetric] by (simp add: pow2_def)
      ultimately show False using fin unfolding absr by linarith
    qed
    then show ?thesis unfolding is_double_def using n e_lo r
      by (intro exI [of _ k] exI [of _ e]) simp
  qed
qed

text \<open>Arithmetic and comparison of finite doubles.\<close>

lemma dbl_fin_simps [simp]:
  "Fin a + Fin b = rnd (a + b)"
  "Fin a - Fin b = rnd (a - b)"
  "Fin a * Fin b = rnd (a * b)"
  "- Fin a = Fin (- a)"
  "(Fin a < Fin b) = (a < b)"
  "(Fin a \<le> Fin b) = (a \<le> b)"
  "b \<noteq> 0 \<Longrightarrow> Fin a / Fin b = rnd (a / b)"
  by (simp_all add: plus_dbl_def minus_dbl_def times_dbl_def uminus_dbl_def less_dbl_def
        less_eq_dbl_def divide_dbl_def)

text \<open>The rounding of a negative number that is not below the subnormal grid is negative.\<close>

lemma round_half_even_le: "q \<le> - 1 \<Longrightarrow> round_half_even q \<le> - 1"
proof -
  assume q: "q \<le> - 1"
  then have f: "\<lfloor>q\<rfloor> \<le> - 1" by (simp add: floor_le_iff)
  have "\<lfloor>q\<rfloor> = - 1 \<Longrightarrow> q - of_int \<lfloor>q\<rfloor> < 1 / 2"
  proof -
    assume a: "\<lfloor>q\<rfloor> = - 1"
    have "of_int \<lfloor>q\<rfloor> \<le> q" by (rule of_int_floor_le)
    then have "q = - 1" using q a by simp
    then show ?thesis by simp
  qed
  then show ?thesis using f unfolding round_half_even_def Let_def by (cases "\<lfloor>q\<rfloor> = - 1") auto
qed

lemma rnd_negative:
  assumes "x \<le> - pow2 (- 1074)"
  shows "rnd x < Fin 0"
proof -
  have x: "x < 0" using assms pow2_pos [of "- 1074"] by linarith
  then have x0: "x \<noteq> 0" by simp
  define L where "L = \<lfloor>log 2 \<bar>x\<bar>\<rfloor>"
  define e where "e = ulp_exponent x"
  have "2 powr (of_int L) \<le> \<bar>x\<bar>"
    using floor_log_eq_powr_iff [of "\<bar>x\<bar>" 2 L] x0 by (simp add: L_def)
  then have L: "pow2 L \<le> \<bar>x\<bar>" by (simp add: pow2_powr)
  have "pow2 e \<le> \<bar>x\<bar>"
  proof (cases "- 1022 \<le> L")
    case True
    then have "e \<le> L" by (simp add: e_def ulp_exponent_def L_def)
    then have "pow2 e \<le> pow2 L" by (rule pow2_mono)
    then show ?thesis using L by linarith
  next
    case False
    then have "e = - 1074" by (simp add: e_def ulp_exponent_def L_def)
    then show ?thesis using assms x by simp
  qed
  then have "x \<le> - 1 * pow2 e" using x by simp
  then have "x / pow2 e \<le> - 1" using pow2_pos [of e] by (simp add: pos_divide_le_eq del: pow2_pos)
  then have k: "round_half_even (x / pow2 e) \<le> - 1" by (rule round_half_even_le)
  define k where "k = round_half_even (x / pow2 e)"
  have "real_of_int k \<le> - 1" using k unfolding k_def by linarith
  then have "real_of_int k < 0" by linarith
  then have "real_of_int k * pow2 e < 0" using pow2_pos [of e] by (simp add: mult_less_0_iff del: pow2_pos)
  then show ?thesis using x x0
    by (simp add: rnd_def Let_def e_def [symmetric] k_def [symmetric] less_dbl_def)
qed

text \<open>Special values.\<close>

lemma rnd_not_NaN [simp]: "rnd x \<noteq> NaN"
  by (simp add: rnd_def Let_def)

lemma fabs_nonneg: "a < Fin 0 \<Longrightarrow> y \<noteq> NaN \<Longrightarrow> a < fabs y"
  by (cases a; cases y) (simp_all add: less_dbl_def)

lemma minus_not_NaN: "Iprev \<noteq> NaN \<Longrightarrow> Fin v - Iprev \<noteq> NaN"
  by (cases Iprev) (simp_all add: minus_dbl_def)

lemma mult_NaN [simp]: "x * NaN = NaN" "NaN * x = NaN"
  by (cases x; simp add: times_dbl_def)+

lemma less_NaN [simp]: "\<not> NaN < x" "\<not> x < NaN"
  by (cases x; simp add: less_dbl_def)+

text \<open>The literal \<open>1e-2\<close>: the double nearest to one hundredth.\<close>

lemma rnd_one_hundredth: "rnd (1 / 100) = Fin (5764607523034235 / 576460752303423488)"
  using rnd_binade [of "- 7" "1 / 100"] by (simp add: pow2_def round_half_even_def)

section \<open>The band quadrature integrator on a constant emission coefficient\<close>

subsection \<open>Unfolding the two loops\<close>

lemma emission_overridden:
  "ov_emission cls = Some f \<Longrightarrow> emission (Suc n) cls g nu dsem cph co = Some (f nu dsem cph co, g)"
  by (simp add: emission.simps)

lemma for_exit:
  "\<not> nu < nu2 \<Longrightarrow> integrateEmission_for fuel cls dsem cph co nu2 d nu I g = Some (I, g)"
  by (subst integrateEmission_for.simps) simp

lemma for_step:
  assumes "emission fuel cls g nu dsem cph co = Some (e, g1)" and "nu < nu2"
  shows "integrateEmission_for fuel cls dsem cph co nu2 d nu I g
         = integrateEmission_for fuel cls dsem cph co nu2 d (nu + d) (I + e * d) g1"
  by (subst integrateEmission_for.simps) (simp add: assms)

lemma do_exit:
  assumes "integrateEmission_for fuel cls dsem cph co nu2 (dnux2 * Fin (1 / 2))
             (nu1 + Fin (1 / 2) * (dnux2 * Fin (1 / 2))) Icur g = Some (I1, g1)"
    and "\<not> fabs (I1 * Fin (1 / 2) - Icur) > rnd (1 / 100) * (I1 * Fin (1 / 2))"
  shows "integrateEmission_do fuel cls dsem cph co nu1 nu2 dnux2 Icur g = Some (I1 * Fin (1 / 2), g1)"
  by (subst integrateEmission_do.simps) (simp add: assms)

lemma do_again:
  assumes "integrateEmission_for fuel cls dsem cph co nu2 (dnux2 * Fin (1 / 2))
             (nu1 + Fin (1 / 2) * (dnux2 * Fin (1 / 2))) Icur g = Some (I1, g1)"
    and "fabs (I1 * Fin (1 / 2) - Icur) > rnd (1 / 100) * (I1 * Fin (1 / 2))"
  shows "integrateEmission_do fuel cls dsem cph co nu1 nu2 dnux2 Icur g
         = integrateEmission_do fuel cls dsem cph co nu1 nu2 (dnux2 * Fin (1 / 2)) (I1 * Fin (1 / 2)) g1"
  by (subst integrateEmission_do.simps) (simp add: assms)

lemma emission_constant_emitter:
  "emission (Suc n) (constant_emitter c) g nu dsem cph co = Some (c, g)"
  by (simp add: emission_overridden constant_emitter_def)

text \<open>The smaller bound is the lower limit: the order of the bounds does not matter.\<close>

lemma integrateEmission_swap:
  "integrateEmission fuel cls g (Fin y) (Fin x) dsem cph co
   = integrateEmission fuel cls g (Fin x) (Fin y) dsem cph co"
  by (cases "x < y"; cases "y < x") (simp_all add: integrateEmission_def)

subsection \<open>The exit test on a negative integral\<close>

text \<open>
  The exit test \<open>fabs(Icur-Iprev) > 1e-2 * Icur\<close> on a negative \<open>Icur\<close> compares a non-negative
  number with a negative one: it asks for another refinement, whatever \<open>Iprev\<close>.
\<close>

lemma exit_test_negative:
  assumes v: "v \<le> - (1 / 2 ^ 1000)" and p: "Iprev \<noteq> NaN"
  shows "fabs (Fin v - Iprev) > rnd (1 / 100) * Fin v"
proof -
  have "5764607523034235 / 576460752303423488 * v
        \<le> 5764607523034235 / 576460752303423488 * (- (1 / 2 ^ 1000))"
    using v by (intro mult_left_mono) simp_all
  also have "\<dots> \<le> - pow2 (- 1074)" by (simp add: pow2_def)
  finally have "rnd (5764607523034235 / 576460752303423488 * v) < Fin 0" by (rule rnd_negative)
  then have "rnd (1 / 100) * Fin v < Fin 0" by (simp add: rnd_one_hundredth)
  then show ?thesis using minus_not_NaN [OF p] by (rule fabs_nonneg)
qed

text \<open>
  Hence the \<open>do ... while\<close> loop never returns a negative number (beyond the subnormal
  range), whatever the emission coefficient: a refinement that ends on a negative \<open>Icur\<close>
  is followed by another one.
\<close>

lemma do_never_negative:
  assumes major: "integrateEmission_do fuel cls dsem cph co nu1 nu2 dnux2 Icur g = Some y"
    and "Icur \<noteq> NaN" and "fst y = Fin v"
  shows "- (1 / 2 ^ 1000) < v"
proof -
  define P where "P = (\<lambda>(fu::nat) (cl::astrobj_class) (ds::dbl) (cp::state_t) (c0::dbl list)
      (n1::dbl) (n2::dbl) (dn::dbl) (ic::dbl) (g0::generic) (y0::dbl \<times> generic).
      ic \<noteq> NaN \<longrightarrow> (\<forall>v. fst y0 = Fin v \<longrightarrow> - (1 / 2 ^ 1000) < v))"
  have "P fuel cls dsem cph co nu1 nu2 dnux2 Icur g y"
  proof (rule integrateEmission_do.raw_induct [where P = P, OF _ major])
    fix f fu cl ds cp c0 n1 n2 dn ic g0 y0
    assume IH: "\<And>fu cl ds cp c0 n1 n2 dn ic g0 y0.
        f fu cl ds cp c0 n1 n2 dn ic g0 = Some y0 \<Longrightarrow> P fu cl ds cp c0 n1 n2 dn ic g0 y0"
      and step: "integrateEmission_for fu cl ds cp c0 n2 (dn * Fin (1 / 2))
          (n1 + Fin (1 / 2) * (dn * Fin (1 / 2))) ic g0 \<bind>
         (\<lambda>r. if rnd (1 / 100) * (fst r * Fin (1 / 2)) < fabs (fst r * Fin (1 / 2) - ic)
              then f fu cl ds cp c0 n1 n2 (dn * Fin (1 / 2)) (fst r * Fin (1 / 2)) (snd r)
              else Some (fst r * Fin (1 / 2), snd r)) = Some y0"
    from step obtain r where
      r: "(if rnd (1 / 100) * (fst r * Fin (1 / 2)) < fabs (fst r * Fin (1 / 2) - ic)
              then f fu cl ds cp c0 n1 n2 (dn * Fin (1 / 2)) (fst r * Fin (1 / 2)) (snd r)
              else Some (fst r * Fin (1 / 2), snd r)) = Some y0"
      by (auto simp add: bind_eq_Some_conv)
    show "P fu cl ds cp c0 n1 n2 dn ic g0 y0"
    proof (cases "rnd (1 / 100) * (fst r * Fin (1 / 2)) < fabs (fst r * Fin (1 / 2) - ic)")
      case True
      then have "fst r * Fin (1 / 2) \<noteq> NaN" by auto
      moreover have "P fu cl ds cp c0 n1 n2 (dn * Fin (1 / 2)) (fst r * Fin (1 / 2)) (snd r) y0"
        using r True by (intro IH) simp
      ultimately show ?thesis unfolding P_def by blast
    next
      case False
      then have y0: "fst y0 = fst r * Fin (1 / 2)" using r by auto
      show ?thesis unfolding P_def
      proof (intro impI allI)
        fix v assume ic: "ic \<noteq> NaN" and v: "fst y0 = Fin v"
        show "- (1 / 2 ^ 1000) < v"
        proof (rule ccontr)
          assume "\<not> - (1 / 2 ^ 1000) < v"
          then have "v \<le> - (1 / 2 ^ 1000)" by simp
          then have "fabs (Fin v - ic) > rnd (1 / 100) * Fin v" using ic by (rule exit_test_negative)
          then show False using False unfolding y0 [symmetric] v by simp
        qed
      qed
    qed
  qed
  then show ?thesis using assms(2,3) unfolding P_def by blast
qed

text \<open>
  The constant \<open>- 1\<close> on the band from 0 to 1, whose integral is \<open>- 1\<close>: no call returns a
  value near \<open>- 1\<close>.
\<close>

lemma integrateEmission_unit_band_never_close:
  "integrateEmission (Suc n) (constant_emitter (Fin (- 1))) g (Fin 0) (Fin 1) dsem cph co = Some (Fin v, g')
   \<Longrightarrow> - (1 / 2 ^ 1000) < v"
proof -
  assume a: "integrateEmission (Suc n) (constant_emitter (Fin (- 1))) g (Fin 0) (Fin 1) dsem cph co = Some (Fin v, g')"
  have "integrateEmission (Suc n) (constant_emitter (Fin (- 1))) g (Fin 0) (Fin 1) dsem cph co
      = integrateEmission_do (Suc n) (constant_emitter (Fin (- 1))) dsem cph co (Fin 0) (Fin 1) (Fin 2) (Fin (- 1)) g"
    by (simp add: integrateEmission_def Let_def emission_constant_emitter)
  then have "integrateEmission_do (Suc n) (constant_emitter (Fin (- 1))) dsem cph co (Fin 0) (Fin 1) (Fin 2) (Fin (- 1)) g
     = Some (Fin v, g')" using a by simp
  then show ?thesis by (rule do_never_negative) simp_all
qed

subsection \<open>At the limits of double precision\<close>

text \<open>
  A band whose doubled width exceeds \<open>DBL_MAX\<close>: \<open>dnux2\<close> and the first estimate are
  infinite, no sample is taken, and the test compares with NaN and stops. The call returns
  \<open>+inf\<close>.
\<close>

lemma rnd_2_1023: "rnd (2 ^ 1023) = Fin (2 ^ 1023)"
  using rnd_exact [of "2 ^ 52" 971] by (simp add: pow2_def)

lemma rnd_2_1024: "rnd (2 ^ 1024) = PInf"
  using rnd_binade [of 1024 "2 ^ 1024"] by (simp add: pow2_def round_half_even_def)

lemma integrateEmission_overflow:
  "integrateEmission (Suc n) (constant_emitter (Fin 1)) g (Fin 0) (Fin (2 ^ 1023)) dsem cph co
   = Some (PInf, g)"
proof -
  have w: "(Fin (2 ^ 1023) - Fin 0) * Fin 2 = PInf"
    using rnd_2_1023 rnd_2_1024 by simp
  have I0: "(Fin 1 + Fin 1) * PInf * Fin (1 / 4) = PInf"
    by (simp add: times_dbl_def inf_of_sign_def)
  have s: "PInf * Fin (1 / 2) = PInf" "Fin 0 + Fin (1 / 2) * PInf = PInf"
    by (simp_all add: times_dbl_def plus_dbl_def inf_of_sign_def)
  have F: "integrateEmission_for (Suc n) (constant_emitter (Fin 1)) dsem cph co (Fin (2 ^ 1023))
      (PInf * Fin (1 / 2)) (Fin 0 + Fin (1 / 2) * (PInf * Fin (1 / 2))) PInf g = Some (PInf, g)"
    unfolding s by (rule for_exit) (simp add: less_dbl_def)
  have "integrateEmission_do (Suc n) (constant_emitter (Fin 1)) dsem cph co (Fin 0) (Fin (2 ^ 1023))
      PInf PInf g = Some (PInf * Fin (1 / 2), g)"
    by (rule do_exit [OF F]) (simp add: s minus_dbl_def)
  then have "integrateEmission_do (Suc n) (constant_emitter (Fin 1)) dsem cph co (Fin 0) (Fin (2 ^ 1023))
      PInf PInf g = Some (PInf, g)" unfolding s .
  moreover have "integrateEmission (Suc n) (constant_emitter (Fin 1)) g (Fin 0) (Fin (2 ^ 1023)) dsem cph co
    = integrateEmission_do (Suc n) (constant_emitter (Fin 1)) dsem cph co (Fin 0) (Fin (2 ^ 1023))
        ((Fin (2 ^ 1023) - Fin 0) * Fin 2)
        ((Fin 1 + Fin 1) * ((Fin (2 ^ 1023) - Fin 0) * Fin 2) * Fin (1 / 4)) g"
    by (simp add: integrateEmission_def Let_def emission_constant_emitter del: dbl_fin_simps)
       (simp add: less_dbl_def)
  ultimately show ?thesis unfolding w I0 by simp
qed

text \<open>Roundings between 1 and 2, where the spacing of the doubles is \<open>2 ^ - 52\<close>.\<close>

lemma rnd_dyadic:
  "rnd (1 / 1125899906842624) = Fin (1 / 1125899906842624)"
  "rnd (1 / 2251799813685248) = Fin (1 / 2251799813685248)"
  "rnd (1 / 4503599627370496) = Fin (1 / 4503599627370496)"
  "rnd (1 / 9007199254740992) = Fin (1 / 9007199254740992)"
  "rnd (- (1 / 9007199254740992)) = Fin (- (1 / 9007199254740992))"
  "rnd (1 / 18014398509481984) = Fin (1 / 18014398509481984)"
  using rnd_exact [of 1 "- 50"] rnd_exact [of 1 "- 51"] rnd_exact [of 1 "- 52"]
    rnd_exact [of 1 "- 53"] rnd_exact [of "- 1" "- 53"] rnd_exact [of 1 "- 54"]
  by (simp_all add: pow2_def)

lemma rnd_adjacent:
  "rnd (9007199254740995 / 9007199254740992) = Fin (2251799813685249 / 2251799813685248)"
  "rnd (18014398509481989 / 18014398509481984) = Fin (4503599627370497 / 4503599627370496)"
  using rnd_binade [of 0 "9007199254740995 / 9007199254740992"]
    rnd_binade [of 0 "18014398509481989 / 18014398509481984"]
  by (simp_all add: pow2_def round_half_even_def)

lemma rnd_hundredth_scaled:
  "rnd (5764607523034235 / 5192296858534827628530496329220096)
     = Fin (5764607523034235 / 5192296858534827628530496329220096)"
  using rnd_exact [of 5764607523034235 "- 112"] by (simp add: pow2_def)

text \<open>
  A band between the two adjacent doubles \<open>1 + 2 ^ - 52\<close> and \<open>1 + 2 ^ - 51\<close>, of width
  \<open>2 ^ - 52\<close>: the midpoint rounds onto the upper bound, the first refinement takes no
  sample and halves the estimate, and the second one confirms the half. With the constant 1
  the call returns \<open>2 ^ - 53\<close>, half of the integral.
\<close>

lemma integrateEmission_adjacent_doubles:
  "integrateEmission (Suc n) (constant_emitter (Fin 1)) g (Fin (4503599627370497 / 4503599627370496))
     (Fin (2251799813685249 / 2251799813685248)) dsem cph co
   = Some (Fin (1 / 9007199254740992), g)"
proof -
  let ?cls = "constant_emitter (Fin 1)"
  let ?lo = "Fin (4503599627370497 / 4503599627370496)"
  let ?hi = "Fin (2251799813685249 / 2251799813685248)"
  have start: "integrateEmission (Suc n) ?cls g ?lo ?hi dsem cph co
     = integrateEmission_do (Suc n) ?cls dsem cph co ?lo ?hi (Fin (1 / 2251799813685248))
         (Fin (1 / 4503599627370496)) g"
    by (simp add: integrateEmission_def Let_def emission_constant_emitter rnd_dyadic)
  have F1: "integrateEmission_for (Suc n) ?cls dsem cph co ?hi
      (Fin (1 / 2251799813685248) * Fin (1 / 2))
      (?lo + Fin (1 / 2) * (Fin (1 / 2251799813685248) * Fin (1 / 2))) (Fin (1 / 4503599627370496)) g
     = Some (Fin (1 / 4503599627370496), g)"
    by (rule for_exit) (simp add: rnd_dyadic rnd_adjacent)
  have D1: "integrateEmission_do (Suc n) ?cls dsem cph co ?lo ?hi (Fin (1 / 2251799813685248))
         (Fin (1 / 4503599627370496)) g
     = integrateEmission_do (Suc n) ?cls dsem cph co ?lo ?hi (Fin (1 / 2251799813685248) * Fin (1 / 2))
         (Fin (1 / 4503599627370496) * Fin (1 / 2)) g"
    by (rule do_again [OF F1])
       (simp add: rnd_dyadic rnd_one_hundredth rnd_hundredth_scaled)
  have h: "Fin (1 / 2251799813685248) * Fin (1 / 2) = Fin (1 / 4503599627370496)"
    "Fin (1 / 4503599627370496) * Fin (1 / 2) = Fin (1 / 9007199254740992)"
    by (simp_all add: rnd_dyadic)
  have F2: "integrateEmission_for (Suc n) ?cls dsem cph co ?hi
      (Fin (1 / 4503599627370496) * Fin (1 / 2))
      (?lo + Fin (1 / 2) * (Fin (1 / 4503599627370496) * Fin (1 / 2))) (Fin (1 / 9007199254740992)) g
     = Some (Fin (1 / 4503599627370496), g)"
  proof -
    have "integrateEmission_for (Suc n) ?cls dsem cph co ?hi
      (Fin (1 / 4503599627370496) * Fin (1 / 2))
      (?lo + Fin (1 / 2) * (Fin (1 / 4503599627370496) * Fin (1 / 2))) (Fin (1 / 9007199254740992)) g
      = integrateEmission_for (Suc n) ?cls dsem cph co ?hi (Fin (1 / 9007199254740992)) ?lo
          (Fin (1 / 9007199254740992)) g"
      by (simp add: rnd_dyadic rnd_adjacent)
    also have "\<dots> = integrateEmission_for (Suc n) ?cls dsem cph co ?hi (Fin (1 / 9007199254740992))
          (?lo + Fin (1 / 9007199254740992))
          (Fin (1 / 9007199254740992) + Fin 1 * Fin (1 / 9007199254740992)) g"
      by (rule for_step [OF emission_constant_emitter]) simp
    also have "\<dots> = Some (Fin (1 / 9007199254740992) + Fin 1 * Fin (1 / 9007199254740992), g)"
      by (rule for_exit) (simp add: rnd_adjacent)
    also have "Fin (1 / 9007199254740992) + Fin 1 * Fin (1 / 9007199254740992)
       = Fin (1 / 4503599627370496)"
      by (simp add: rnd_dyadic)
    finally show ?thesis .
  qed
  have D2: "integrateEmission_do (Suc n) ?cls dsem cph co ?lo ?hi (Fin (1 / 4503599627370496))
         (Fin (1 / 9007199254740992)) g
     = Some (Fin (1 / 4503599627370496) * Fin (1 / 2), g)"
    by (rule do_exit [OF F2])
       (simp add: rnd_dyadic rnd_one_hundredth rnd_hundredth_scaled)
  show ?thesis unfolding start D1 h D2 ..
qed

subsection \<open>A band between two adjacent doubles at \<open>2 ^ 53\<close>\<close>

text \<open>
  The doubles from \<open>2 ^ 53 = 9007199254740992\<close> to \<open>2 ^ 54\<close> are the even integers. The band
  from \<open>2 ^ 53\<close> to \<open>2 ^ 53 + 2\<close> has width 2; the midpoint \<open>2 ^ 53 + 1\<close> of the first
  refinement rounds to \<open>2 ^ 53\<close>, the lower bound.
\<close>

lemma rnd_two_hundredths:
  "rnd (5764607523034235 / 288230376151711744) = Fin (5764607523034235 / 288230376151711744)"
  using rnd_exact [of 5764607523034235 "- 58"] by (simp add: pow2_def)

lemma rnd_minus_two_hundredths:
  "rnd (- (5764607523034235 / 288230376151711744)) = Fin (- (5764607523034235 / 288230376151711744))"
  using rnd_exact [of "- 5764607523034235" "- 58"] by (simp add: pow2_def)

lemma rnd_2_53: "rnd 9007199254740992 = Fin 9007199254740992"
  using rnd_exact [of 4503599627370496 1] by (simp add: pow2_def)

lemma rnd_2_53_plus_half: "rnd (18014398509481985 / 2) = Fin 9007199254740992"
  using rnd_binade [of 53 "18014398509481985 / 2"] by (simp add: pow2_def round_half_even_def)

lemma rnd_2_53_plus_1: "rnd 9007199254740993 = Fin 9007199254740992"
  using rnd_binade [of 53 9007199254740993] by (simp add: pow2_def round_half_even_def)

lemma rnd_2_53_plus_2: "rnd 9007199254740994 = Fin 9007199254740994"
  using rnd_exact [of 4503599627370497 1] by (simp add: pow2_def)

text \<open>
  A step of 1 from \<open>2 ^ 53\<close> rounds back to \<open>2 ^ 53\<close>: the inner loop of a refinement with
  \<open>dnux2 = 1\<close> never reaches the upper bound.
\<close>

lemma for_stuck:
  assumes em: "\<And>nu g. emission fuel cls g nu dsem cph co = Some (e, g)"
  shows "integrateEmission_for fuel cls dsem cph co (Fin 9007199254740994) (Fin 1)
           (Fin 9007199254740992) Icur g = None"
proof (rule ccontr)
  assume "integrateEmission_for fuel cls dsem cph co (Fin 9007199254740994) (Fin 1)
           (Fin 9007199254740992) Icur g \<noteq> None"
  then obtain y where major: "integrateEmission_for fuel cls dsem cph co (Fin 9007199254740994) (Fin 1)
           (Fin 9007199254740992) Icur g = Some y"
    by blast
  define P where "P = (\<lambda>(fu::nat) (cl::astrobj_class) (ds::dbl) (cp::state_t) (c0::dbl list)
      (n2::dbl) (dn::dbl) (nu::dbl) (ic::dbl) (g0::generic) (y0::dbl \<times> generic).
      (fu = fuel \<and> cl = cls \<and> ds = dsem \<and> cp = cph \<and> c0 = co \<and> n2 = Fin 9007199254740994 \<and>
       dn = Fin 1 \<and> nu = Fin 9007199254740992) \<longrightarrow> False)"
  have "P fuel cls dsem cph co (Fin 9007199254740994) (Fin 1) (Fin 9007199254740992) Icur g y"
  proof (rule integrateEmission_for.raw_induct [where P = P, OF _ major])
    fix f fu cl ds cp c0 n2 dn nu ic g0 y0
    assume IH: "\<And>fu cl ds cp c0 n2 dn nu ic g0 y0.
        f fu cl ds cp c0 n2 dn nu ic g0 = Some y0 \<Longrightarrow> P fu cl ds cp c0 n2 dn nu ic g0 y0"
      and step: "(if nu < n2
           then emission fu cl g0 nu ds cp c0 \<bind>
                (\<lambda>r. f fu cl ds cp c0 n2 dn (nu + dn) (ic + fst r * dn) (snd r))
           else Some (ic, g0)) = Some y0"
    show "P fu cl ds cp c0 n2 dn nu ic g0 y0"
      unfolding P_def
    proof (intro impI, elim conjE)
      assume eqs: "fu = fuel" "cl = cls" "ds = dsem" "cp = cph" "c0 = co"
        "n2 = Fin 9007199254740994" "dn = Fin 1" "nu = Fin 9007199254740992"
      have "f fuel cls dsem cph co (Fin 9007199254740994) (Fin 1) (Fin 9007199254740992)
              (ic + e * Fin 1) g0 = Some y0"
        using step unfolding eqs by (simp add: em rnd_2_53_plus_1)
      then have "P fuel cls dsem cph co (Fin 9007199254740994) (Fin 1) (Fin 9007199254740992)
              (ic + e * Fin 1) g0 y0"
        by (rule IH)
      then show False unfolding P_def by blast
    qed
  qed
  then show False unfolding P_def by blast
qed

text \<open>
  The call on a constant \<open>c\<close>: the first estimate, then the first refinement, whose single
  sample is taken at \<open>2 ^ 53\<close>.
\<close>

lemma integrateEmission_example_start:
  "integrateEmission (Suc n) (constant_emitter (Fin c)) g (Fin 9007199254740992) (Fin 9007199254740994) dsem cph co
   = integrateEmission_do (Suc n) (constant_emitter (Fin c)) dsem cph co (Fin 9007199254740992)
       (Fin 9007199254740994) (Fin 4) (rnd (c + c) * Fin 4 * Fin (1 / 4)) g"
  by (simp add: integrateEmission_def Let_def emission_constant_emitter)

lemma integrateEmission_example_for:
  "integrateEmission_for (Suc n) (constant_emitter (Fin c)) dsem cph co (Fin 9007199254740994)
      (Fin 4 * Fin (1 / 2)) (Fin 9007199254740992 + Fin (1 / 2) * (Fin 4 * Fin (1 / 2))) Icur g
   = Some (Icur + Fin c * Fin 2, g)"
proof -
  have "integrateEmission_for (Suc n) (constant_emitter (Fin c)) dsem cph co (Fin 9007199254740994)
      (Fin 4 * Fin (1 / 2)) (Fin 9007199254740992 + Fin (1 / 2) * (Fin 4 * Fin (1 / 2))) Icur g
    = integrateEmission_for (Suc n) (constant_emitter (Fin c)) dsem cph co (Fin 9007199254740994)
      (Fin 2) (Fin 9007199254740992) Icur g"
    by (simp add: rnd_2_53_plus_1)
  also have "\<dots> = integrateEmission_for (Suc n) (constant_emitter (Fin c)) dsem cph co (Fin 9007199254740994)
      (Fin 2) (Fin 9007199254740992 + Fin 2) (Icur + Fin c * Fin 2) g"
    by (rule for_step [OF emission_constant_emitter]) simp
  also have "\<dots> = Some (Icur + Fin c * Fin 2, g)"
    by (rule for_exit) (simp add: rnd_2_53_plus_2)
  finally show ?thesis .
qed

text \<open>
  With the constant 1 the first refinement returns 2, as the first estimate: the test
  \<open>fabs(Icur-Iprev) > 1e-2 * Icur\<close> compares 0 with 0.02 and the call returns 2, the integral.
\<close>

lemma integrateEmission_positive_constant_example:
  "integrateEmission (Suc n) (constant_emitter (Fin 1)) g (Fin 9007199254740992) (Fin 9007199254740994) dsem cph co
   = Some (Fin 2, g)"
proof -
  have I0: "rnd (1 + 1) * Fin 4 * Fin (1 / 4) = Fin 2" by simp
  have "integrateEmission_do (Suc n) (constant_emitter (Fin 1)) dsem cph co (Fin 9007199254740992)
       (Fin 9007199254740994) (Fin 4) (Fin 2) g = Some ((Fin 2 + Fin 1 * Fin 2) * Fin (1 / 2), g)"
    by (rule do_exit [OF integrateEmission_example_for]) (simp add: rnd_one_hundredth rnd_two_hundredths)
  then show ?thesis unfolding integrateEmission_example_start I0 by simp
qed

text \<open>
  With the constant \<open>- 1\<close> the first refinement returns \<open>- 2\<close>, as the first estimate, and
  \<open>- 2\<close> is the integral. The test compares 0 with \<open>- 0.02\<close> and asks for a second
  refinement, whose inner loop does not end.
\<close>

lemma integrateEmission_negative_constant_example:
  "integrateEmission (Suc n) (constant_emitter (Fin (- 1))) g (Fin 9007199254740992)
     (Fin 9007199254740994) dsem cph co = None"
proof -
  let ?cls = "constant_emitter (Fin (- 1))"
  have I0: "rnd (- 1 + - 1) * Fin 4 * Fin (1 / 4) = Fin (- 2)" by simp
  have "integrateEmission_do (Suc n) ?cls dsem cph co (Fin 9007199254740992)
       (Fin 9007199254740994) (Fin 4) (Fin (- 2)) g
     = integrateEmission_do (Suc n) ?cls dsem cph co (Fin 9007199254740992)
       (Fin 9007199254740994) (Fin 4 * Fin (1 / 2)) ((Fin (- 2) + Fin (- 1) * Fin 2) * Fin (1 / 2)) g"
    by (rule do_again [OF integrateEmission_example_for])
       (simp add: rnd_one_hundredth rnd_minus_two_hundredths)
  also have "\<dots> = integrateEmission_do (Suc n) ?cls dsem cph co (Fin 9007199254740992)
       (Fin 9007199254740994) (Fin 2) (Fin (- 2)) g"
    by simp
  also have "\<dots> = None"
    by (subst integrateEmission_do.simps)
       (simp add: rnd_2_53_plus_half for_stuck [OF emission_constant_emitter])
  finally show ?thesis unfolding integrateEmission_example_start I0 .
qed

text \<open>
  C4. The band integral of a constant emission coefficient \<open>c\<close> is to be \<open>c\<close> times the
  width of the band within 1%, the same for either order of the bounds. With a negative
  constant the integrator misses it: the exit test \<open>fabs(Icur-Iprev) > 1e-2 * Icur\<close> has a
  negative right-hand side and never stops the refinement. For \<open>c = - 1\<close> on the band from
  \<open>2 ^ 53\<close> to \<open>2 ^ 53 + 2\<close> the call does not return, for either order of the bounds and
  every depth bound on the calls of \<open>emission\<close>.
\<close>

theorem integrateEmission_negative_constant_never_returns:
  "integrateEmission (Suc n) (constant_emitter (Fin (- 1))) g (Fin 9007199254740992)
     (Fin 9007199254740994) dsem cph co = None \<and>
   integrateEmission (Suc n) (constant_emitter (Fin (- 1))) g (Fin 9007199254740994)
     (Fin 9007199254740992) dsem cph co = None"
  by (simp only: integrateEmission_swap integrateEmission_negative_constant_example)

section \<open>The step-size policy and the output record\<close>

text \<open>
  Squares that exceed \<open>DBL_MAX\<close> overflow: at the Cartesian position \<open>(2 ^ 600, 0, 0)\<close> the
  radial distance computed is infinite, which is not below \<open>rMax = DBL_MAX\<close>, and its half
  is returned.
\<close>

lemma rnd_2_1200: "rnd (2 ^ 1200) = PInf"
  using rnd_binade [of 1200 "2 ^ 1200"] by (simp add: pow2_def round_half_even_def)

lemma deltaMax_cartesian_overflow:
  "deltaMax (set_metric (Some example_cartesian_metric) Generic_ctor)
     [Fin 0, Fin (2 ^ 600), Fin 0, Fin 0, Fin 1, Fin 0, Fin 0, Fin 0] = Inr PInf"
proof -
  have "Fin (2 ^ 600) * Fin (2 ^ 600) = PInf"
    unfolding dbl_fin_simps power_add [symmetric] using rnd_2_1200 by simp
  then show ?thesis
    by (simp add: deltaMax_def set_metric_def Generic_ctor_def example_cartesian_metric_def rMax_def
          DBL_MAX_def plus_dbl_def times_dbl_def less_dbl_def inf_of_sign_def)
qed

lemma sqrt_25: "sqrt 25 = 5" using real_sqrt_abs [of 5] by simp
lemma sqrt_400: "sqrt 400 = 20" using real_sqrt_abs [of 20] by simp

text \<open>
  C7. With a metric attached and an 8-component point, \<open>deltaMax\<close> takes for \<open>rr\<close> the
  radial coordinate when the metric is spherical and the Euclidean norm of the three
  position components when it is Cartesian, and returns \<open>deltaMaxInsideRMax\<close> when
  \<open>rr < rMax\<close> and half of \<open>rr\<close> otherwise. The norm is the one computed in double
  precision: the squares, their sums and the root are rounded one by one, and an overflow
  makes it infinite. When none of them is rounded, \<open>rr\<close> is the Euclidean norm
  \<open>sqrt (x * x + y * y + z * z)\<close> itself.
\<close>

theorem deltaMax_policy:
  assumes "length coord = 8" and "gg g = Some m"
  shows "(coordKind m = GYOTO_COORDKIND_SPHERICAL \<longrightarrow>
            deltaMax g coord =
              Inr (if coord ! 1 < rMax g then deltamaxinsidermax g else coord ! 1 * Fin (1 / 2))) \<and>
         (coordKind m = GYOTO_COORDKIND_CARTESIAN \<longrightarrow>
            deltaMax g coord =
              Inr (if dsqrt (coord ! 1 * coord ! 1 + coord ! 2 * coord ! 2 + coord ! 3 * coord ! 3)
                        < rMax g
                   then deltamaxinsidermax g
                   else dsqrt (coord ! 1 * coord ! 1 + coord ! 2 * coord ! 2 + coord ! 3 * coord ! 3)
                          * Fin (1 / 2))) \<and>
         (coordKind m = GYOTO_COORDKIND_CARTESIAN \<and>
          coord ! 1 = Fin x \<and> coord ! 2 = Fin y \<and> coord ! 3 = Fin z \<and>
          rnd (x * x) = Fin (x * x) \<and> rnd (y * y) = Fin (y * y) \<and> rnd (z * z) = Fin (z * z) \<and>
          rnd (x * x + y * y) = Fin (x * x + y * y) \<and>
          rnd (x * x + y * y + z * z) = Fin (x * x + y * y + z * z) \<and>
          rnd (sqrt (x * x + y * y + z * z)) = Fin (sqrt (x * x + y * y + z * z)) \<longrightarrow>
            deltaMax g coord =
              Inr (if Fin (sqrt (x * x + y * y + z * z)) < rMax g then deltamaxinsidermax g
                   else rnd (sqrt (x * x + y * y + z * z) / 2)))"
  using assms by (simp add: deltaMax_def)

text \<open>
  With \<open>rMax = 10\<close> and \<open>deltaMaxInsideRMax = 0.5\<close>: 0.5 at radius 5 and 10 at radius 20, in
  spherical coordinates and at the Cartesian positions \<open>(3, 4, 0)\<close> and \<open>(12, 16, 0)\<close>.
\<close>

theorem deltaMax_policy_witness:
  "length [Fin 0, Fin 5, Fin 1, Fin 0, Fin 1, Fin 0, Fin 0, Fin 0] = 8 \<and>
   gg (set_deltaMaxInsideRMax (Fin (1 / 2)) (set_rMax (Fin 10)
         (set_metric (Some example_spherical_metric) Generic_ctor)))
     = Some example_spherical_metric \<and>
   coordKind example_spherical_metric = GYOTO_COORDKIND_SPHERICAL \<and>
   deltaMax (set_deltaMaxInsideRMax (Fin (1 / 2)) (set_rMax (Fin 10)
         (set_metric (Some example_spherical_metric) Generic_ctor)))
       [Fin 0, Fin 5, Fin 1, Fin 0, Fin 1, Fin 0, Fin 0, Fin 0] = Inr (Fin (1 / 2)) \<and>
   deltaMax (set_deltaMaxInsideRMax (Fin (1 / 2)) (set_rMax (Fin 10)
         (set_metric (Some example_spherical_metric) Generic_ctor)))
       [Fin 0, Fin 20, Fin 1, Fin 0, Fin 1, Fin 0, Fin 0, Fin 0] = Inr (Fin 10) \<and>
   gg (set_deltaMaxInsideRMax (Fin (1 / 2)) (set_rMax (Fin 10)
         (set_metric (Some example_cartesian_metric) Generic_ctor)))
     = Some example_cartesian_metric \<and>
   coordKind example_cartesian_metric = GYOTO_COORDKIND_CARTESIAN \<and>
   rnd (3 * 3) = Fin (3 * 3) \<and> rnd (4 * 4) = Fin (4 * 4) \<and> rnd (0 * 0) = Fin (0 * 0) \<and>
   rnd (3 * 3 + 4 * 4) = Fin (3 * 3 + 4 * 4) \<and>
   rnd (3 * 3 + 4 * 4 + 0 * 0) = Fin (3 * 3 + 4 * 4 + 0 * 0) \<and>
   rnd (sqrt (3 * 3 + 4 * 4 + 0 * 0)) = Fin (sqrt (3 * 3 + 4 * 4 + 0 * 0)) \<and>
   sqrt (3 * 3 + 4 * 4 + 0 * 0) = 5 \<and>
   deltaMax (set_deltaMaxInsideRMax (Fin (1 / 2)) (set_rMax (Fin 10)
         (set_metric (Some example_cartesian_metric) Generic_ctor)))
       [Fin 0, Fin 3, Fin 4, Fin 0, Fin 1, Fin 0, Fin 0, Fin 0] = Inr (Fin (1 / 2)) \<and>
   deltaMax (set_deltaMaxInsideRMax (Fin (1 / 2)) (set_rMax (Fin 10)
         (set_metric (Some example_cartesian_metric) Generic_ctor)))
       [Fin 0, Fin 12, Fin 16, Fin 0, Fin 1, Fin 0, Fin 0, Fin 0] = Inr (Fin 10)"
proof -
  let ?g = "set_deltaMaxInsideRMax (Fin (1 / 2)) (set_rMax (Fin 10)
         (set_metric (Some example_spherical_metric) Generic_ctor))"
  let ?h = "set_deltaMaxInsideRMax (Fin (1 / 2)) (set_rMax (Fin 10)
         (set_metric (Some example_cartesian_metric) Generic_ctor))"
  have g: "gg ?g = Some example_spherical_metric"
    by (simp add: set_deltaMaxInsideRMax_def set_rMax_def set_metric_def)
  have h: "gg ?h = Some example_cartesian_metric"
    by (simp add: set_deltaMaxInsideRMax_def set_rMax_def set_metric_def)
  have k: "coordKind example_spherical_metric = GYOTO_COORDKIND_SPHERICAL"
    "coordKind example_cartesian_metric = GYOTO_COORDKIND_CARTESIAN"
    by (simp_all add: example_spherical_metric_def example_cartesian_metric_def)
  have r: "rMax ?g = Fin 10" "deltamaxinsidermax ?g = Fin (1 / 2)"
    "rMax ?h = Fin 10" "deltamaxinsidermax ?h = Fin (1 / 2)"
    by (simp_all add: rMax_def set_deltaMaxInsideRMax_def set_rMax_def set_metric_def)
  have 5: "length [Fin 0, Fin 5, Fin 1, Fin 0, Fin 1, Fin 0, Fin 0, Fin 0] = 8" by simp
  have 20: "length [Fin 0, Fin 20, Fin 1, Fin 0, Fin 1, Fin 0, Fin 0, Fin 0] = 8" by simp
  have 34: "length [Fin 0, Fin 3, Fin 4, Fin 0, Fin 1, Fin 0, Fin 0, Fin 0] = 8" by simp
  have 1216: "length [Fin 0, Fin 12, Fin 16, Fin 0, Fin 1, Fin 0, Fin 0, Fin 0] = 8" by simp
  show ?thesis
    using g h k r deltaMax_policy [OF 5 g] deltaMax_policy [OF 20 g]
      deltaMax_policy [OF 34 h, of 3 4 0] deltaMax_policy [OF 1216 h, of 12 16 0]
    by (simp add: sqrt_25 sqrt_400)
qed

text \<open>
  C10. \<open>operator+=\<close> moves every non-null slot forward by \<open>n\<close> doubles, the
  impact-coordinates slot by \<open>16 n\<close> doubles; a null slot stays null; nothing else
  changes; \<open>operator++\<close> is \<open>operator+=\<close> with 1.
\<close>

theorem operator_plus_eq_moves_slots:
  "intensity (operator_plus_eq p n) = map_option (\<lambda>a. a + n) (intensity p) \<and>
   time (operator_plus_eq p n) = map_option (\<lambda>a. a + n) (time p) \<and>
   distance (operator_plus_eq p n) = map_option (\<lambda>a. a + n) (distance p) \<and>
   first_dmin (operator_plus_eq p n) = map_option (\<lambda>a. a + n) (first_dmin p) \<and>
   redshift (operator_plus_eq p n) = map_option (\<lambda>a. a + n) (redshift p) \<and>
   nbcrosseqplane (operator_plus_eq p n) = map_option (\<lambda>a. a + n) (nbcrosseqplane p) \<and>
   spectrum (operator_plus_eq p n) = map_option (\<lambda>a. a + n) (spectrum p) \<and>
   stokesQ (operator_plus_eq p n) = map_option (\<lambda>a. a + n) (stokesQ p) \<and>
   stokesU (operator_plus_eq p n) = map_option (\<lambda>a. a + n) (stokesU p) \<and>
   stokesV (operator_plus_eq p n) = map_option (\<lambda>a. a + n) (stokesV p) \<and>
   binspectrum (operator_plus_eq p n) = map_option (\<lambda>a. a + n) (binspectrum p) \<and>
   impactcoords (operator_plus_eq p n) = map_option (\<lambda>a. a + 16 * n) (impactcoords p) \<and>
   user1 (operator_plus_eq p n) = map_option (\<lambda>a. a + n) (user1 p) \<and>
   user2 (operator_plus_eq p n) = map_option (\<lambda>a. a + n) (user2 p) \<and>
   user3 (operator_plus_eq p n) = map_option (\<lambda>a. a + n) (user3 p) \<and>
   user4 (operator_plus_eq p n) = map_option (\<lambda>a. a + n) (user4 p) \<and>
   user5 (operator_plus_eq p n) = map_option (\<lambda>a. a + n) (user5 p) \<and>
   offset (operator_plus_eq p n) = offset p \<and>
   first_dmin_found (operator_plus_eq p n) = first_dmin_found p \<and>
   intensity_converter (operator_plus_eq p n) = intensity_converter p \<and>
   spectrum_converter (operator_plus_eq p n) = spectrum_converter p \<and>
   binspectrum_converter (operator_plus_eq p n) = binspectrum_converter p \<and>
   alloc (operator_plus_eq p n) = alloc p \<and>
   operator_incr p = operator_plus_eq p 1"
  by (simp add: operator_plus_eq_def operator_incr_def advance_def map_option_case)

section \<open>The hit-quantity accumulator\<close>

lemma rbind_simps [simp]:
  "rbind (ok x) f = f x"
  "rbind (fail e) f = fail e"
  "rbind None f = None"
  "rbind (Some (Inr x)) f = f x"
  "rbind (Some (Inl e)) f = Some (Inl e)"
  by (simp_all add: rbind_def ok_def fail_def)

lemma lift_simps [simp]:
  "lift (Some x) = ok x"
  "lift None = None"
  by (simp_all add: lift_def ok_def)

lemma ok_fail_simps [simp]:
  "ok x \<noteq> fail e" "fail e \<noteq> ok x" "ok x \<noteq> None" "fail e \<noteq> None"
  "(ok x = ok y) = (x = y)" "(fail e = fail e') = (e = e')"
  "(ok x = Some (Inr y)) = (x = y)" "(Some (Inr y) = ok x) = (y = x)"
  "fail e \<noteq> Some (Inr y)" "Some (Inr y) \<noteq> fail e"
  by (auto simp add: ok_def fail_def)

lemma rbind_okE:
  assumes "rbind m f = Some (Inr y)"
  obtains x where "m = Some (Inr x)" and "f x = Some (Inr y)"
  using assms by (auto simp add: rbind_def split: option.splits sum.splits)

lemma lift_okE:
  assumes "lift m = Some (Inr y)"
  shows "m = Some y"
  using assms by (auto simp add: lift_def split: option.splits)

lemma photon_extends_refl [simp]: "photon_extends p p"
  by (simp add: photon_extends_def)

lemma photon_extends_trans:
  "photon_extends p q \<Longrightarrow> photon_extends q r \<Longrightarrow> photon_extends p r"
  unfolding photon_extends_def
  by (metis (no_types, lifting) photon.surjective photon.update_convs(5) prefix_order.order_trans)

lemma photon_extends_transmit [simp]: "photon_extends p (transmit i t p)"
  by (simp add: photon_extends_def transmit_def)

lemma photon_extends_transfer [simp]: "photon_extends p (transfer out p)"
  by (simp add: photon_extends_def transfer_def)

lemma photon_extends_freqObs: "photon_extends p q \<Longrightarrow> freqObs q = freqObs p"
  unfolding photon_extends_def
  by (metis photon.select_convs(1) photon.surjective photon.update_convs(5))

lemma phq_impactcoords_photon:
  "phq_impactcoords d cph co s = Some (Inr s') \<Longrightarrow> hs_photon s' = hs_photon s"
  by (auto simp add: phq_impactcoords_def split: option.splits if_splits)

lemma phq_intensity_photon:
  "phq_intensity fuel cls d ggredm1 ggred dsem cph co s = Some (Inr s') \<Longrightarrow> hs_photon s' = hs_photon s"
  by (auto simp add: phq_intensity_def Let_def split: option.splits if_splits elim!: rbind_okE)

lemma phq_binspectrum_loop_photon:
  "phq_binspectrum_loop fuel cls d a I nuobs ggredm1 ggred dsem cph co is s = Some (Inr s')
   \<Longrightarrow> photon_extends (hs_photon s) (hs_photon s')"
proof (induction "is" arbitrary: s)
  case Nil
  then show ?case by simp
next
  case (Cons ii "is")
  show ?case
  proof (cases "spectrum d = None")
    case True
    with Cons.prems obtain t g1 where
      "phq_binspectrum_loop fuel cls d a I nuobs ggredm1 ggred dsem cph co is
         (s\<lparr>hs_memory := add_at (a + int ii * offset d)
              (convert_with (binspectrum_converter d)
                 (I ! ii * getTransmission (hs_photon s) (Some ii) * ggred * ggred * ggred * ggred))
              (hs_memory s),
            hs_photon := transmit (Some ii) t (hs_photon s), hs_object := g1\<rparr>) = Some (Inr s')"
      by (auto simp add: Let_def elim!: rbind_okE)
    from Cons.IH [OF this] have "photon_extends (transmit (Some ii) t (hs_photon s)) (hs_photon s')"
      by simp
    then show ?thesis by (rule photon_extends_trans [OF photon_extends_transmit])
  next
    case False
    with Cons.prems show ?thesis by (auto simp add: Let_def dest!: Cons.IH)
  qed
qed

lemma phq_binspectrum_photon:
  "phq_binspectrum fuel cls d ggredm1 ggred dsem cph co s = Some (Inr s')
   \<Longrightarrow> photon_extends (hs_photon s) (hs_photon s')"
  by (auto simp add: phq_binspectrum_def Let_def split: option.splits
        elim!: rbind_okE dest!: phq_binspectrum_loop_photon)

lemma fold_unpolarized_photon:
  "hs_photon s = p \<Longrightarrow>
   photon_extends p (hs_photon (fold (phq_unpolarized_step d a I Taunu ggred) is s))"
proof (induction "is" arbitrary: s p)
  case Nil
  then show ?case by simp
next
  case (Cons ii "is")
  have "photon_extends (hs_photon s) (hs_photon (phq_unpolarized_step d a I Taunu ggred ii s))"
    by (simp add: phq_unpolarized_step_def Let_def)
  moreover have "photon_extends (hs_photon (phq_unpolarized_step d a I Taunu ggred ii s))
      (hs_photon (fold (phq_unpolarized_step d a I Taunu ggred) is
         (phq_unpolarized_step d a I Taunu ggred ii s)))"
    by (rule Cons.IH) (rule refl)
  ultimately show ?case
    using Cons.prems by (auto intro: photon_extends_trans)
qed

lemma phq_spectrum_photon:
  "phq_spectrum fuel cls d ggredm1 ggred dsem cph co s = Some (Inr s')
   \<Longrightarrow> photon_extends (hs_photon s) (hs_photon s')"
  by (auto simp add: phq_spectrum_def Let_def split: option.splits if_splits
        elim!: rbind_okE intro!: fold_unpolarized_photon)


lemma phq_transmit_okE:
  assumes "phq_transmit fuel cls ggredm1 dsem cph co s = Some (Inr s')"
  obtains t where
    "transmission fuel cls (hs_object s) (freqObs (hs_photon s) * ggredm1) dsem cph co
       = Some (t, hs_object s')"
    and "hs_photon s' = transmit None t (hs_photon s)"
    and "hs_memory s' = hs_memory s"
  using assms
  by (auto simp add: phq_transmit_def elim!: rbind_okE dest!: lift_okE)

lemma processHitQuantities_okE:
  assumes "processHitQuantities fuel cls g p cph co dt (Some d) m = Some (Inr s')"
    and "gg g = Some metr"
  obtains s4 where
    "photon_extends p (hs_photon s4)"
    and "phq_transmit fuel cls (hit_ggredm1 g metr cph co) (hit_dsem g metr cph co dt) cph co s4
           = Some (Inr s')"
proof -
  let ?ggredm1 = "hit_ggredm1 g metr cph co"
  let ?ggred = "Fin 1 / ?ggredm1"
  let ?dsem = "hit_dsem g metr cph co dt"
  let ?s = "\<lparr> hs_photon = p, hs_memory = m, hs_object = g \<rparr>"
  from assms obtain s1 s2 s3 s4 where
    1: "phq_impactcoords d cph co (phq_redshift_time d ?ggred cph ?s) = Some (Inr s1)"
    and 2: "phq_intensity fuel cls d ?ggredm1 ?ggred ?dsem cph co s1 = Some (Inr s2)"
    and 3: "phq_binspectrum fuel cls d ?ggredm1 ?ggred ?dsem cph co s2 = Some (Inr s3)"
    and 4: "phq_spectrum fuel cls d ?ggredm1 ?ggred ?dsem cph co s3 = Some (Inr s4)"
    and 5: "phq_transmit fuel cls ?ggredm1 ?dsem cph co s4 = Some (Inr s')"
    by (auto simp add: processHitQuantities_def Let_def split: if_splits elim!: rbind_okE)
  from 1 have "hs_photon s1 = p"
    by (auto dest!: phq_impactcoords_photon simp add: phq_redshift_time_def)
  moreover from 2 have "hs_photon s2 = hs_photon s1" by (rule phq_intensity_photon)
  moreover from 3 have "photon_extends (hs_photon s2) (hs_photon s3)" by (rule phq_binspectrum_photon)
  moreover from 4 have "photon_extends (hs_photon s3) (hs_photon s4)" by (rule phq_spectrum_photon)
  ultimately have "photon_extends p (hs_photon s4)"
    by (auto intro: photon_extends_trans)
  then show ?thesis using 5 by (rule that)
qed

text \<open>
  C6, amended. When \<open>processHitQuantities\<close> is given an output record (\<open>data\<close> is not
  null) and returns normally, then, whatever slots were requested, its last action is
  one more call of the scalar transmission at \<open>freqObs * ggredm1\<close> (the observed
  frequency in the emitter's frame) whose result is passed to \<open>transmit\<close> for the whole
  ray: the calls received by the photon are those it had, then those of the slot
  branches, then this one.
\<close>

theorem final_transmission_update:
  assumes "processHitQuantities fuel cls g p coord_ph_hit coord_obj_hit dt (Some d) m = Some (Inr s')"
    and "gg g = Some metr"
  shows "\<exists>p4 g4 t.
           photon_extends p p4 \<and>
           transmission fuel cls g4 (freqObs p * hit_ggredm1 g metr coord_ph_hit coord_obj_hit)
             (hit_dsem g metr coord_ph_hit coord_obj_hit dt) coord_ph_hit coord_obj_hit
               = Some (t, hs_object s') \<and>
           calls (hs_photon s') = calls p4 @ [Transmit None t]"
proof -
  from assms obtain s4 where e: "photon_extends p (hs_photon s4)"
    and t: "phq_transmit fuel cls (hit_ggredm1 g metr coord_ph_hit coord_obj_hit)
              (hit_dsem g metr coord_ph_hit coord_obj_hit dt) coord_ph_hit coord_obj_hit s4
           = Some (Inr s')"
    by (rule processHitQuantities_okE)
  from t obtain t where
    "transmission fuel cls (hs_object s4)
       (freqObs (hs_photon s4) * hit_ggredm1 g metr coord_ph_hit coord_obj_hit)
       (hit_dsem g metr coord_ph_hit coord_obj_hit dt) coord_ph_hit coord_obj_hit
       = Some (t, hs_object s')"
    and "hs_photon s' = transmit None t (hs_photon s4)"
    by (rule phq_transmit_okE)
  with e photon_extends_freqObs [OF e] show ?thesis
    by (auto simp add: transmit_def)
qed


lemmas dispatch_simps = transmission.simps emission.simps emission_vector.simps
  radiativeQ.simps radiativeQ_polar.simps

lemma seven: "(7::nat) = Suc (Suc (Suc (Suc (Suc (Suc (Suc 0))))))"
  by simp

lemma example_ggredm1: "hit_ggredm1 example_object example_spherical_metric example_coord example_coord = Fin 1"
  by (simp add: hit_ggredm1_def example_object_def example_spherical_metric_def example_coord_def
        set_metric_def Generic_ctor_def)

lemma example_dsem: "hit_dsem example_object example_spherical_metric example_coord example_coord (Fin 2) = Fin 2"
  by (simp add: hit_dsem_def example_ggredm1) (simp add: example_coord_def)

lemma example_emission:
  "emission 7 bare_generic example_object (Fin 1) (Fin 2) example_coord example_coord
     = Some (Fin 1, example_object\<lparr>defaultfeatures := 7\<rparr>)"
  unfolding seven
  by (simp add: dispatch_simps bare_generic_def has_def set_feature_def
            example_object_def set_metric_def Generic_ctor_def Let_def
            default_radiativeQ_def default_radiativeQ_polar_def default_emission_vector_def)

lemma example_transmission:
  "transmission 7 bare_generic (example_object\<lparr>defaultfeatures := 7\<rparr>) (Fin 1) (Fin 2)
       example_coord example_coord
     = Some (Fin 0, example_object\<lparr>defaultfeatures := 7\<rparr>)"
  unfolding seven
  by (simp add: dispatch_simps bare_generic_def has_def set_feature_def
            example_object_def set_metric_def Generic_ctor_def Let_def double_of_bool_def
            default_radiativeQ_def default_radiativeQ_polar_def default_emission_vector_def)


lemma example_gg: "gg example_object = Some example_spherical_metric"
  by (simp add: example_object_def set_metric_def)

lemma example_length: "length example_coord = 8"
  by (simp add: example_coord_def)

text \<open>
  C6, as stated, fails: without an output record (\<open>data\<close> null) the call returns and
  the photon has received no call of \<open>transmit\<close>.
\<close>

theorem final_transmission_update_counterexample:
  "processHitQuantities 7 bare_generic example_object example_photon example_coord example_coord
      (Fin 2) None (\<lambda>a. Fin 0)
     = Some (Inr \<lparr> hs_photon = example_photon, hs_memory = (\<lambda>a. Fin 0),
                   hs_object = example_object \<rparr>) \<and>
   calls example_photon = []"
  by (simp add: processHitQuantities_def example_gg example_length Let_def ok_def
        example_photon_def)

lemma example_hit:
  "processHitQuantities 7 bare_generic example_object example_photon example_coord example_coord
      (Fin 2) (Some (Properties_ctor\<lparr>intensity := Some 0, time := Some 1\<rparr>)) (\<lambda>a. Fin 0)
   = Some (Inr \<lparr> hs_photon = example_photon\<lparr>calls := [Transmit None (Fin 0)]\<rparr>,
                 hs_memory = (\<lambda>a. Fin 0)(1 := Fin 0, 0 := Fin 1),
                 hs_object = example_object\<lparr>defaultfeatures := 7\<rparr> \<rparr>)"
proof -
  have p: "freqObs example_photon = Fin 1" "getTransmission example_photon None = Fin 1"
    "spectro example_photon = None"
    by (simp_all add: example_photon_def getTransmission_def)
  have c: "example_coord ! 0 = Fin 0" by (simp add: example_coord_def)
  show ?thesis
    by (simp add: processHitQuantities_def example_gg example_length Let_def
          example_ggredm1 example_dsem phq_redshift_time_def phq_impactcoords_def
          phq_intensity_def phq_binspectrum_def phq_spectrum_def phq_transmit_def
          Properties_ctor_def store_opt_def p c example_emission example_transmission
          convert_with_def add_at_def transmit_def)
       (simp add: ok_def example_photon_def)
qed

theorem final_transmission_update_witness:
  "processHitQuantities 7 bare_generic example_object example_photon example_coord example_coord
      (Fin 2) (Some (Properties_ctor\<lparr>intensity := Some 0, time := Some 1\<rparr>)) (\<lambda>a. Fin 0)
   = Some (Inr \<lparr> hs_photon = example_photon\<lparr>calls := [Transmit None (Fin 0)]\<rparr>,
                 hs_memory = (\<lambda>a. Fin 0)(1 := Fin 0, 0 := Fin 1),
                 hs_object = example_object\<lparr>defaultfeatures := 7\<rparr> \<rparr>) \<and>
   gg example_object = Some example_spherical_metric \<and>
   (\<exists>p4 g4 t.
       photon_extends example_photon p4 \<and>
       transmission 7 bare_generic g4
         (freqObs example_photon *
            hit_ggredm1 example_object example_spherical_metric example_coord example_coord)
         (hit_dsem example_object example_spherical_metric example_coord example_coord (Fin 2))
         example_coord example_coord
           = Some (t, example_object\<lparr>defaultfeatures := 7\<rparr>) \<and>
       [Transmit None (Fin 0)] = calls p4 @ [Transmit None t])"
  using example_hit example_gg final_transmission_update [OF example_hit example_gg]
  by simp

subsection \<open>The impact coordinates\<close>

lemma memcpy_Suc:
  "memcpy dst src (Suc n) m = (memcpy dst src n m)(dst + int n := src ! n)"
  by (simp add: memcpy_def)

lemma memcpy_read: "i < n \<Longrightarrow> memcpy dst src n m (dst + int i) = src ! i"
proof (induction n)
  case 0
  then show ?case by simp
next
  case (Suc n)
  then show ?case by (cases "i = n") (simp_all add: memcpy_Suc)
qed

lemma memcpy_other: "x < dst \<or> dst + int n \<le> x \<Longrightarrow> memcpy dst src n m x = m x"
proof (induction n)
  case 0
  show ?case by (simp add: memcpy_def)
next
  case (Suc n)
  then show ?case by (auto simp add: memcpy_Suc)
qed

lemma phq_binspectrum_loop_impactcoords:
  "phq_binspectrum_loop fuel cls (d\<lparr>impactcoords := x\<rparr>) a I nuobs ggredm1 ggred dsem cph co is s
   = phq_binspectrum_loop fuel cls d a I nuobs ggredm1 ggred dsem cph co is s"
  by (induction "is" arbitrary: s) (simp_all add: Let_def)

lemma phq_polarized_write_impactcoords:
  "phq_polarized_write (d\<lparr>impactcoords := x\<rparr>) = phq_polarized_write d"
  by (intro ext) (simp add: phq_polarized_write_def Let_def split: option.split)

lemma phq_unpolarized_step_impactcoords:
  "phq_unpolarized_step (d\<lparr>impactcoords := x\<rparr>) = phq_unpolarized_step d"
  by (intro ext) (simp add: phq_unpolarized_step_def Let_def)

lemma phq_blocks_impactcoords:
  "phq_redshift_time (d\<lparr>impactcoords := x\<rparr>) = phq_redshift_time d"
  "phq_intensity fuel cls (d\<lparr>impactcoords := x\<rparr>) = phq_intensity fuel cls d"
  "phq_binspectrum fuel cls (d\<lparr>impactcoords := x\<rparr>) = phq_binspectrum fuel cls d"
  "phq_spectrum fuel cls (d\<lparr>impactcoords := x\<rparr>) = phq_spectrum fuel cls d"
proof -
  show "phq_redshift_time (d\<lparr>impactcoords := x\<rparr>) = phq_redshift_time d"
    by (intro ext) (simp add: phq_redshift_time_def)
  show "phq_intensity fuel cls (d\<lparr>impactcoords := x\<rparr>) = phq_intensity fuel cls d"
    by (intro ext) (simp add: phq_intensity_def split: option.split)
  show "phq_binspectrum fuel cls (d\<lparr>impactcoords := x\<rparr>) = phq_binspectrum fuel cls d"
    by (intro ext)
      (simp add: phq_binspectrum_def phq_binspectrum_loop_impactcoords split: option.split)
  show "phq_spectrum fuel cls (d\<lparr>impactcoords := x\<rparr>) = phq_spectrum fuel cls d"
    by (intro ext)
      (simp add: phq_spectrum_def phq_polarized_write_impactcoords
         phq_unpolarized_step_impactcoords cong: option.case_cong if_cong)
qed

lemma redshift_time_keeps:
  "redshift d \<noteq> Some a \<Longrightarrow> time d \<noteq> Some a \<Longrightarrow>
   hs_memory (phq_redshift_time d ggred cph s) a = hs_memory s a"
  by (simp add: phq_redshift_time_def store_opt_def split: option.split)

lemma fill_opt_read:
  "i < n \<Longrightarrow> fill_opt (Some a) n 1 v m (a + int i) = v"
proof (induction n)
  case 0
  then show ?case by simp
next
  case (Suc n)
  then show ?case by (cases "i = n") (simp_all add: fill_opt_def)
qed

lemma store_opt_other:
  "p \<noteq> Some x \<Longrightarrow> store_opt p v m x = m x"
  by (simp add: store_opt_def split: option.split)

text \<open>
  \<open>Properties::init\<close> leaves the sentinel \<open>DBL_MAX\<close> in the 16 doubles of the
  impact-coordinates slot (when none of the user slots points into them).
\<close>

lemma init_writes_sentinel:
  assumes "impactcoords p = Some a" and "i < 16"
    and "user1 p \<noteq> Some (a + int i)" and "user2 p \<noteq> Some (a + int i)"
    and "user3 p \<noteq> Some (a + int i)" and "user4 p \<noteq> Some (a + int i)"
    and "user5 p \<noteq> Some (a + int i)"
  shows "snd (init p nbnuobs m) (a + int i) = DBL_MAX"
  using assms by (simp add: init_def Let_def store_opt_other fill_opt_read)

text \<open>
  C5. When the impact-coordinates slot is requested (and is not the redshift or the time
  slot): if its first double no longer holds the sentinel \<open>DBL_MAX\<close>, the call behaves as
  if the slot had not been requested (nothing is written to it, and no error is raised
  for a 16-component photon state); if it holds the sentinel and the photon state has
  more than 8 components, the call raises the error; if it holds the sentinel and the
  photon state has 8 components, the 8 object coordinates then the 8 photon coordinates
  are copied to the slot.
\<close>

theorem impactcoords_written_once:
  assumes "8 \<le> length coord_ph_hit" and "8 \<le> length coord_obj_hit" and "gg g = Some metr"
    and "impactcoords d = Some a" and "redshift d \<noteq> Some a" and "time d \<noteq> Some a"
  shows "(m a \<noteq> DBL_MAX \<longrightarrow>
            processHitQuantities fuel cls g p coord_ph_hit coord_obj_hit dt (Some d) m
            = processHitQuantities fuel cls g p coord_ph_hit coord_obj_hit dt
                (Some (d\<lparr>impactcoords := None\<rparr>)) m) \<and>
         (m a = DBL_MAX \<and> 8 < length coord_ph_hit \<longrightarrow>
            processHitQuantities fuel cls g p coord_ph_hit coord_obj_hit dt (Some d) m
            = fail (GyotoError ''ImpactCoords is incompatible with parallel transport'')) \<and>
         (hs_memory s a = DBL_MAX \<and> length coord_ph_hit = 8 \<longrightarrow>
            (\<exists>s'. phq_impactcoords d coord_ph_hit coord_obj_hit s = ok s' \<and>
                  (\<forall>i<8. hs_memory s' (a + int i) = coord_obj_hit ! i \<and>
                          hs_memory s' (a + 8 + int i) = coord_ph_hit ! i) \<and>
                  hs_photon s' = hs_photon s \<and> hs_object s' = hs_object s))"
proof (intro conjI impI)
  let ?s = "\<lparr> hs_photon = p, hs_memory = m, hs_object = g \<rparr>"
  have k: "hs_memory (phq_redshift_time d ggred coord_ph_hit ?s) a = m a" for ggred
    using assms(5,6) by (simp add: redshift_time_keeps)
  {
    assume "m a \<noteq> DBL_MAX"
    then have "phq_impactcoords d coord_ph_hit coord_obj_hit
                 (phq_redshift_time d ggred coord_ph_hit ?s)
               = ok (phq_redshift_time d ggred coord_ph_hit ?s)" for ggred
      using assms(4) k by (simp add: phq_impactcoords_def)
    moreover have "phq_impactcoords (d\<lparr>impactcoords := None\<rparr>) coord_ph_hit coord_obj_hit s0
               = ok s0" for s0
      by (simp add: phq_impactcoords_def)
    ultimately show "processHitQuantities fuel cls g p coord_ph_hit coord_obj_hit dt (Some d) m
            = processHitQuantities fuel cls g p coord_ph_hit coord_obj_hit dt
                (Some (d\<lparr>impactcoords := None\<rparr>)) m"
      using assms(1,2,3) by (simp add: processHitQuantities_def Let_def phq_blocks_impactcoords)
  }
  {
    assume "m a = DBL_MAX \<and> 8 < length coord_ph_hit"
    then have "phq_impactcoords d coord_ph_hit coord_obj_hit
                 (phq_redshift_time d ggred coord_ph_hit ?s)
               = fail (GyotoError ''ImpactCoords is incompatible with parallel transport'')" for ggred
      using assms(4) k by (simp add: phq_impactcoords_def)
    then show "processHitQuantities fuel cls g p coord_ph_hit coord_obj_hit dt (Some d) m
            = fail (GyotoError ''ImpactCoords is incompatible with parallel transport'')"
      using assms(1,2,3) by (simp add: processHitQuantities_def Let_def)
  }
  {
    assume h: "hs_memory s a = DBL_MAX \<and> length coord_ph_hit = 8"
    let ?m' = "memcpy (a + 8) coord_ph_hit 8 (memcpy a coord_obj_hit 8 (hs_memory s))"
    have "?m' (a + int i) = coord_obj_hit ! i \<and> ?m' (a + 8 + int i) = coord_ph_hit ! i"
      if "i < 8" for i
      using that by (simp add: memcpy_read memcpy_other)
    then show "\<exists>s'. phq_impactcoords d coord_ph_hit coord_obj_hit s = ok s' \<and>
                  (\<forall>i<8. hs_memory s' (a + int i) = coord_obj_hit ! i \<and>
                          hs_memory s' (a + 8 + int i) = coord_ph_hit ! i) \<and>
                  hs_photon s' = hs_photon s \<and> hs_object s' = hs_object s"
      using h assms(4) by (simp add: phq_impactcoords_def)
  }
qed


lemma DBL_MAX_not_zero: "DBL_MAX \<noteq> Fin 0"
  by (simp add: DBL_MAX_def)

theorem impactcoords_written_once_witness:
  "8 \<le> length example_coord \<and> 8 \<le> length (example_coord @ example_coord) \<and>
   gg example_object = Some example_spherical_metric \<and>
   impactcoords (Properties_ctor\<lparr>impactcoords := Some 0\<rparr>) = Some 0 \<and>
   redshift (Properties_ctor\<lparr>impactcoords := Some 0\<rparr>) \<noteq> Some 0 \<and>
   time (Properties_ctor\<lparr>impactcoords := Some 0\<rparr>) \<noteq> Some 0 \<and>
   (\<lambda>a. Fin 0) (0::int) \<noteq> DBL_MAX \<and>
   processHitQuantities 7 bare_generic example_object example_photon example_coord example_coord
       (Fin 2) (Some (Properties_ctor\<lparr>impactcoords := Some 0\<rparr>)) (\<lambda>a. Fin 0)
     = processHitQuantities 7 bare_generic example_object example_photon example_coord example_coord
       (Fin 2) (Some (Properties_ctor\<lparr>impactcoords := Some 0, impactcoords := None\<rparr>)) (\<lambda>a. Fin 0) \<and>
   (\<lambda>a. DBL_MAX) (0::int) = DBL_MAX \<and> 8 < length (example_coord @ example_coord) \<and>
   processHitQuantities 7 bare_generic example_object example_photon
       (example_coord @ example_coord) example_coord
       (Fin 2) (Some (Properties_ctor\<lparr>impactcoords := Some 0\<rparr>)) (\<lambda>a. DBL_MAX)
     = fail (GyotoError ''ImpactCoords is incompatible with parallel transport'') \<and>
   (\<exists>s'. phq_impactcoords (Properties_ctor\<lparr>impactcoords := Some 0\<rparr>) example_coord example_coord
            \<lparr> hs_photon = example_photon, hs_memory = (\<lambda>a. DBL_MAX), hs_object = example_object \<rparr>
          = ok s' \<and>
         (\<forall>i<8. hs_memory s' (0 + int i) = example_coord ! i \<and>
                 hs_memory s' (0 + 8 + int i) = example_coord ! i))"
proof -
  let ?d = "Properties_ctor\<lparr>impactcoords := Some 0\<rparr>"
  let ?s = "\<lparr> hs_photon = example_photon, hs_memory = (\<lambda>a. DBL_MAX), hs_object = example_object \<rparr>"
  have l: "8 \<le> length example_coord" "8 \<le> length (example_coord @ example_coord)"
    by (simp_all add: example_length)
  have d: "impactcoords ?d = Some 0" "redshift ?d \<noteq> Some 0" "time ?d \<noteq> Some 0"
    by (simp_all add: Properties_ctor_def)
  note a = impactcoords_written_once [OF l(1) l(1) example_gg d,
      of "\<lambda>a. Fin 0" 7 bare_generic example_photon "Fin 2" ?s]
  note b = impactcoords_written_once [OF l(2) l(1) example_gg d,
      of "\<lambda>a. DBL_MAX" 7 bare_generic example_photon "Fin 2" ?s]
  show ?thesis
    using l d example_gg a b
    by (simp add: DBL_MAX_not_zero DBL_MAX_not_zero [symmetric] example_length) blast
qed

subsection \<open>When the accumulator returns\<close>

lemma phq_impactcoords_returns:
  assumes "impactcoords d = None \<or> length cph = 8"
  shows "\<exists>s'. phq_impactcoords d cph co s = ok s' \<and> hs_object s' = hs_object s \<and>
              hs_photon s' = hs_photon s"
  using assms by (auto simp add: phq_impactcoords_def split: option.split)

lemma phq_intensity_returns:
  assumes "consistent cls (hs_object s)" and "7 \<le> fuel"
  shows "\<exists>s'. phq_intensity fuel cls d ggredm1 ggred dsem cph co s = ok s' \<and>
              consistent cls (hs_object s') \<and> hs_photon s' = hs_photon s"
proof -
  from assms(2) obtain n where n: "fuel = Suc (Suc (Suc (Suc (Suc (Suc (Suc n))))))"
    using fuel_ge7 by blast
  from emission_general [OF assms(1), of n "freqObs (hs_photon s) * ggredm1" dsem cph co]
  obtain g' where "emission fuel cls (hs_object s) (freqObs (hs_photon s) * ggredm1) dsem cph co
      = Some (emission_value cls (flag_radtransf (hs_object s)) (freqObs (hs_photon s) * ggredm1)
                dsem cph co, g')"
    and "consistent cls g'"
    unfolding n by blast
  with assms(1) show ?thesis
    by (simp add: phq_intensity_def Let_def split: option.split)
qed

lemma phq_spectrum_returns:
  assumes "consistent cls (hs_object s)" and "7 \<le> fuel"
    and "spectrum d \<noteq> None \<or> parallelTransport (hs_photon s) \<or> spectro (hs_photon s) = None \<or>
         (stokesQ d = None \<and> stokesU d = None \<and> stokesV d = None)"
  shows "\<exists>s'. phq_spectrum fuel cls d ggredm1 ggred dsem cph co s = ok s' \<and>
              consistent cls (hs_object s')"
proof -
  from assms(2) obtain n where n: "fuel = Suc (Suc (Suc (Suc (Suc (Suc (Suc n))))))"
    using fuel_ge7 by blast
  define nuem where "nuem = map (\<lambda>nu. nu * ggredm1)
      (case spectro (hs_photon s) of None \<Rightarrow> [] | Some spr \<Rightarrow> midpoints spr)"
  from radiativeQ_polar_general [OF assms(1), of "Suc (Suc (Suc n))" nuem dsem cph co]
  obtain g1 where p: "radiativeQ_polar fuel cls (hs_object s) nuem dsem cph co
      = Some (polarized_leaf cls (flag_radtransf (hs_object s)) nuem dsem cph co, g1)"
    and c1: "consistent cls g1"
    unfolding n by blast
  from radiativeQ_general [OF assms(1), of "Suc (Suc n)" nuem dsem cph co]
  obtain g2 where r: "radiativeQ fuel cls (hs_object s) nuem dsem cph co
      = Some (unpolarized_value cls (flag_radtransf (hs_object s)) nuem dsem cph co, g2)"
    and c2: "consistent cls g2"
    unfolding n by blast
  have fo: "hs_object (fold (phq_unpolarized_step d a I Taunu ggred) is s0) = hs_object s0"
    for a I Taunu "is" s0
    by (induction "is" arbitrary: s0) (simp_all add: phq_unpolarized_step_def Let_def)
  show ?thesis
    using assms(1,3) p c1 r c2
    by (auto simp add: phq_spectrum_def Let_def nuem_def [symmetric] fo
          split: option.split prod.split)
qed

lemma phq_transmit_returns:
  assumes "consistent cls (hs_object s)" and "7 \<le> fuel"
  shows "\<exists>s'. phq_transmit fuel cls ggredm1 dsem cph co s = ok s'"
proof -
  from assms(2) obtain n where n: "fuel = Suc (Suc (Suc (Suc (Suc (Suc (Suc n))))))"
    using fuel_ge7 by blast
  from transmission_general [OF assms(1), of "Suc n" "freqObs (hs_photon s) * ggredm1" dsem cph co]
  obtain g' where "transmission fuel cls (hs_object s) (freqObs (hs_photon s) * ggredm1) dsem cph co
      = Some (transmission_value cls (flag_radtransf (hs_object s))
                (freqObs (hs_photon s) * ggredm1) dsem cph co, g')"
    unfolding n by blast
  then show ?thesis
    by (simp add: phq_transmit_def)
qed

text \<open>
  When no binned spectrum is requested and no error is met, \<open>processHitQuantities\<close>
  returns as soon as seven nested calls of the primitives are allowed.
\<close>

lemma processHitQuantities_returns:
  assumes "7 \<le> fuel" and "consistent cls g"
    and "8 \<le> length coord_ph_hit" and "8 \<le> length coord_obj_hit" and "gg g = Some metr"
    and "binspectrum d = None"
    and "impactcoords d = None \<or> length coord_ph_hit = 8"
    and "spectrum d \<noteq> None \<or> parallelTransport p \<or> spectro p = None \<or>
         (stokesQ d = None \<and> stokesU d = None \<and> stokesV d = None)"
  shows "\<exists>s'. processHitQuantities fuel cls g p coord_ph_hit coord_obj_hit dt (Some d) m
               = Some (Inr s')"
proof -
  let ?ggredm1 = "hit_ggredm1 g metr coord_ph_hit coord_obj_hit"
  let ?ggred = "Fin 1 / ?ggredm1"
  let ?dsem = "hit_dsem g metr coord_ph_hit coord_obj_hit dt"
  let ?s = "\<lparr> hs_photon = p, hs_memory = m, hs_object = g \<rparr>"
  from phq_impactcoords_returns [OF assms(7), of coord_obj_hit
      "phq_redshift_time d ?ggred coord_ph_hit ?s"]
  obtain s1 where 1: "phq_impactcoords d coord_ph_hit coord_obj_hit
      (phq_redshift_time d ?ggred coord_ph_hit ?s) = ok s1"
    and o1: "hs_object s1 = g" and p1: "hs_photon s1 = p"
    by (auto simp add: phq_redshift_time_def)
  from assms(2) o1 have "consistent cls (hs_object s1)" by simp
  from phq_intensity_returns [OF this assms(1), of d ?ggredm1 ?ggred ?dsem coord_ph_hit coord_obj_hit]
  obtain s2 where 2: "phq_intensity fuel cls d ?ggredm1 ?ggred ?dsem coord_ph_hit coord_obj_hit s1
      = ok s2"
    and c2: "consistent cls (hs_object s2)" and p2: "hs_photon s2 = hs_photon s1"
    by blast
  have 3: "phq_binspectrum fuel cls d ?ggredm1 ?ggred ?dsem coord_ph_hit coord_obj_hit s2 = ok s2"
    using assms(6) by (simp add: phq_binspectrum_def)
  from assms(8) p1 p2
  have "spectrum d \<noteq> None \<or> parallelTransport (hs_photon s2) \<or> spectro (hs_photon s2) = None \<or>
         (stokesQ d = None \<and> stokesU d = None \<and> stokesV d = None)"
    by simp
  from phq_spectrum_returns [OF c2 assms(1) this, of ?ggredm1 ?ggred ?dsem coord_ph_hit coord_obj_hit]
  obtain s4 where 4: "phq_spectrum fuel cls d ?ggredm1 ?ggred ?dsem coord_ph_hit coord_obj_hit s2
      = ok s4"
    and c4: "consistent cls (hs_object s4)"
    by blast
  from phq_transmit_returns [OF c4 assms(1), of ?ggredm1 ?dsem coord_ph_hit coord_obj_hit]
  obtain s5 where 5: "phq_transmit fuel cls ?ggredm1 ?dsem coord_ph_hit coord_obj_hit s4 = ok s5"
    by blast
  from assms(3,4,5) 1 2 3 4 5 show ?thesis
    by (simp add: processHitQuantities_def Let_def ok_def)
qed

subsection \<open>The capability bits through the integrator and the accumulator\<close>

lemma integrateEmission_for_grows:
  assumes "integrateEmission_for fuel cls dsem cph co nu2 dnux2 nu Icur g = Some y"
  shows "grows g (snd y)"
proof -
  define P where "P = (\<lambda>(fu::nat) (cl::astrobj_class) (ds::dbl) (cp::state_t) (c0::dbl list)
      (n2::dbl) (dn::dbl) (n::dbl) (ic::dbl) (g0::generic) (y0::dbl \<times> generic). grows g0 (snd y0))"
  have "P fuel cls dsem cph co nu2 dnux2 nu Icur g y"
  proof (rule integrateEmission_for.raw_induct [where P = P, OF _ assms])
    fix f fu cl ds cp c0 n2 dn n ic g0 y0
    assume IH: "\<And>fu cl ds cp c0 n2 dn n ic g0 y0.
        f fu cl ds cp c0 n2 dn n ic g0 = Some y0 \<Longrightarrow> P fu cl ds cp c0 n2 dn n ic g0 y0"
      and step: "(if n < n2
          then emission fu cl g0 n ds cp c0 \<bind>
               (\<lambda>r. f fu cl ds cp c0 n2 dn (n + dn) (ic + fst r * dn) (snd r))
          else Some (ic, g0)) = Some y0"
    show "P fu cl ds cp c0 n2 dn n ic g0 y0"
    proof (cases "n < n2")
      case True
      with step obtain r where e: "emission fu cl g0 n ds cp c0 = Some r"
        and r: "f fu cl ds cp c0 n2 dn (n + dn) (ic + fst r * dn) (snd r) = Some y0"
        by (auto simp add: bind_eq_Some_conv)
      from e have "grows g0 (snd r)" by (cases r) (auto dest: emission_grows)
      moreover from IH [OF r] have "grows (snd r) (snd y0)" by (simp add: P_def)
      ultimately show ?thesis unfolding P_def by (rule grows_trans)
    next
      case False
      with step show ?thesis by (auto simp add: P_def)
    qed
  qed
  then show ?thesis by (simp add: P_def)
qed

lemma integrateEmission_do_grows:
  assumes "integrateEmission_do fuel cls dsem cph co nu1 nu2 dnux2 Icur g = Some y"
  shows "grows g (snd y)"
proof -
  define P where "P = (\<lambda>(fu::nat) (cl::astrobj_class) (ds::dbl) (cp::state_t) (c0::dbl list)
      (n1::dbl) (n2::dbl) (dn::dbl) (ic::dbl) (g0::generic) (y0::dbl \<times> generic). grows g0 (snd y0))"
  have "P fuel cls dsem cph co nu1 nu2 dnux2 Icur g y"
  proof (rule integrateEmission_do.raw_induct [where P = P, OF _ assms])
    fix f fu cl ds cp c0 n1 n2 dn ic g0 y0
    assume IH: "\<And>fu cl ds cp c0 n1 n2 dn ic g0 y0.
        f fu cl ds cp c0 n1 n2 dn ic g0 = Some y0 \<Longrightarrow> P fu cl ds cp c0 n1 n2 dn ic g0 y0"
      and step: "integrateEmission_for fu cl ds cp c0 n2 (dn * Fin (1 / 2))
          (n1 + Fin (1 / 2) * (dn * Fin (1 / 2))) ic g0 \<bind>
         (\<lambda>r. if rnd (1 / 100) * (fst r * Fin (1 / 2)) < fabs (fst r * Fin (1 / 2) - ic)
              then f fu cl ds cp c0 n1 n2 (dn * Fin (1 / 2)) (fst r * Fin (1 / 2)) (snd r)
              else Some (fst r * Fin (1 / 2), snd r)) = Some y0"
    from step obtain r where e: "integrateEmission_for fu cl ds cp c0 n2 (dn * Fin (1 / 2))
          (n1 + Fin (1 / 2) * (dn * Fin (1 / 2))) ic g0 = Some r"
      and r: "(if rnd (1 / 100) * (fst r * Fin (1 / 2)) < fabs (fst r * Fin (1 / 2) - ic)
              then f fu cl ds cp c0 n1 n2 (dn * Fin (1 / 2)) (fst r * Fin (1 / 2)) (snd r)
              else Some (fst r * Fin (1 / 2), snd r)) = Some y0"
      by (auto simp add: bind_eq_Some_conv)
    from e have g: "grows g0 (snd r)" by (rule integrateEmission_for_grows)
    show "P fu cl ds cp c0 n1 n2 dn ic g0 y0"
    proof (cases "rnd (1 / 100) * (fst r * Fin (1 / 2)) < fabs (fst r * Fin (1 / 2) - ic)")
      case True
      with r have "f fu cl ds cp c0 n1 n2 (dn * Fin (1 / 2)) (fst r * Fin (1 / 2)) (snd r) = Some y0"
        by simp
      from IH [OF this] have "grows (snd r) (snd y0)" by (simp add: P_def)
      with g show ?thesis unfolding P_def by (rule grows_trans)
    next
      case False
      with r g show ?thesis by (auto simp add: P_def)
    qed
  qed
  then show ?thesis by (simp add: P_def)
qed

lemma integrateEmission_grows:
  assumes "integrateEmission fuel cls g nu1 nu2 dsem cph co = Some (v, g')"
  shows "grows g g'"
proof -
  from assms obtain lo hi e1 g1 e2 g2 dnux2 Icur where
    1: "emission fuel cls g lo dsem cph co = Some (e1, g1)"
    and 2: "emission fuel cls g1 hi dsem cph co = Some (e2, g2)"
    and 3: "integrateEmission_do fuel cls dsem cph co lo hi dnux2 Icur g2 = Some (v, g')"
    by (auto simp add: integrateEmission_def Let_def bind_eq_Some_conv)
  from 1 have "grows g g1" by (rule emission_grows)
  moreover from 2 have "grows g1 g2" by (rule emission_grows)
  moreover from integrateEmission_do_grows [OF 3] have "grows g2 g'" by simp
  ultimately show ?thesis by (blast intro: grows_trans)
qed

lemma integrateEmission_channels_grows:
  "integrateEmission_channels fuel cls boundaries chaninds dsem cph co is g = Some (Inr (vs, g'))
   \<Longrightarrow> grows g g'"
proof (induction "is" arbitrary: g vs)
  case Nil
  then show ?case by simp
next
  case (Cons i "is")
  from Cons.prems obtain v g1 ws where
    1: "integrateEmission fuel cls g (boundaries ! (chaninds ! (2 * i)))
          (boundaries ! (chaninds ! (2 * i + 1))) dsem cph co = Some (v, g1)"
    and 2: "integrateEmission_channels fuel cls boundaries chaninds dsem cph co is g1
          = Some (Inr (ws, g'))"
    by (auto split: if_splits elim!: rbind_okE dest!: lift_okE)
  from 1 have "grows g g1" by (rule integrateEmission_grows)
  moreover from 2 have "grows g1 g'" by (rule Cons.IH)
  ultimately show ?case by (rule grows_trans)
qed

lemma phq_binspectrum_loop_grows:
  "phq_binspectrum_loop fuel cls d a I nuobs ggredm1 ggred dsem cph co is s = Some (Inr s')
   \<Longrightarrow> grows (hs_object s) (hs_object s')"
proof (induction "is" arbitrary: s)
  case Nil
  then show ?case by simp
next
  case (Cons ii "is")
  show ?case
  proof (cases "spectrum d = None")
    case True
    let ?s1 = "s\<lparr>hs_memory := add_at (a + int ii * offset d)
              (convert_with (binspectrum_converter d)
                 (I ! ii * getTransmission (hs_photon s) (Some ii) * ggred * ggred * ggred * ggred))
              (hs_memory s)\<rparr>"
    from True Cons.prems obtain t g1 where
      1: "transmission fuel cls (hs_object s) (nuobs ! ii * ggredm1) dsem cph co = Some (t, g1)"
      and 2: "phq_binspectrum_loop fuel cls d a I nuobs ggredm1 ggred dsem cph co is
         (?s1\<lparr>hs_photon := transmit (Some ii) t (hs_photon s), hs_object := g1\<rparr>) = Some (Inr s')"
      by (auto simp add: Let_def elim!: rbind_okE dest!: lift_okE)
    from 1 have "grows (hs_object s) g1" by (rule transmission_grows)
    moreover from Cons.IH [OF 2] have "grows g1 (hs_object s')" by simp
    ultimately show ?thesis by (rule grows_trans)
  next
    case False
    with Cons.prems show ?thesis by (auto simp add: Let_def dest!: Cons.IH)
  qed
qed

text \<open>
  The integrator and the accumulator change the object through the primitives only:
  they too leave every data member but \<open>__defaultfeatures\<close> as it was and clear no bit.
\<close>

lemma processHitQuantities_grows:
  assumes "processHitQuantities fuel cls g p cph co dt data m = Some (Inr s')"
  shows "grows g (hs_object s')"
proof (cases data)
  case None
  with assms show ?thesis
    by (auto simp add: processHitQuantities_def Let_def split: if_splits option.splits)
next
  case (Some d)
  from assms Some obtain metr where metr: "gg g = Some metr"
    by (auto simp add: processHitQuantities_def split: if_splits option.splits)
  let ?ggredm1 = "hit_ggredm1 g metr cph co"
  let ?ggred = "Fin 1 / ?ggredm1"
  let ?dsem = "hit_dsem g metr cph co dt"
  let ?s = "\<lparr> hs_photon = p, hs_memory = m, hs_object = g \<rparr>"
  from assms Some metr obtain s1 s2 s3 s4 where
    1: "phq_impactcoords d cph co (phq_redshift_time d ?ggred cph ?s) = Some (Inr s1)"
    and 2: "phq_intensity fuel cls d ?ggredm1 ?ggred ?dsem cph co s1 = Some (Inr s2)"
    and 3: "phq_binspectrum fuel cls d ?ggredm1 ?ggred ?dsem cph co s2 = Some (Inr s3)"
    and 4: "phq_spectrum fuel cls d ?ggredm1 ?ggred ?dsem cph co s3 = Some (Inr s4)"
    and 5: "phq_transmit fuel cls ?ggredm1 ?dsem cph co s4 = Some (Inr s')"
    by (auto simp add: processHitQuantities_def Let_def split: if_splits elim!: rbind_okE)
  from 1 have "hs_object s1 = g"
    by (auto simp add: phq_impactcoords_def phq_redshift_time_def split: option.splits if_splits)
  moreover from 2 have "grows (hs_object s1) (hs_object s2)"
    by (auto simp add: phq_intensity_def Let_def split: option.splits
          elim!: rbind_okE dest!: lift_okE emission_grows)
  moreover from 3 have "grows (hs_object s2) (hs_object s3)"
    by (auto simp add: phq_binspectrum_def integrateEmission_vector_def Let_def
          split: option.splits elim!: rbind_okE
          dest!: integrateEmission_channels_grows phq_binspectrum_loop_grows
          intro: grows_trans)
  moreover have fo: "hs_object (fold (phq_unpolarized_step d a I Taunu ggred) is s0) = hs_object s0"
    for a I Taunu ggred "is" s0
    by (induction "is" arbitrary: s0) (simp_all add: phq_unpolarized_step_def Let_def)
  from 4 have "grows (hs_object s3) (hs_object s4)"
    by (auto simp add: phq_spectrum_def Let_def fo split: option.splits if_splits
          elim!: rbind_okE dest!: lift_okE radiativeQ_grows radiativeQ_polar_grows)
  moreover from 5 have "grows (hs_object s4) (hs_object s')"
    by (auto simp add: phq_transmit_def elim!: rbind_okE dest!: lift_okE transmission_grows)
  ultimately show ?thesis by (auto intro: grows_trans)
qed

end
